theory Spec2Isabelle
  imports Main "HOL-Library.Sublist" "HOL-Library.Word" "HOL-Library.AList"
begin

unbundle bit_operations_syntax

section \<open>Go strings and the library calls of db.go\<close>

text \<open>
  A Go string is a sequence of bytes; it is modelled as \<open>string\<close> (a list of \<open>char\<close>, one
  \<open>char\<close> per byte). The functions of this section are the calls db.go makes into the Go
  standard library, written out for the arguments db.go passes.
\<close>

text \<open>
  \<open>strings.Replace(s, old, new, -1)\<close>: every non-overlapping occurrence of \<open>old\<close> in \<open>s\<close>,
  found from the left, is replaced by \<open>new\<close>. Every call in db.go passes a non-empty
  \<open>old\<close>; the library's insertion at rune boundaries for an empty \<open>old\<close> is not modelled
  (the string is returned as it is).
\<close>

function Replace :: "string \<Rightarrow> string \<Rightarrow> string \<Rightarrow> string" where
  "Replace [] old new = []"
| "Replace (c # cs) old new =
     (if old \<noteq> [] \<and> prefix old (c # cs)
      then new @ Replace (drop (length old) (c # cs)) old new
      else c # Replace cs old new)"
  by pat_completeness auto
termination
  by (relation "measure (\<lambda>(s, old, new). length s)") (auto simp: neq_Nil_conv)

text \<open>
  The UTF-8 encoding of a code point, as the Go compiler stores the string literals of
  db.go and as a valid Go string holds its characters.
\<close>

definition utf8 :: "nat \<Rightarrow> string" where
  "utf8 r =
     (if r < 0x80 then [char_of r]
      else if r < 0x800 then [char_of (0xC0 + r div 64), char_of (0x80 + r mod 64)]
      else if r < 0x10000 then
        [char_of (0xE0 + r div 4096), char_of (0x80 + r div 64 mod 64), char_of (0x80 + r mod 64)]
      else [char_of (0xF0 + r div 262144), char_of (0x80 + r div 4096 mod 64),
            char_of (0x80 + r div 64 mod 64), char_of (0x80 + r mod 64)])"

definition utf8_string :: "nat list \<Rightarrow> string" where
  "utf8_string rs = concat (map utf8 rs)"

text \<open>The bytes of \<open>utf8\<close> as numbers.\<close>

definition ubytes :: "nat \<Rightarrow> nat list" where
  "ubytes r =
     (if r < 0x80 then [r]
      else if r < 0x800 then [0xC0 + r div 64, 0x80 + r mod 64]
      else if r < 0x10000 then [0xE0 + r div 4096, 0x80 + r div 64 mod 64, 0x80 + r mod 64]
      else [0xF0 + r div 262144, 0x80 + r div 4096 mod 64, 0x80 + r div 64 mod 64,
            0x80 + r mod 64])"

text \<open>
  \<open>strings.Index(s, substr)\<close>: the index of the first occurrence of \<open>substr\<close> in \<open>s\<close>,
  or \<open>-1\<close>.
\<close>

fun Index :: "string \<Rightarrow> string \<Rightarrow> int" where
  "Index [] substr = (if substr = [] then 0 else -1)"
| "Index (c # cs) substr =
     (if prefix substr (c # cs) then 0
      else (let i = Index cs substr in if i = -1 then -1 else i + 1))"

text \<open>
  \<open>strings.SplitN(s, sep, n)\<close> for a non-empty \<open>sep\<close> and \<open>n \<ge> 0\<close>: at most \<open>n\<close>
  substrings, the last one the unsplit remainder.
\<close>

fun SplitN :: "string \<Rightarrow> string \<Rightarrow> nat \<Rightarrow> string list" where
  "SplitN s sep 0 = []"
| "SplitN s sep (Suc 0) = [s]"
| "SplitN s sep (Suc (Suc n)) =
     (let m = Index s sep
      in if m < 0 then [s]
         else take (nat m) s # SplitN (drop (nat m + length sep) s) sep (Suc n))"

text \<open>\<open>strings.Join(a, sep)\<close>.\<close>

fun Join :: "string list \<Rightarrow> string \<Rightarrow> string" where
  "Join [] sep = []"
| "Join [a] sep = a"
| "Join (a # b # bs) sep = a @ sep @ Join (b # bs) sep"

datatype error = DBFailure | RecordNotFound | NZBFailure | ErrSyntax | ErrRange

text \<open>
  \<open>strconv.Atoi\<close> on a platform with 64-bit \<open>int\<close>: an optional sign and decimal digits.
  It returns a value together with its error: 0 on a syntax error, the nearest
  representable value when the number is out of range.
\<close>

definition is_digit :: "char \<Rightarrow> bool" where
  "is_digit c \<longleftrightarrow> 48 \<le> (of_char c :: nat) \<and> (of_char c :: nat) \<le> 57"

definition digit_val :: "char \<Rightarrow> int" where
  "digit_val c = int (of_char c) - 48"

definition Atoi :: "string \<Rightarrow> int \<times> error option" where
  "Atoi s =
     (let (neg, ds) =
        (case s of
           [] \<Rightarrow> (False, [])
         | c # cs \<Rightarrow>
             if c = CHR ''-'' then (True, cs) else if c = CHR ''+'' then (False, cs)
             else (False, s))
      in if ds = [] \<or> \<not> list_all is_digit ds then (0, Some ErrSyntax)
         else (let n = foldl (\<lambda>a c. a * 10 + digit_val c) 0 ds
               in if \<not> neg \<and> 2 ^ 63 \<le> n then (2 ^ 63 - 1, Some ErrRange)
                  else if neg \<and> 2 ^ 63 < n then (- (2 ^ 63), Some ErrRange)
                  else (if neg then - n else n, None)))"

text \<open>
  \<open>fmt.Sprintf("%x", v)\<close> for a \<open>uint64\<close>: lower-case hexadecimal digits without leading
  zeros.
\<close>

definition hexdigit :: "nat \<Rightarrow> char" where
  "hexdigit d = ''0123456789abcdef'' ! d"

definition Sprintf_x :: "64 word \<Rightarrow> string" where
  "Sprintf_x v =
     (let ds = dropWhile (\<lambda>c. c = CHR ''0'')
                 (map (\<lambda>i. hexdigit (unat (drop_bit (4 * (15 - i)) v AND 15))) [0..<16])
      in if ds = [] then ''0'' else ds)"

section \<open>xxhash (github.com/OneOfOne/xxhash)\<close>

text \<open>
  makeBinaryHash calls \<open>xxhash.New64\<close>, \<open>Write\<close> and \<open>Sum64\<close> of a library outside the
  repository. \<open>Sum64\<close> below is the XXH64 digest (seed 0) of the bytes written, following
  the published algorithm: four lanes over 32-byte stripes, then the remaining 8-byte,
  4-byte and single-byte steps, then the final mix.
\<close>

definition PRIME64_1 :: "64 word" where "PRIME64_1 = 0x9E3779B185EBCA87"
definition PRIME64_2 :: "64 word" where "PRIME64_2 = 0xC2B2AE3D27D4EB4F"
definition PRIME64_3 :: "64 word" where "PRIME64_3 = 0x165667B19E3779F9"
definition PRIME64_4 :: "64 word" where "PRIME64_4 = 0x85EBCA77C2B2AE63"
definition PRIME64_5 :: "64 word" where "PRIME64_5 = 0x27D4EB2F165667C5"

definition le_word :: "string \<Rightarrow> 64 word" where
  "le_word bs = foldr (\<lambda>c w. push_bit 8 w + of_nat (of_char c)) bs 0"

definition xxh_round :: "64 word \<Rightarrow> 64 word \<Rightarrow> 64 word" where
  "xxh_round acc inp = word_rotl 31 (acc + inp * PRIME64_2) * PRIME64_1"

definition xxh_merge :: "64 word \<Rightarrow> 64 word \<Rightarrow> 64 word" where
  "xxh_merge h v = (h XOR xxh_round 0 v) * PRIME64_1 + PRIME64_4"

function xxh_stripes :: "64 word \<times> 64 word \<times> 64 word \<times> 64 word \<Rightarrow> string \<Rightarrow>
    (64 word \<times> 64 word \<times> 64 word \<times> 64 word) \<times> string" where
  "xxh_stripes (v1, v2, v3, v4) bs =
     (if 32 \<le> length bs
      then xxh_stripes
             (xxh_round v1 (le_word (take 8 bs)), xxh_round v2 (le_word (take 8 (drop 8 bs))),
              xxh_round v3 (le_word (take 8 (drop 16 bs))),
              xxh_round v4 (le_word (take 8 (drop 24 bs))))
             (drop 32 bs)
      else ((v1, v2, v3, v4), bs))"
  by pat_completeness auto
termination
  by (relation "measure (\<lambda>(v, bs). length bs)") auto

function xxh_tail :: "64 word \<Rightarrow> string \<Rightarrow> 64 word" where
  "xxh_tail h bs =
     (if 8 \<le> length bs
      then xxh_tail
             (word_rotl 27 (h XOR xxh_round 0 (le_word (take 8 bs))) * PRIME64_1 + PRIME64_4)
             (drop 8 bs)
      else if 4 \<le> length bs
      then xxh_tail
             (word_rotl 23 (h XOR le_word (take 4 bs) * PRIME64_1) * PRIME64_2 + PRIME64_3)
             (drop 4 bs)
      else if bs \<noteq> []
      then xxh_tail (word_rotl 11 (h XOR le_word (take 1 bs) * PRIME64_5) * PRIME64_1)
             (drop 1 bs)
      else h)"
  by pat_completeness auto
termination
  by (relation "measure (\<lambda>(h, bs). length bs)") auto

definition xxh_avalanche :: "64 word \<Rightarrow> 64 word" where
  "xxh_avalanche h =
     (let h1 = (h XOR drop_bit 33 h) * PRIME64_2;
          h2 = (h1 XOR drop_bit 29 h1) * PRIME64_3
      in h2 XOR drop_bit 32 h2)"

definition Sum64 :: "string \<Rightarrow> 64 word" where
  "Sum64 bs =
     (let (h, rest) =
        (if 32 \<le> length bs
         then (case xxh_stripes (PRIME64_1 + PRIME64_2, PRIME64_2, 0, 0 - PRIME64_1) bs of
                 ((v1, v2, v3, v4), rest) \<Rightarrow>
                   (xxh_merge (xxh_merge (xxh_merge (xxh_merge
                      (word_rotl 1 v1 + word_rotl 7 v2 + word_rotl 12 v3 + word_rotl 18 v4)
                      v1) v2) v3) v4, rest))
         else (PRIME64_5, bs))
      in xxh_avalanche (xxh_tail (h + of_nat (length bs)) rest))"

section \<open>The data model\<close>

text \<open>
  The structs of package \<open>types\<close> are declared outside db.go. The records below carry the
  fields db.go reads and writes (the struct literals of lines 259 to 267 and 340 to 349,
  the columns of the query of lines 294 to 306, the foreign keys \<open>binary_id\<close> and
  \<open>part_id\<close>), with the meaning section 3 of the specification gives them. A timestamp is
  an integer. \<open>Segment_Size\<close> is the number of bytes retrieved for a segment. A nullable
  column is an \<open>option\<close>. The association fields \<open>Part_Segments\<close> and \<open>Binary_Parts\<close> are
  filled in memory only (by \<open>Preload\<close>, or by the code); a table row has them empty.
\<close>

record Group =
  Group_ID :: int
  Group_Name :: string
  Group_Active :: bool

record Segment =
  Segment_ID :: int
  Segment_PartID :: int
  Segment_Size :: int

record Part =
  Part_ID :: int
  Part_Subject :: string
  Part_Group :: string
  Part_From :: string
  Part_Posted :: int
  Part_TotalSegments :: int
  Part_BinaryID :: "int option"
  Part_Segments :: "Segment list"

record Binary =
  Binary_ID :: int
  Binary_Hash :: string
  Binary_Name :: string
  Binary_Posted :: int
  Binary_From :: string
  Binary_Group :: string
  Binary_TotalParts :: int
  Binary_Parts :: "Part list"

record Release =
  Release_ID :: int
  Release_Name :: string
  Release_OriginalName :: string
  Release_SearchName :: string
  Release_Posted :: int
  Release_From :: string
  Release_Group :: Group
  Release_Size :: int
  Release_NZB :: string

text \<open>The relational store: one list of rows per table, in primary-key order.\<close>

record store =
  tbl_group :: "Group list"
  tbl_part :: "Part list"
  tbl_segment :: "Segment list"
  tbl_binary :: "Binary list"
  tbl_release :: "Release list"

text \<open>
  Every table has the primary key \<open>id\<close>, which the store assigns on insertion: unique
  within its table and never 0 (the value gorm reads as "not yet saved").
\<close>

definition wf_store :: "store \<Rightarrow> bool" where
  "wf_store s \<longleftrightarrow>
     distinct (map Binary_ID (tbl_binary s)) \<and> 0 \<notin> set (map Binary_ID (tbl_binary s)) \<and>
     distinct (map Part_ID (tbl_part s)) \<and>
     0 \<notin> set (map Release_ID (tbl_release s))"

text \<open>
  How a function of db.go ends: it returns \<open>nil\<close>, returns an error, or panics.
\<close>

datatype status = Nil | Err error | Panic

text \<open>
  The places where db.go calls the store, named by their line. Whether a call fails for a
  reason the model does not hold (the disk, a lock, the connection) is decided by the
  environment, per call site and per row being processed (key 0 where no row is).
\<close>

datatype site = L155 | L192 | L269 | L307 | L314 | L325 | L356 | L365 | L371 | L377

text \<open>
  What db.go takes from outside itself:
  \<^item> \<open>FindStringSubmatchMap\<close>: \<open>rc.FindStringSubmatchMap(subject)\<close> for the pattern of line
    189, the named captures as a Go map. The map is a list of pairs with distinct keys;
    Go leaves the order in which \<open>range\<close> visits a map open, and the model visits the
    list in its order, so whoever supplies the list chooses it;
  \<^item> \<open>PartRegex1\<close>: the first submatch of \<open>PartRegex.FindStringSubmatch(subject)\<close>, if
    the pattern of line 173 matches;
  \<^item> \<open>TrimSpace\<close>: \<open>strings.TrimSpace\<close>;
  \<^item> \<open>WriteNZB\<close>: the manifest builder \<open>nzb.WriteNZB\<close>;
  \<^item> \<open>db_fails\<close>: the store calls that fail.
\<close>

record env =
  FindStringSubmatchMap :: "string \<Rightarrow> (string \<times> string) list"
  PartRegex1 :: "string \<Rightarrow> string option"
  TrimSpace :: "string \<Rightarrow> string"
  WriteNZB :: "Binary \<Rightarrow> error + string"
  db_fails :: "site \<Rightarrow> int \<Rightarrow> bool"

section \<open>The store calls (gorm)\<close>

text \<open>The key a table gives to a new row: above every key in use, and at least 1.\<close>

definition nextID :: "int list \<Rightarrow> int" where
  "nextID ids = 1 + fold max ids 0"

text \<open>\<open>Save\<close> of a row that has its key: the row with that key is replaced.\<close>

definition upsert :: "('a \<Rightarrow> int) \<Rightarrow> 'a \<Rightarrow> 'a list \<Rightarrow> 'a list" where
  "upsert key row rows =
     (if key row \<in> key ` set rows
      then map (\<lambda>r. if key r = key row then row else r) rows
      else rows @ [row])"

text \<open>
  \<open>d.DB.Save(binary)\<close> (line 269). A Binary whose \<open>ID\<close> is 0 is inserted and gets its key;
  otherwise its row is updated. Then every Part of \<open>binary.Parts\<close> gets the Binary's key
  as its \<open>binary_id\<close> and is saved by its own key. The struct in memory is updated
  likewise.
\<close>

definition Save_Binary :: "store \<Rightarrow> Binary \<Rightarrow> Binary \<times> store" where
  "Save_Binary s b =
     (let id = (if Binary_ID b = 0 then nextID (map Binary_ID (tbl_binary s)) else Binary_ID b);
          b' = b\<lparr>Binary_ID := id,
                 Binary_Parts := map (\<lambda>p. p\<lparr>Part_BinaryID := Some id\<rparr>) (Binary_Parts b)\<rparr>
      in (b', s\<lparr>tbl_binary := upsert Binary_ID (b'\<lparr>Binary_Parts := []\<rparr>) (tbl_binary s),
                tbl_part := fold (upsert Part_ID) (Binary_Parts b') (tbl_part s)\<rparr>))"

text \<open>\<open>First\<close>: the matching row with the least key.\<close>

definition First :: "('a \<Rightarrow> int) \<Rightarrow> 'a list \<Rightarrow> 'a option" where
  "First key rows =
     (case rows of
        [] \<Rightarrow> None
      | r # rs \<Rightarrow> Some (fold (\<lambda>x m. if key x < key m then x else m) rs r))"

text \<open>
  \<open>Preload("Parts").Preload("Parts.Segments")\<close> (line 325): the Parts whose \<open>binary_id\<close>
  is the Binary's key, each with the Segments whose \<open>part_id\<close> is the Part's key.
\<close>

definition Preload :: "store \<Rightarrow> Binary \<Rightarrow> Binary" where
  "Preload s b =
     b\<lparr>Binary_Parts :=
         map (\<lambda>p. p\<lparr>Part_Segments := filter (\<lambda>g. Segment_PartID g = Part_ID p) (tbl_segment s)\<rparr>)
           (filter (\<lambda>p. Part_BinaryID p = Some (Binary_ID b)) (tbl_part s))\<rparr>"

text \<open>
  Modelled from the spec: \<open>Binary.Size()\<close> of package \<open>types\<close> is not in the sources; the
  specification (4.4, step 4) has it "summing retrieved bytes across all Segments".
\<close>

definition Size :: "Binary \<Rightarrow> int" where
  "Size b = sum_list (map Segment_Size (concat (map Part_Segments (Binary_Parts b))))"

text \<open>FindGroupByName (lines 153 to 160).\<close>

definition FindGroupByName :: "env \<Rightarrow> store \<Rightarrow> string \<Rightarrow> error + Group" where
  "FindGroupByName env s name =
     (if db_fails env L155 0 then Inl DBFailure
      else (case First Group_ID (filter (\<lambda>g. Group_Name g = name) (tbl_group s)) of
              None \<Rightarrow> Inl RecordNotFound
            | Some g \<Rightarrow> Inr g))"

section \<open>MakeBinaries (db.go, lines 175 to 275)\<close>

definition lookup :: "(string \<times> string) list \<Rightarrow> string \<Rightarrow> string" where
  "lookup m k = (case map_of m k of None \<Rightarrow> [] | Some v \<Rightarrow> v)"

definition hasNameAndParts :: "(string \<times> string) list \<Rightarrow> bool" where
  "hasNameAndParts m \<longleftrightarrow> map_of m ''name'' \<noteq> None \<and> map_of m ''parts'' \<noteq> None"

definition makeBinaryHash :: "string \<Rightarrow> string \<Rightarrow> string \<Rightarrow> string \<Rightarrow> string" where
  "makeBinaryHash name grp from totalParts = Sprintf_x (Sum64 (name @ grp @ from @ totalParts))"

text \<open>Lines 201 to 229: the captures of a subject, with the name and the parts filled in.\<close>

definition subjectMap :: "env \<Rightarrow> Part \<Rightarrow> (string \<times> string) list" where
  "subjectMap env p =
     (let m0 = map (\<lambda>(k, v). (k, TrimSpace env v)) (FindStringSubmatchMap env (Part_Subject p));
          m1 = (case map_of m0 ''reqid'' of
                  Some reqid \<Rightarrow>
                    if map_of m0 ''name'' = None then AList.update ''name'' reqid m0 else m0
                | None \<Rightarrow> m0);
          m2 = (if map_of m1 ''name'' = None
                then AList.update ''name'' (Join (map snd m1) '' '') m1 else m1)
      in if map_of m2 ''parts'' = None
         then (case PartRegex1 env (Part_Subject p) of
                 Some partmatch \<Rightarrow> AList.update ''parts'' partmatch m2
               | None \<Rightarrow> m2)
         else m2)"

text \<open>Lines 237 to 245.\<close>

definition normalizeParts :: "string \<Rightarrow> string" where
  "normalizeParts parts =
     (if Index parts ''/'' = -1
      then Replace (Replace (Replace (Replace (Replace (Replace (Replace parts
             ''-'' ''/'') ''~'' ''/'') '' of '' ''/'') ''['' []) '']'' []) ''('' []) '')'' []
      else parts)"

text \<open>
  Lines 230 to 252: \<open>None\<close> where the loop says \<open>continue\<close>, otherwise the list
  \<open>partcounts\<close>.
\<close>

definition partcounts :: "env \<Rightarrow> Part \<Rightarrow> string list option" where
  "partcounts env p =
     (let m = subjectMap env p
      in if \<not> hasNameAndParts m then None
         else (let parts = normalizeParts (lookup m ''parts'')
               in if Index parts ''/'' = -1 then None else Some (SplitN parts ''/'' 2)))"

text \<open>
  Lines 254 to 268: the Binary of a part, new or found in the map of this run.
  \<open>partcounts[1]\<close> panics on a list shorter than two.
\<close>

definition binaryFor ::
  "(string \<rightharpoonup> Binary) \<Rightarrow> string \<Rightarrow> string \<Rightarrow> string \<Rightarrow> Part \<Rightarrow> Binary" where
  "binaryFor binaries binhash name tot p =
     (case binaries binhash of
        Some bin \<Rightarrow> bin\<lparr>Binary_Parts := Binary_Parts bin @ [p]\<rparr>
      | None \<Rightarrow>
          \<lparr>Binary_ID = 0, Binary_Hash = binhash, Binary_Name = name,
           Binary_Posted = Part_Posted p, Binary_From = Part_From p,
           Binary_Group = Part_Group p, Binary_TotalParts = fst (Atoi tot),
           Binary_Parts = [p]\<rparr>)"

text \<open>The hash of line 254, for a part the parser accepts.\<close>

definition binhashOf :: "env \<Rightarrow> Part \<Rightarrow> string option" where
  "binhashOf env p =
     (case partcounts env p of
        Some [idx, tot] \<Rightarrow>
          Some (makeBinaryHash (lookup (subjectMap env p) ''name'') (Part_Group p) (Part_From p)
                  tot)
      | _ \<Rightarrow> None)"

text \<open>One turn of the loop of lines 199 to 273.\<close>

definition groupPart ::
  "env \<Rightarrow> Part \<Rightarrow> (string \<rightharpoonup> Binary) \<times> store \<Rightarrow> status \<times> (string \<rightharpoonup> Binary) \<times> store" where
  "groupPart env p st =
     (case st of (binaries, s) \<Rightarrow>
        (case partcounts env p of
           None \<Rightarrow> (Nil, binaries, s)
         | Some pc \<Rightarrow>
             (case pc of
                [idx, tot] \<Rightarrow>
                  (let name = lookup (subjectMap env p) ''name'';
                       binhash = makeBinaryHash name (Part_Group p) (Part_From p) tot;
                       bin = binaryFor binaries binhash name tot p
                   in if db_fails env L269 (Part_ID p) then (Err DBFailure, binaries, s)
                      else (case Save_Binary s bin of
                              (bin', s') \<Rightarrow> (Nil, binaries(binhash \<mapsto> bin'), s')))
              | _ \<Rightarrow> (Panic, binaries, s))))"

fun MakeBinaries_loop ::
  "env \<Rightarrow> (string \<rightharpoonup> Binary) \<times> store \<Rightarrow> Part list \<Rightarrow> status \<times> (string \<rightharpoonup> Binary) \<times> store" where
  "MakeBinaries_loop env st [] = (Nil, st)"
| "MakeBinaries_loop env st (p # ps) =
     (case groupPart env p st of
        (Nil, st') \<Rightarrow> MakeBinaries_loop env st' ps
      | r \<Rightarrow> r)"

definition MakeBinaries :: "env \<Rightarrow> store \<Rightarrow> status \<times> store" where
  "MakeBinaries env s =
     (if db_fails env L192 0 then (Err DBFailure, s)
      else (case MakeBinaries_loop env (Map.empty, s)
                   (filter (\<lambda>p. Part_BinaryID p = None) (tbl_part s)) of
              (r, binaries, s') \<Rightarrow> (r, s')))"

section \<open>cleanReleaseName (db.go, lines 277 to 289)\<close>

text \<open>
  \<open>removeChars\<close> holds the byte strings of the source literals: five ASCII characters and
  the two-byte encodings of U+00A7, U+00A8, U+00A9 and U+00D6.
\<close>

definition removeChars :: "string list" where
  "removeChars =
     [''#'', ''@'', ''$'', ''%'', ''^'', [CHR 0xC2, CHR 0xA7], [CHR 0xC2, CHR 0xA8],
      [CHR 0xC2, CHR 0xA9], [CHR 0xC3, CHR 0x96]]"

definition spaceChars :: "string list" where
  "spaceChars = [''_'', ''.'', ''-'']"

definition cleanReleaseName :: "string \<Rightarrow> string" where
  "cleanReleaseName name =
     fold (\<lambda>c name. Replace name c '' '') spaceChars
       (fold (\<lambda>c name. Replace name c []) removeChars name)"

text \<open>The code points of the two lists, for stating what happens to each character.\<close>

definition removeRunes :: "nat list" where
  "removeRunes = [0x23, 0x40, 0x24, 0x25, 0x5E, 0xA7, 0xA8, 0xA9, 0xD6]"

definition spaceRunes :: "nat list" where
  "spaceRunes = [0x5F, 0x2E, 0x2D]"

section \<open>MakeReleases (db.go, lines 291 to 385)\<close>

text \<open>
  The query of lines 294 to 306. The inner query joins every Part to its Segments and
  groups by the Part's key: one row per Part that has a Segment, with the number of its
  Segments as \<open>available_segments\<close>.
\<close>

definition available_segments :: "store \<Rightarrow> Part \<Rightarrow> int" where
  "available_segments s p =
     int (length (filter (\<lambda>g. Segment_PartID g = Part_ID p) (tbl_segment s)))"

definition part_rows :: "store \<Rightarrow> Binary \<Rightarrow> Part list" where
  "part_rows s b =
     filter (\<lambda>p. Part_BinaryID p = Some (Binary_ID b) \<and> 0 < available_segments s p) (tbl_part s)"

text \<open>
  SQLite divides integers towards zero, and a division by zero is NULL, which no
  comparison accepts.
\<close>

definition sql_div :: "int \<Rightarrow> int \<Rightarrow> int option" where
  "sql_div a b = (if b = 0 then None else Some (sgn a * sgn b * (\<bar>a\<bar> div \<bar>b\<bar>)))"

text \<open>
  The outer query joins a Binary to the rows of its Parts and groups by the Binary's
  key; \<open>having\<close> is the HAVING clause with its parameter 100 (line 307). A Binary
  without such a row is in no group.
\<close>

definition having :: "store \<Rightarrow> Binary \<Rightarrow> bool" where
  "having s b \<longleftrightarrow>
     part_rows s b \<noteq> [] \<and>
     Binary_TotalParts b \<le> int (length (part_rows s b)) \<and>
     (case sql_div (sum_list (map (available_segments s) (part_rows s b)))
                   (sum_list (map Part_TotalSegments (part_rows s b))) of
        None \<Rightarrow> False
      | Some q \<Rightarrow> 100 \<le> q * 100)"

text \<open>\<open>Scan\<close> fills the five selected columns; the other fields keep their zero value.\<close>

definition scanned :: "Binary \<Rightarrow> Binary" where
  "scanned b =
     \<lparr>Binary_ID = Binary_ID b, Binary_Hash = [], Binary_Name = Binary_Name b,
      Binary_Posted = Binary_Posted b, Binary_From = [], Binary_Group = Binary_Group b,
      Binary_TotalParts = Binary_TotalParts b, Binary_Parts = []\<rparr>"

text \<open>
  The result of the query, latest posted first (Binaries posted at the same time keep
  their table order).
\<close>

definition FindReadyBinaries :: "store \<Rightarrow> Binary list" where
  "FindReadyBinaries s =
     sort_key (\<lambda>b. - Binary_Posted b) (map scanned (filter (having s) (tbl_binary s)))"

text \<open>
  Lines 355 to 382. \<open>tx\<close> is the transaction's view of the store; \<open>Rollback\<close> leaves the
  store as it was at \<open>Begin\<close>, \<open>Commit\<close> makes the view the store. The code does not
  look at the results of \<open>Begin\<close>, \<open>Rollback\<close> and \<open>Commit\<close>; the model takes them to
  succeed.
\<close>

definition transaction :: "env \<Rightarrow> store \<Rightarrow> Binary \<Rightarrow> Release \<Rightarrow> status \<times> store" where
  "transaction env s dbbin newrel =
     (let id = Binary_ID dbbin
      in if db_fails env L356 id then (Err DBFailure, s)
         else
          (let tx1 = s\<lparr>tbl_release := tbl_release s @
                        [newrel\<lparr>Release_ID := nextID (map Release_ID (tbl_release s))\<rparr>]\<rparr>;
               partids = map Part_ID (Binary_Parts dbbin)
           in if db_fails env L365 id then (Err DBFailure, s)
              else
               (let tx2 = tx1\<lparr>tbl_part :=
                               filter (\<lambda>p. Part_BinaryID p \<noteq> Some id) (tbl_part tx1)\<rparr>
                in if db_fails env L371 id then (Err DBFailure, s)
                   else
                    (let tx3 = tx2\<lparr>tbl_segment :=
                                    filter (\<lambda>g. Segment_PartID g \<notin> set partids)
                                      (tbl_segment tx2)\<rparr>
                     in if db_fails env L377 id then (Err DBFailure, s)
                        else (Nil, tx3\<lparr>tbl_binary :=
                                        filter (\<lambda>x. Binary_ID x \<noteq> id) (tbl_binary tx3)\<rparr>)))))"

text \<open>Lines 313 to 314: the key of the Release found for a name and a date, 0 if none.\<close>

definition dbrel_ID :: "store \<Rightarrow> Binary \<Rightarrow> int" where
  "dbrel_ID s b =
     (case First Release_ID
             (filter (\<lambda>r. Release_Name r = Binary_Name b \<and> Release_Posted r = Binary_Posted b)
                (tbl_release s)) of
        None \<Rightarrow> 0
      | Some r \<Rightarrow> Release_ID r)"

text \<open>
  One turn of the loop of lines 311 to 383; \<open>Nil\<close> is the turn that goes on to the next
  candidate. Line 346 dereferences \<open>grp\<close>, which is \<open>nil\<close> when FindGroupByName returned
  an error.
\<close>

definition promote :: "env \<Rightarrow> store \<Rightarrow> Binary \<Rightarrow> status \<times> store" where
  "promote env s b =
     (if db_fails env L314 (Binary_ID b) then (Err DBFailure, s)
      else if dbrel_ID s b \<noteq> 0 then (Nil, s)
      else if db_fails env L325 (Binary_ID b) then (Err DBFailure, s)
      else (case First Binary_ID (filter (\<lambda>x. Binary_ID x = Binary_ID b) (tbl_binary s)) of
              None \<Rightarrow> (Err RecordNotFound, s)
            | Some row \<Rightarrow>
                (let dbbin = Preload s row;
                     grp = FindGroupByName env s (Binary_Group b)
                 in (case WriteNZB env dbbin of
                       Inl e \<Rightarrow> (Err e, s)
                     | Inr nzbstr \<Rightarrow>
                         (case grp of
                            Inl e \<Rightarrow> (Panic, s)
                          | Inr g \<Rightarrow>
                              transaction env s dbbin
                                \<lparr>Release_ID = 0, Release_Name = Binary_Name b,
                                 Release_OriginalName = Binary_Name b,
                                 Release_SearchName = cleanReleaseName (Binary_Name b),
                                 Release_Posted = Binary_Posted b,
                                 Release_From = Binary_From b, Release_Group = g,
                                 Release_Size = Size dbbin, Release_NZB = nzbstr\<rparr>)))))"

fun MakeReleases_loop :: "env \<Rightarrow> store \<Rightarrow> Binary list \<Rightarrow> status \<times> store" where
  "MakeReleases_loop env s [] = (Nil, s)"
| "MakeReleases_loop env s (b # bs) =
     (case promote env s b of
        (Nil, s') \<Rightarrow> MakeReleases_loop env s' bs
      | r \<Rightarrow> r)"

definition MakeReleases :: "env \<Rightarrow> store \<Rightarrow> status \<times> store" where
  "MakeReleases env s =
     (if db_fails env L307 0 then (Err DBFailure, s)
      else MakeReleases_loop env s (FindReadyBinaries s))"

section \<open>Example inputs\<close>

text \<open>
  An environment for the examples: the captures of each subject are listed in a table
  (a subject that is not listed matches neither pattern), \<open>TrimSpace\<close> removes ASCII
  white space at both ends, the manifest builder succeeds and no store call fails.
\<close>

definition is_space :: "char \<Rightarrow> bool" where
  "is_space c \<longleftrightarrow> c \<in> set [CHR '' '', CHR 0x09, CHR 0x0A, CHR 0x0B, CHR 0x0C, CHR 0x0D]"

definition trim_ascii :: "string \<Rightarrow> string" where
  "trim_ascii s = rev (dropWhile is_space (rev (dropWhile is_space s)))"

definition example_env ::
  "(string \<times> (string \<times> string) list) list \<Rightarrow> (string \<times> string) list \<Rightarrow> env" where
  "example_env captures partmatches =
     \<lparr>FindStringSubmatchMap = (\<lambda>s. case map_of captures s of None \<Rightarrow> [] | Some m \<Rightarrow> m),
      PartRegex1 = map_of partmatches,
      TrimSpace = trim_ascii,
      WriteNZB = (\<lambda>b. Inr ''nzb''),
      db_fails = (\<lambda>site key. False)\<rparr>"

definition example_part :: "int \<Rightarrow> string \<Rightarrow> string \<Rightarrow> string \<Rightarrow> int \<Rightarrow> Part" where
  "example_part i subject grp from posted =
     \<lparr>Part_ID = i, Part_Subject = subject, Part_Group = grp, Part_From = from,
      Part_Posted = posted, Part_TotalSegments = 1, Part_BinaryID = None, Part_Segments = []\<rparr>"

definition empty_store :: store where
  "empty_store = \<lparr>tbl_group = [], tbl_part = [], tbl_segment = [], tbl_binary = [], tbl_release = []\<rparr>"

text \<open>
  The subject \<open>[pc] - "file" yEnc\<close>, and two parts of one poster in one group whose
  subjects give the totals \<open>34\<close> and \<open>034\<close>: the pattern of line 189 captures the
  parts \<open>1/34\<close> and \<open>2/034\<close> and the name \<open>a\<close>.
\<close>

definition example_subject :: "string \<Rightarrow> string \<Rightarrow> string" where
  "example_subject pc file = ''['' @ pc @ ''] - '' @ [CHR 0x22] @ file @ [CHR 0x22] @ '' yEnc''"

definition env34 :: env where
  "env34 = example_env
     [(example_subject ''1/34'' ''a.mkv'', [(''parts'', ''1/34''), (''name'', ''a'')]),
      (example_subject ''2/034'' ''a.mkv'', [(''parts'', ''2/034''), (''name'', ''a'')])] []"

definition store34 :: store where
  "store34 = empty_store\<lparr>tbl_part :=
     [example_part 1 (example_subject ''1/34'' ''a.mkv'') ''g'' ''f'' 100,
      example_part 2 (example_subject ''2/034'' ''a.mkv'') ''g'' ''f'' 101]\<rparr>"

text \<open>
  A store with the group \<open>g\<close> and two Binaries of one part each, every part with its one
  segment: both Binaries are complete, and the query returns Binary 1 (posted later)
  before Binary 2.
\<close>

definition example_binary :: "int \<Rightarrow> string \<Rightarrow> int \<Rightarrow> int \<Rightarrow> Binary" where
  "example_binary i name posted totalParts =
     \<lparr>Binary_ID = i, Binary_Hash = ''h'', Binary_Name = name, Binary_Posted = posted,
      Binary_From = ''f'', Binary_Group = ''g'', Binary_TotalParts = totalParts,
      Binary_Parts = []\<rparr>"

definition example_segment :: "int \<Rightarrow> int \<Rightarrow> Segment" where
  "example_segment i part = \<lparr>Segment_ID = i, Segment_PartID = part, Segment_Size = 10\<rparr>"

definition two_ready :: store where
  "two_ready =
     \<lparr>tbl_group = [\<lparr>Group_ID = 1, Group_Name = ''g'', Group_Active = True\<rparr>],
      tbl_part = [(example_part 1 ''s1'' ''g'' ''f'' 6)\<lparr>Part_BinaryID := Some 1\<rparr>,
                  (example_part 2 ''s2'' ''g'' ''f'' 5)\<lparr>Part_BinaryID := Some 2\<rparr>],
      tbl_segment = [example_segment 1 1, example_segment 2 2],
      tbl_binary = [example_binary 1 ''My.Show'' 6 1, example_binary 2 ''Other-Show'' 5 1],
      tbl_release = []\<rparr>"

text \<open>
  Variants of the examples: a store that already holds a Release of a given name and
  date, a store without groups, an environment in which one store call fails, and one in
  which the manifest builder fails for one Binary.
\<close>

definition with_release :: "store \<Rightarrow> string \<Rightarrow> int \<Rightarrow> store" where
  "with_release s name posted =
     s\<lparr>tbl_release := tbl_release s @
        [\<lparr>Release_ID = nextID (map Release_ID (tbl_release s)), Release_Name = name,
          Release_OriginalName = name, Release_SearchName = cleanReleaseName name,
          Release_Posted = posted, Release_From = [],
          Release_Group = \<lparr>Group_ID = 1, Group_Name = ''g'', Group_Active = True\<rparr>,
          Release_Size = 10, Release_NZB = ''nzb''\<rparr>]\<rparr>"

definition no_groups :: store where
  "no_groups = two_ready\<lparr>tbl_group := []\<rparr>"

definition failing_at :: "site \<Rightarrow> int \<Rightarrow> env" where
  "failing_at site key = (example_env [] [])\<lparr>db_fails := (\<lambda>s k. s = site \<and> k = key)\<rparr>"

definition nzb_failing :: "int \<Rightarrow> env" where
  "nzb_failing i =
     (example_env [] [])\<lparr>WriteNZB := (\<lambda>b. if Binary_ID b = i then Inl NZBFailure else Inr ''nzb'')\<rparr>"

text \<open>
  A Binary with \<open>total_parts = 2\<close> and two Parts of two segments each: Part 1 has one
  Segment in the store, Part 2 has three.
\<close>

definition surplus_store :: store where
  "surplus_store =
     \<lparr>tbl_group = [\<lparr>Group_ID = 1, Group_Name = ''g'', Group_Active = True\<rparr>],
      tbl_part = [(example_part 1 ''s1'' ''g'' ''f'' 6)\<lparr>Part_BinaryID := Some 1, Part_TotalSegments := 2\<rparr>,
                  (example_part 2 ''s2'' ''g'' ''f'' 6)\<lparr>Part_BinaryID := Some 1, Part_TotalSegments := 2\<rparr>],
      tbl_segment = [example_segment 1 1, example_segment 2 2, example_segment 3 2,
                     example_segment 4 2],
      tbl_binary = [example_binary 1 ''My.Show'' 6 2],
      tbl_release = []\<rparr>"

text \<open>
  A Binary with \<open>total_parts = 2\<close> and three Parts of two segments each: Parts 1 and 2
  have their two Segments, Part 3 has none. And a Binary with \<open>total_parts = 3\<close> and
  three Parts with \<open>total_segments = 0\<close> and no Segment.
\<close>

definition empty_part_store :: store where
  "empty_part_store =
     \<lparr>tbl_group = [\<lparr>Group_ID = 1, Group_Name = ''g'', Group_Active = True\<rparr>],
      tbl_part = [(example_part 1 ''s1'' ''g'' ''f'' 6)\<lparr>Part_BinaryID := Some 1, Part_TotalSegments := 2\<rparr>,
                  (example_part 2 ''s2'' ''g'' ''f'' 6)\<lparr>Part_BinaryID := Some 1, Part_TotalSegments := 2\<rparr>,
                  (example_part 3 ''s3'' ''g'' ''f'' 6)\<lparr>Part_BinaryID := Some 1, Part_TotalSegments := 2\<rparr>],
      tbl_segment = [example_segment 1 1, example_segment 2 1, example_segment 3 2,
                     example_segment 4 2],
      tbl_binary = [example_binary 1 ''My.Show'' 6 2],
      tbl_release = []\<rparr>"

definition no_segment_store :: store where
  "no_segment_store =
     \<lparr>tbl_group = [\<lparr>Group_ID = 1, Group_Name = ''g'', Group_Active = True\<rparr>],
      tbl_part = [(example_part 1 ''s1'' ''g'' ''f'' 6)\<lparr>Part_BinaryID := Some 1, Part_TotalSegments := 0\<rparr>,
                  (example_part 2 ''s2'' ''g'' ''f'' 6)\<lparr>Part_BinaryID := Some 1, Part_TotalSegments := 0\<rparr>,
                  (example_part 3 ''s3'' ''g'' ''f'' 6)\<lparr>Part_BinaryID := Some 1, Part_TotalSegments := 0\<rparr>],
      tbl_segment = [],
      tbl_binary = [example_binary 1 ''My.Show'' 6 3],
      tbl_release = []\<rparr>"

text \<open>
  The example store with a Release \<open>Other-Show\<close> of date 5 already in it, after one run
  of MakeReleases: Binary 1 has been promoted, Binary 2 was a duplicate and has been left.
\<close>

definition after_run :: store where
  "after_run =
     \<lparr>tbl_group = [\<lparr>Group_ID = 1, Group_Name = ''g'', Group_Active = True\<rparr>],
      tbl_part = [(example_part 2 ''s2'' ''g'' ''f'' 5)\<lparr>Part_BinaryID := Some 2\<rparr>],
      tbl_segment = [example_segment 2 2],
      tbl_binary = [example_binary 2 ''Other-Show'' 5 1],
      tbl_release =
        [\<lparr>Release_ID = 1, Release_Name = ''Other-Show'', Release_OriginalName = ''Other-Show'',
          Release_SearchName = ''Other Show'', Release_Posted = 5, Release_From = [],
          Release_Group = \<lparr>Group_ID = 1, Group_Name = ''g'', Group_Active = True\<rparr>,
          Release_Size = 10, Release_NZB = ''nzb''\<rparr>,
         \<lparr>Release_ID = 2, Release_Name = ''My.Show'', Release_OriginalName = ''My.Show'',
          Release_SearchName = ''My Show'', Release_Posted = 6, Release_From = [],
          Release_Group = \<lparr>Group_ID = 1, Group_Name = ''g'', Group_Active = True\<rparr>,
          Release_Size = 10, Release_NZB = ''nzb''\<rparr>]\<rparr>"

text \<open>
  Two parts of one name and group: the poster \<open>bob1\<close> with the total \<open>34\<close>, and the
  poster \<open>bob\<close> with the total \<open>134\<close>.
\<close>

definition env_bob :: env where
  "env_bob = example_env
     [(example_subject ''1/34'' ''a.mkv'', [(''parts'', ''1/34''), (''name'', ''a'')]),
      (example_subject ''1/134'' ''a.mkv'', [(''parts'', ''1/134''), (''name'', ''a'')])] []"

definition store_bob :: store where
  "store_bob = empty_store\<lparr>tbl_part :=
     [example_part 1 (example_subject ''1/34'' ''a.mkv'') ''g'' ''bob1'' 100,
      example_part 2 (example_subject ''1/134'' ''a.mkv'') ''g'' ''bob'' 101]\<rparr>"

text \<open>
  Three parts of one name, group and poster, with the totals \<open>34\<close>, \<open>034\<close> and \<open>34\<close>.
\<close>

definition env3 :: env where
  "env3 = example_env
     [(example_subject ''1/34'' ''a.mkv'', [(''parts'', ''1/34''), (''name'', ''a'')]),
      (example_subject ''2/034'' ''a.mkv'', [(''parts'', ''2/034''), (''name'', ''a'')]),
      (example_subject ''3/34'' ''a.mkv'', [(''parts'', ''3/34''), (''name'', ''a'')])] []"

definition store3 :: store where
  "store3 = empty_store\<lparr>tbl_part :=
     [example_part 1 (example_subject ''1/34'' ''a.mkv'') ''g'' ''f'' 100,
      example_part 2 (example_subject ''2/034'' ''a.mkv'') ''g'' ''f'' 101,
      example_part 3 (example_subject ''3/34'' ''a.mkv'') ''g'' ''f'' 102]\<rparr>"

text \<open>
  Two runs of MakeBinaries. A first Part of a file of two parts is in the store
  (\<open>first_post\<close>) and is grouped (\<open>first_grouped\<close>); then the second Part and a repost of
  the first arrive (\<open>second_post\<close>) and are grouped (\<open>regrouped\<close>). Every Part has its one
  Segment. The hash of the text \<open>agf2\<close> is \<open>9c06e4292f5b5ed6\<close>.
\<close>

definition env2 :: env where
  "env2 = example_env
     [(example_subject ''1/2'' ''a.mkv'', [(''parts'', ''1/2''), (''name'', ''a'')]),
      (example_subject ''2/2'' ''a.mkv'', [(''parts'', ''2/2''), (''name'', ''a'')])] []"

definition grouped_binary :: "int \<Rightarrow> int \<Rightarrow> Binary" where
  "grouped_binary i posted =
     \<lparr>Binary_ID = i, Binary_Hash = ''9c06e4292f5b5ed6'', Binary_Name = ''a'',
      Binary_Posted = posted, Binary_From = ''f'', Binary_Group = ''g'', Binary_TotalParts = 2,
      Binary_Parts = []\<rparr>"

definition first_post :: store where
  "first_post =
     \<lparr>tbl_group = [\<lparr>Group_ID = 1, Group_Name = ''g'', Group_Active = True\<rparr>],
      tbl_part = [example_part 1 (example_subject ''1/2'' ''a.mkv'') ''g'' ''f'' 100],
      tbl_segment = [example_segment 1 1],
      tbl_binary = [],
      tbl_release = []\<rparr>"

definition first_grouped :: store where
  "first_grouped =
     \<lparr>tbl_group = [\<lparr>Group_ID = 1, Group_Name = ''g'', Group_Active = True\<rparr>],
      tbl_part = [(example_part 1 (example_subject ''1/2'' ''a.mkv'') ''g'' ''f'' 100)
                    \<lparr>Part_BinaryID := Some 1\<rparr>],
      tbl_segment = [example_segment 1 1],
      tbl_binary = [grouped_binary 1 100],
      tbl_release = []\<rparr>"

definition second_post :: store where
  "second_post =
     first_grouped
       \<lparr>tbl_part := tbl_part first_grouped @
          [example_part 2 (example_subject ''2/2'' ''a.mkv'') ''g'' ''f'' 101,
           example_part 3 (example_subject ''1/2'' ''a.mkv'') ''g'' ''f'' 102],
        tbl_segment := tbl_segment first_grouped @ [example_segment 2 2, example_segment 3 3]\<rparr>"

definition regrouped :: store where
  "regrouped =
     \<lparr>tbl_group = [\<lparr>Group_ID = 1, Group_Name = ''g'', Group_Active = True\<rparr>],
      tbl_part = [(example_part 1 (example_subject ''1/2'' ''a.mkv'') ''g'' ''f'' 100)
                    \<lparr>Part_BinaryID := Some 1\<rparr>,
                  (example_part 2 (example_subject ''2/2'' ''a.mkv'') ''g'' ''f'' 101)
                    \<lparr>Part_BinaryID := Some 2\<rparr>,
                  (example_part 3 (example_subject ''1/2'' ''a.mkv'') ''g'' ''f'' 102)
                    \<lparr>Part_BinaryID := Some 2\<rparr>],
      tbl_segment = [example_segment 1 1, example_segment 2 2, example_segment 3 3],
      tbl_binary = [grouped_binary 1 100, grouped_binary 2 101],
      tbl_release = []\<rparr>"

section \<open>Notions for the statements about MakeReleases\<close>

text \<open>
  The key by which line 314 looks a Release up, for a Release and for a Binary; and the
  store without the rows of the Binaries whose keys are in \<open>P\<close>: without these Binaries,
  without their Parts, and without the Segments of their Parts.
\<close>

definition rkey :: "Release \<Rightarrow> string \<times> int" where
  "rkey r = (Release_Name r, Release_Posted r)"

definition bkey :: "Binary \<Rightarrow> string \<times> int" where
  "bkey b = (Binary_Name b, Binary_Posted b)"

definition without :: "store \<Rightarrow> int set \<Rightarrow> store" where
  "without s P =
     s\<lparr>tbl_part := filter (\<lambda>p. Part_BinaryID p \<notin> Some ` P) (tbl_part s),
       tbl_segment :=
         filter (\<lambda>g. Segment_PartID g \<notin>
                       Part_ID ` {p \<in> set (tbl_part s). Part_BinaryID p \<in> Some ` P})
           (tbl_segment s),
       tbl_binary := filter (\<lambda>x. Binary_ID x \<notin> P) (tbl_binary s)\<rparr>"

text \<open>All the Parts that refer to a Binary, with or without Segments.\<close>

definition parts_of :: "store \<Rightarrow> Binary \<Rightarrow> Part list" where
  "parts_of s b = filter (\<lambda>p. Part_BinaryID p = Some (Binary_ID b)) (tbl_part s)"

text \<open>
  The candidates that a run promotes, \<open>ks\<close> being the names and dates of the Releases in
  the store: a candidate is promoted when no Release and no candidate before it has its
  name and date.
\<close>

fun promoted :: "(string \<times> int) list \<Rightarrow> Binary list \<Rightarrow> Binary list" where
  "promoted ks [] = []"
| "promoted ks (c # cs) =
     (if bkey c \<in> set ks then promoted ks cs else c # promoted (ks @ [bkey c]) cs)"

definition promoted_by :: "store \<Rightarrow> Binary list" where
  "promoted_by s = promoted (map rkey (tbl_release s)) (FindReadyBinaries s)"

section \<open>Notions for the statements about MakeBinaries\<close>

text \<open>
  The name and the total that lines 254 to 266 take from a part; the parts of a list
  with a given hash; the Binary that the loop holds for a hash \<open>h\<close> once the parts \<open>ps\<close>
  (the first of which created it) have been put into it and the store has given it the
  key \<open>i\<close>; and the row of a part after the parts \<open>pre\<close> have been processed.
\<close>

definition nameOf :: "env \<Rightarrow> Part \<Rightarrow> string" where
  "nameOf env p = lookup (subjectMap env p) ''name''"

definition totalOf :: "env \<Rightarrow> Part \<Rightarrow> string" where
  "totalOf env p = (case partcounts env p of Some [idx, tot] \<Rightarrow> tot | _ \<Rightarrow> [])"

definition hits :: "env \<Rightarrow> Part list \<Rightarrow> string \<Rightarrow> Part list" where
  "hits env ps h = filter (\<lambda>p. binhashOf env p = Some h) ps"

definition binaryOf :: "env \<Rightarrow> string \<Rightarrow> Part list \<Rightarrow> int \<Rightarrow> Binary" where
  "binaryOf env h ps i =
     \<lparr>Binary_ID = i, Binary_Hash = h, Binary_Name = nameOf env (hd ps),
      Binary_Posted = Part_Posted (hd ps), Binary_From = Part_From (hd ps),
      Binary_Group = Part_Group (hd ps), Binary_TotalParts = fst (Atoi (totalOf env (hd ps))),
      Binary_Parts = map (\<lambda>p. p\<lparr>Part_BinaryID := Some i\<rparr>) ps\<rparr>"

definition regroup :: "env \<Rightarrow> Part list \<Rightarrow> (string \<rightharpoonup> Binary) \<Rightarrow> Part \<Rightarrow> Part" where
  "regroup env pre bins q =
     (if q \<in> set pre
      then (case binhashOf env q of
              None \<Rightarrow> q
            | Some h \<Rightarrow>
                (case bins h of
                   None \<Rightarrow> q
                 | Some b \<Rightarrow> q\<lparr>Part_BinaryID := Some (Binary_ID b)\<rparr>))
      else q)"

text \<open>
  The state of the loop of MakeBinaries after the parts \<open>pre\<close>, started in the store \<open>s\<close>:
  the map holds one Binary per hash met, built from the parts of that hash in their
  order; the Binary table has got one row for each of them, with keys of their own;
  every part processed and accepted refers to the Binary of its hash.
\<close>

definition grouped ::
  "env \<Rightarrow> store \<Rightarrow> Part list \<Rightarrow> (string \<rightharpoonup> Binary) \<Rightarrow> store \<Rightarrow> bool" where
  "grouped env s pre bins sc \<longleftrightarrow>
     tbl_group sc = tbl_group s \<and> tbl_segment sc = tbl_segment s \<and>
     tbl_release sc = tbl_release s \<and>
     (\<exists>hs. distinct hs \<and> set hs = dom bins \<and>
        tbl_binary sc = tbl_binary s @ map (\<lambda>h. (the (bins h))\<lparr>Binary_Parts := []\<rparr>) hs \<and>
        inj_on (\<lambda>h. Binary_ID (the (bins h))) (set hs) \<and>
        (\<forall>h\<in>set hs. Binary_ID (the (bins h)) \<notin> Binary_ID ` set (tbl_binary s))) \<and>
     (\<forall>h b. bins h = Some b \<longrightarrow>
        hits env pre h \<noteq> [] \<and> Binary_ID b \<noteq> 0 \<and> b = binaryOf env h (hits env pre h) (Binary_ID b)) \<and>
     (\<forall>p\<in>set pre. \<forall>h. binhashOf env p = Some h \<longrightarrow> bins h \<noteq> None) \<and>
     tbl_part sc = map (regroup env pre bins) (tbl_part s)"

section \<open>Facts about Replace and UTF-8\<close>

lemma Replace_skip:
  "old \<noteq> [] \<Longrightarrow> \<forall>b\<in>set xs. b \<noteq> hd old \<Longrightarrow>
   Replace (xs @ rest) old new = xs @ Replace rest old new"
proof (induction xs)
  case Nil
  then show ?case by simp
next
  case (Cons x xs)
  then have "\<not> prefix old (x # xs @ rest)"
    by (cases old) auto
  with Cons show ?case by simp
qed

lemma Replace_hit:
  "old \<noteq> [] \<Longrightarrow> Replace (old @ rest) old new = new @ Replace rest old new"
  by (cases old) auto

lemma utf8_ubytes: "utf8 r = map char_of (ubytes r)"
  by (simp add: utf8_def ubytes_def)

lemma ubytes_lt: "r < 0x110000 \<Longrightarrow> b \<in> set (ubytes r) \<Longrightarrow> b < 256"
  unfolding ubytes_def by (auto split: if_splits)

lemma ubytes_hd2:
  "d < 0x800 \<Longrightarrow> r < 0x110000 \<Longrightarrow> hd (ubytes d) = hd (ubytes r) \<Longrightarrow>
   (r < 0x80 \<longleftrightarrow> d < 0x80) \<and> r < 0x800"
  unfolding ubytes_def by (auto split: if_splits)

lemma ubytes_prefix:
  assumes "d < 0x800" "r < 0x110000" "prefix (ubytes d) (ubytes r @ rest)"
  shows "r = d"
proof -
  from assms(3) have h: "hd (ubytes d) = hd (ubytes r)"
    by (auto simp: ubytes_def prefix_def split: if_splits)
  from ubytes_hd2 [OF assms(1,2) h] have c: "(r < 0x80 \<longleftrightarrow> d < 0x80)" "r < 0x800" by auto
  show ?thesis
  proof (cases "d < 0x80")
    case True
    with c assms(3) show ?thesis by (simp add: ubytes_def)
  next
    case False
    with c assms have "0xC0 + d div 64 = 0xC0 + r div 64" "0x80 + d mod 64 = 0x80 + r mod 64"
      by (simp_all add: ubytes_def)
    then have "d div 64 = r div 64" "d mod 64 = r mod 64" by simp_all
    then show ?thesis by (metis div_mult_mod_eq)
  qed
qed

lemma ubytes_cont: "b \<in> set (tl (ubytes r)) \<Longrightarrow> 0x80 \<le> b \<and> b < 0xC0"
  unfolding ubytes_def by (auto split: if_splits)

lemma ubytes_lead: "d < 0x800 \<Longrightarrow> hd (ubytes d) < 0x80 \<or> 0xC0 \<le> hd (ubytes d)"
  unfolding ubytes_def by auto

lemma ubytes_ne: "ubytes r \<noteq> []"
  unfolding ubytes_def by auto

lemma map_of_char_char_of:
  "\<forall>b\<in>set xs. b < (256::nat) \<Longrightarrow> map of_char (map char_of xs) = xs"
  by (induction xs) auto

lemma prefix_map_char_of:
  assumes "\<forall>b\<in>set xs. b < (256::nat)" "\<forall>b\<in>set ys. b < (256::nat)"
    and "prefix (map char_of xs) (map char_of ys @ rest)"
  shows "prefix xs (ys @ map of_char rest)"
proof -
  from assms(3)
  have "prefix (map of_char (map char_of xs) :: nat list) (map of_char (map char_of ys @ rest))"
    by (rule map_mono_prefix)
  then have "prefix (map of_char (map char_of xs) :: nat list)
      (map of_char (map char_of ys) @ map of_char rest)"
    by simp
  then show ?thesis
    using map_of_char_char_of [OF assms(1)] map_of_char_char_of [OF assms(2)] by simp
qed

text \<open>
  A character that is not the pattern's is copied whole: the pattern cannot start at its
  first byte (UTF-8 is prefix-free) nor at one of its continuation bytes.
\<close>

lemma utf8_miss:
  assumes "r < 0x110000" "d < 0x800" "r \<noteq> d"
  shows "Replace (utf8 r @ rest) (utf8 d) new = utf8 r @ Replace rest (utf8 d) new"
proof -
  have ne: "utf8 d \<noteq> []" by (simp add: utf8_ubytes ubytes_ne)
  obtain c cs where cs: "utf8 r = c # cs"
    using ubytes_ne [of r] by (cases "utf8 r") (auto simp: utf8_ubytes)
  have np: "\<not> prefix (utf8 d) (utf8 r @ rest)"
  proof
    assume "prefix (utf8 d) (utf8 r @ rest)"
    then have "prefix (ubytes d) (ubytes r @ map of_char rest)"
      unfolding utf8_ubytes using assms ubytes_lt [of d] ubytes_lt [of r]
      by (intro prefix_map_char_of) auto
    with ubytes_prefix assms show False by blast
  qed
  have skip: "\<forall>b\<in>set cs. b \<noteq> hd (utf8 d)"
  proof
    fix b assume "b \<in> set cs"
    with cs have "b \<in> set (tl (utf8 r))" by simp
    then obtain n where n: "b = char_of n" "n \<in> set (tl (ubytes r))"
      by (auto simp: utf8_ubytes map_tl [symmetric])
    from ubytes_cont [OF n(2)] have nb: "0x80 \<le> n" "n < 0xC0" by auto
    have hd: "hd (utf8 d) = char_of (hd (ubytes d))"
      using ubytes_ne [of d] by (simp add: utf8_ubytes hd_map)
    have "hd (ubytes d) < 256"
      using ubytes_lt [of d "hd (ubytes d)"] ubytes_ne [of d] assms by simp
    with ubytes_lead [OF assms(2)] nb show "b \<noteq> hd (utf8 d)"
      unfolding hd n by auto
  qed
  from np cs have "Replace (utf8 r @ rest) (utf8 d) new = c # Replace (cs @ rest) (utf8 d) new"
    by simp
  also have "\<dots> = c # cs @ Replace rest (utf8 d) new"
    using Replace_skip [OF ne skip] by simp
  finally show ?thesis by (simp add: cs)
qed

lemma Replace_utf8:
  assumes "d < 0x800" "\<forall>r\<in>set rs. r < 0x110000"
  shows "Replace (concat (map utf8 rs)) (utf8 d) new =
         concat (map (\<lambda>r. if r = d then new else utf8 r) rs)"
  using assms(2)
proof (induction rs)
  case Nil
  then show ?case by simp
next
  case (Cons r rs)
  have ne: "utf8 d \<noteq> []" by (simp add: utf8_ubytes ubytes_ne)
  show ?case
  proof (cases "r = d")
    case True
    with Cons Replace_hit [OF ne] show ?thesis by simp
  next
    case False
    with Cons utf8_miss [of r d] assms(1) show ?thesis by simp
  qed
qed

section \<open>Facts about the store calls\<close>

lemma fold_max_ge: "a \<le> fold max ids (a::int)"
  by (induction ids arbitrary: a) (auto intro: order_trans [OF max.cobounded2])

lemma fold_max_mem: "x \<in> set ids \<Longrightarrow> x \<le> fold max ids (a::int)"
proof (induction ids arbitrary: a)
  case Nil then show ?case by simp
next
  case (Cons y ys)
  show ?case
  proof (cases "x = y")
    case True
    have "x \<le> max y a" using True by simp
    also have "\<dots> \<le> fold max ys (max y a)" by (rule fold_max_ge)
    finally show ?thesis by simp
  next
    case False
    with Cons show ?thesis by simp
  qed
qed

lemma nextID_fresh: "nextID ids \<notin> set ids"
  using fold_max_mem [of "nextID ids" ids 0] by (auto simp: nextID_def)

lemma nextID_pos: "0 < nextID ids"
  using fold_max_ge [of 0 ids] by (simp add: nextID_def)

lemma upsert_new: "key row \<notin> key ` set rows \<Longrightarrow> upsert key row rows = rows @ [row]"
  by (simp add: upsert_def)

lemma upsert_old:
  "key row \<in> key ` set rows \<Longrightarrow> upsert key row rows = map (\<lambda>r. if key r = key row then row else r) rows"
  by (simp add: upsert_def)

text \<open>Saving a new Binary holding the one part p, which is a row of the part table.\<close>

lemma Save_Binary_new:
  assumes "Binary_ID b = 0" "Binary_Parts b = [p]" "p \<in> set (tbl_part s)"
  shows "Save_Binary s b =
     (b\<lparr>Binary_ID := nextID (map Binary_ID (tbl_binary s)),
        Binary_Parts := [p\<lparr>Part_BinaryID := Some (nextID (map Binary_ID (tbl_binary s)))\<rparr>]\<rparr>,
      s\<lparr>tbl_binary := tbl_binary s @ [b\<lparr>Binary_ID := nextID (map Binary_ID (tbl_binary s)), Binary_Parts := []\<rparr>],
        tbl_part := map (\<lambda>r. if Part_ID r = Part_ID p
                              then p\<lparr>Part_BinaryID := Some (nextID (map Binary_ID (tbl_binary s)))\<rparr> else r)
                     (tbl_part s)\<rparr>)"
proof -
  let ?n = "nextID (map Binary_ID (tbl_binary s))"
  have "?n \<notin> Binary_ID ` set (tbl_binary s)" using nextID_fresh [of "map Binary_ID (tbl_binary s)"] by simp
  then have 1: "upsert Binary_ID (b\<lparr>Binary_ID := ?n, Binary_Parts := []\<rparr>) (tbl_binary s) =
      tbl_binary s @ [b\<lparr>Binary_ID := ?n, Binary_Parts := []\<rparr>]"
    by (simp add: upsert_new)
  have 2: "upsert Part_ID (p\<lparr>Part_BinaryID := Some ?n\<rparr>) (tbl_part s) =
      map (\<lambda>r. if Part_ID r = Part_ID p then p\<lparr>Part_BinaryID := Some ?n\<rparr> else r) (tbl_part s)"
    using imageI [OF assms(3), of Part_ID] by (simp add: upsert_def)
  show ?thesis using assms(1,2) 1 2 by (simp add: Save_Binary_def Let_def)
qed


lemma groupPart_new:
  assumes pc: "partcounts env p = Some [idx, tot]"
    and h: "h = makeBinaryHash (lookup (subjectMap env p) ''name'') (Part_Group p) (Part_From p) tot"
    and new: "binaries h = None"
    and ok: "\<not> db_fails env L269 (Part_ID p)"
    and mem: "p \<in> set (tbl_part s)"
    and n: "n = nextID (map Binary_ID (tbl_binary s))"
    and b: "b = \<lparr>Binary_ID = n, Binary_Hash = h, Binary_Name = lookup (subjectMap env p) ''name'',
           Binary_Posted = Part_Posted p, Binary_From = Part_From p,
           Binary_Group = Part_Group p, Binary_TotalParts = fst (Atoi tot),
           Binary_Parts = []\<rparr>"
  shows "groupPart env p (binaries, s) =
     (Nil, binaries(h \<mapsto> b\<lparr>Binary_Parts := [p\<lparr>Part_BinaryID := Some n\<rparr>]\<rparr>),
      s\<lparr>tbl_binary := tbl_binary s @ [b],
        tbl_part := map (\<lambda>r. if Part_ID r = Part_ID p then p\<lparr>Part_BinaryID := Some n\<rparr> else r)
                     (tbl_part s)\<rparr>)"
proof -
  let ?bin = "binaryFor binaries h (lookup (subjectMap env p) ''name'') tot p"
  have bin: "?bin = b\<lparr>Binary_ID := 0, Binary_Parts := [p]\<rparr>"
    using new by (simp add: binaryFor_def b)
  have "Save_Binary s ?bin =
     (b\<lparr>Binary_Parts := [p\<lparr>Part_BinaryID := Some n\<rparr>]\<rparr>,
      s\<lparr>tbl_binary := tbl_binary s @ [b],
        tbl_part := map (\<lambda>r. if Part_ID r = Part_ID p then p\<lparr>Part_BinaryID := Some n\<rparr> else r)
                     (tbl_part s)\<rparr>)"
    unfolding bin using Save_Binary_new [of "b\<lparr>Binary_ID := 0, Binary_Parts := [p]\<rparr>" p s] mem
    by (simp add: n b)
  then show ?thesis
    using pc ok by (simp add: groupPart_def Let_def h [symmetric])
qed

section \<open>Facts about MakeReleases\<close>

lemma fold_least_mem:
  "fold (\<lambda>x m. if key x < key m then x else m) rs r \<in> set (r # rs)"
  by (induction rs arbitrary: r) (auto split: if_splits)

lemma First_None: "First key rows = None \<longleftrightarrow> rows = []"
  by (simp add: First_def split: list.splits)

lemma First_Some_mem: "First key rows = Some r \<Longrightarrow> r \<in> set rows"
  using fold_least_mem [of key] by (auto simp: First_def split: list.splits simp del: set_ConsD)

lemma dbrel_ID_nonzero:
  assumes "0 \<notin> set (map Release_ID (tbl_release s))"
  shows "dbrel_ID s b \<noteq> 0 \<longleftrightarrow>
     (\<exists>r\<in>set (tbl_release s). Release_Name r = Binary_Name b \<and> Release_Posted r = Binary_Posted b)"
proof (cases "First Release_ID
             (filter (\<lambda>r. Release_Name r = Binary_Name b \<and> Release_Posted r = Binary_Posted b)
                (tbl_release s))")
  case None
  then have "filter (\<lambda>r. Release_Name r = Binary_Name b \<and> Release_Posted r = Binary_Posted b)
                (tbl_release s) = []" by (simp add: First_None)
  then have "\<not> (\<exists>r\<in>set (tbl_release s). Release_Name r = Binary_Name b \<and> Release_Posted r = Binary_Posted b)"
    by (simp add: filter_empty_conv)
  with None show ?thesis by (simp add: dbrel_ID_def)
next
  case (Some r)
  from First_Some_mem [OF Some] have r: "r \<in> set (tbl_release s)"
    "Release_Name r = Binary_Name b" "Release_Posted r = Binary_Posted b" by auto
  with assms have "Release_ID r \<noteq> 0" by (metis image_eqI list.set_map)
  with r Some show ?thesis by (auto simp: dbrel_ID_def)
qed

text \<open>The store after the transaction of one Binary has committed.\<close>

lemma transaction_ok:
  assumes "\<not> db_fails env L356 (Binary_ID dbbin)" "\<not> db_fails env L365 (Binary_ID dbbin)"
    "\<not> db_fails env L371 (Binary_ID dbbin)" "\<not> db_fails env L377 (Binary_ID dbbin)"
  shows "transaction env s dbbin newrel =
     (Nil, s\<lparr>tbl_release := tbl_release s @
                 [newrel\<lparr>Release_ID := nextID (map Release_ID (tbl_release s))\<rparr>],
             tbl_part := filter (\<lambda>p. Part_BinaryID p \<noteq> Some (Binary_ID dbbin)) (tbl_part s),
             tbl_segment := filter (\<lambda>g. Segment_PartID g \<notin> set (map Part_ID (Binary_Parts dbbin)))
                              (tbl_segment s),
             tbl_binary := filter (\<lambda>x. Binary_ID x \<noteq> Binary_ID dbbin) (tbl_binary s)\<rparr>)"
  using assms by (simp add: transaction_def Let_def)

lemma transaction_fails:
  assumes "db_fails env L356 (Binary_ID dbbin) \<or> db_fails env L365 (Binary_ID dbbin) \<or>
    db_fails env L371 (Binary_ID dbbin) \<or> db_fails env L377 (Binary_ID dbbin)"
  shows "transaction env s dbbin newrel = (Err DBFailure, s)"
  using assms by (auto simp: transaction_def Let_def)

lemma transaction_unchanged:
  "transaction env s dbbin newrel = (r, s') \<Longrightarrow> r \<noteq> Nil \<Longrightarrow> s' = s"
  by (auto simp: transaction_def Let_def split: if_splits)

lemma promote_unchanged:
  "promote env s b = (r, s') \<Longrightarrow> r \<noteq> Nil \<Longrightarrow> s' = s"
  by (auto simp: promote_def Let_def split: if_splits option.splits sum.splits
      dest: transaction_unchanged)

lemma Preload_ID [simp]: "Binary_ID (Preload s row) = Binary_ID row"
  by (simp add: Preload_def)

lemma Preload_partids:
  "set (map Part_ID (Binary_Parts (Preload s row))) =
     Part_ID ` {p \<in> set (tbl_part s). Part_BinaryID p = Some (Binary_ID row)}"
  by (auto simp: Preload_def)

lemma two_ready_candidates:
  "FindReadyBinaries two_ready =
     [scanned (example_binary 1 ''My.Show'' 6 1), scanned (example_binary 2 ''Other-Show'' 5 1)]"
  by (simp add: FindReadyBinaries_def two_ready_def having_def part_rows_def
      available_segments_def example_part_def example_segment_def example_binary_def
      sql_div_def scanned_def)

lemmas example_defs =
  two_ready_def example_part_def example_segment_def example_binary_def example_env_def
  scanned_def empty_store_def

lemmas env_defs = failing_at_def nzb_failing_def

lemmas promote_defs =
  promote_def dbrel_ID_def First_def Preload_def FindGroupByName_def transaction_def Size_def
  nextID_def Let_def

lemma promote_reaches_transaction:
  assumes "\<not> db_fails env L314 (Binary_ID b)" and "dbrel_ID s b = 0"
    and "\<not> db_fails env L325 (Binary_ID b)"
    and "First Binary_ID (filter (\<lambda>x. Binary_ID x = Binary_ID b) (tbl_binary s)) = Some row"
    and "WriteNZB env (Preload s row) = Inr nzbstr"
    and "FindGroupByName env s (Binary_Group b) = Inr g"
  shows "promote env s b =
     transaction env s (Preload s row)
       \<lparr>Release_ID = 0, Release_Name = Binary_Name b, Release_OriginalName = Binary_Name b,
        Release_SearchName = cleanReleaseName (Binary_Name b), Release_Posted = Binary_Posted b,
        Release_From = Binary_From b, Release_Group = g, Release_Size = Size (Preload s row),
        Release_NZB = nzbstr\<rparr>"
  using assms by (simp add: promote_def Let_def)

lemma First_filter_ID:
  "First Binary_ID (filter (\<lambda>x. Binary_ID x = i) rows) = Some row \<Longrightarrow> Binary_ID row = i"
  by (auto dest: First_Some_mem)

lemma MakeReleases_loop_append:
  "MakeReleases_loop env s (xs @ ys) =
     (case MakeReleases_loop env s xs of
        (Nil, s1) \<Rightarrow> MakeReleases_loop env s1 ys
      | r \<Rightarrow> r)"
  by (induction xs arbitrary: s) (auto split: prod.splits status.splits)


lemma sql_div_threshold:
  assumes "0 \<le> a"
  shows "(case sql_div a b of None \<Rightarrow> False | Some q \<Rightarrow> 100 \<le> q * 100) \<longleftrightarrow> 0 < b \<and> b \<le> a"
proof -
  consider "b = 0" | "0 < b" | "b < 0" by linarith
  then show ?thesis
  proof cases
    case 1
    then show ?thesis by (simp add: sql_div_def)
  next
    case 2
    have abs: "\<bar>a\<bar> = a" "\<bar>b\<bar> = b" "sgn b = 1" using assms 2 by simp_all
    have e: "sgn a * sgn b * (\<bar>a\<bar> div \<bar>b\<bar>) = a div b"
    proof (cases "a = 0")
      case True
      then show ?thesis by simp
    next
      case False
      with assms have "sgn a = 1" by simp
      then show ?thesis by (simp add: abs)
    qed
    have "1 \<le> a div b \<longleftrightarrow> b \<le> a"
      using pos_imp_zdiv_pos_iff [OF 2, of a] by linarith
    with 2 show ?thesis unfolding sql_div_def e by simp
  next
    case 3
    have "0 \<le> a div \<bar>b\<bar>" using assms 3 by (simp add: pos_imp_zdiv_nonneg_iff)
    then have "sgn a * (a div \<bar>b\<bar>) \<ge> 0" using assms by (simp add: sgn_if)
    then have "\<not> 100 \<le> (sgn a * sgn b * (\<bar>a\<bar> div \<bar>b\<bar>)) * 100"
      using 3 assms by (simp add: sgn_if split: if_splits)
    with 3 show ?thesis by (simp add: sql_div_def)
  qed
qed

lemma available_nonneg: "0 \<le> sum_list (map (available_segments s) ps)"
  by (induction ps) (auto simp: available_segments_def)

lemma having_iff:
  "having s b \<longleftrightarrow>
     Binary_TotalParts b \<le> int (length (part_rows s b)) \<and>
     0 < sum_list (map Part_TotalSegments (part_rows s b)) \<and>
     sum_list (map Part_TotalSegments (part_rows s b))
       \<le> sum_list (map (available_segments s) (part_rows s b))"
proof -
  have "part_rows s b = [] \<Longrightarrow> \<not> 0 < sum_list (map Part_TotalSegments (part_rows s b))"
    by simp
  then show ?thesis
    unfolding having_def sql_div_threshold [OF available_nonneg] by blast
qed

lemma scanned_ID [simp]: "Binary_ID (scanned b) = Binary_ID b"
  by (simp add: scanned_def)

lemma set_FindReadyBinaries:
  "set (FindReadyBinaries s) = scanned ` {b \<in> set (tbl_binary s). having s b}"
  by (auto simp: FindReadyBinaries_def)

lemma returned_iff:
  assumes "distinct (map Binary_ID (tbl_binary s))" "b \<in> set (tbl_binary s)"
  shows "scanned b \<in> set (FindReadyBinaries s) \<longleftrightarrow> having s b"
proof
  assume "scanned b \<in> set (FindReadyBinaries s)"
  then obtain b' where b': "b' \<in> set (tbl_binary s)" "having s b'" "scanned b' = scanned b"
    by (auto simp: set_FindReadyBinaries)
  then have "Binary_ID b' = Binary_ID b" by (metis scanned_ID)
  with assms b'(1) have "b' = b" by (meson distinct_map inj_onD)
  with b'(2) show "having s b" by simp
next
  assume "having s b"
  with assms(2) show "scanned b \<in> set (FindReadyBinaries s)"
    by (auto simp: set_FindReadyBinaries)
qed

lemma sum_list_strict:
  assumes "\<forall>p\<in>set ps. f p \<le> (g p :: int)" "\<exists>p\<in>set ps. f p < g p"
  shows "sum_list (map f ps) < sum_list (map g ps)"
  using assms
proof (induction ps)
  case Nil
  then show ?case by simp
next
  case (Cons p ps)
  have le: "sum_list (map f ps) \<le> sum_list (map g ps)"
    using Cons.prems(1) by (intro sum_list_mono) simp
  show ?case
  proof (cases "f p < g p")
    case True
    with le show ?thesis by simp
  next
    case False
    with Cons.prems have "\<exists>p\<in>set ps. f p < g p" "f p \<le> g p" by auto
    with Cons.IH Cons.prems(1) show ?thesis by simp
  qed
qed

lemma without_empty [simp]: "without s {} = s"
  by (simp add: without_def)

lemma without_release [simp]:
  "without (s\<lparr>tbl_release := X\<rparr>) P = (without s P)\<lparr>tbl_release := X\<rparr>"
  "tbl_release (without s P) = tbl_release s"
  "tbl_group (without s P) = tbl_group s"
  by (simp_all add: without_def)

lemma without_without: "without (without s P) Q = without s (P \<union> Q)"
proof -
  have p: "filter (\<lambda>x. Part_BinaryID x \<notin> Some ` P \<and> Part_BinaryID x \<notin> Some ` Q) (tbl_part s) =
      filter (\<lambda>p. Part_BinaryID p \<notin> Some ` (P \<union> Q)) (tbl_part s)"
    by (rule filter_cong) auto
  have g: "filter (\<lambda>x. Segment_PartID x \<notin> Part_ID ` {p \<in> set (tbl_part s). Part_BinaryID p \<in> Some ` P} \<and>
                 Segment_PartID x \<notin> Part_ID ` {p \<in> set (tbl_part s).
                    Part_BinaryID p \<notin> Some ` P \<and> Part_BinaryID p \<in> Some ` Q})
            (tbl_segment s) =
      filter (\<lambda>g. Segment_PartID g \<notin> Part_ID ` {p \<in> set (tbl_part s). Part_BinaryID p \<in> Some ` (P \<union> Q)})
            (tbl_segment s)"
    by (rule filter_cong) auto
  show ?thesis
    unfolding without_def by (simp add: p g)
qed

lemma Preload_partids_image:
  "Part_ID ` set (Binary_Parts (Preload s row)) =
     Part_ID ` {p \<in> set (tbl_part s). Part_BinaryID p = Some (Binary_ID row)}"
  using Preload_partids [of s row] by simp

lemma promote_Nil_cases:
  assumes "promote env s b = (Nil, s')"
  shows "\<not> db_fails env L314 (Binary_ID b) \<and>
    ((dbrel_ID s b \<noteq> 0 \<and> s' = s) \<or>
     (dbrel_ID s b = 0 \<and>
      (\<exists>rel. rkey rel = bkey b \<and> Release_ID rel = nextID (map Release_ID (tbl_release s)) \<and>
             s' = (without s {Binary_ID b})\<lparr>tbl_release := tbl_release s @ [rel]\<rparr>)))"
proof -
  from assms have ok: "\<not> db_fails env L314 (Binary_ID b)"
    by (auto simp: promote_def split: if_splits)
  show ?thesis
  proof (cases "dbrel_ID s b = 0")
    case False
    with assms ok show ?thesis by (simp add: promote_def)
  next
    case True
    from assms ok True obtain row nzbstr g where
      row: "First Binary_ID (filter (\<lambda>x. Binary_ID x = Binary_ID b) (tbl_binary s)) = Some row"
      and nzb: "WriteNZB env (Preload s row) = Inr nzbstr"
      and grp: "FindGroupByName env s (Binary_Group b) = Inr g"
      and l325: "\<not> db_fails env L325 (Binary_ID b)"
      by (auto simp: promote_def Let_def split: if_splits option.splits sum.splits)
    define rel0 where "rel0 = \<lparr>Release_ID = 0, Release_Name = Binary_Name b, Release_OriginalName = Binary_Name b,
        Release_SearchName = cleanReleaseName (Binary_Name b), Release_Posted = Binary_Posted b,
        Release_From = Binary_From b, Release_Group = g, Release_Size = Size (Preload s row),
        Release_NZB = nzbstr\<rparr>"
    have run: "promote env s b = transaction env s (Preload s row) rel0"
      unfolding rel0_def by (rule promote_reaches_transaction [OF ok True l325 row nzb grp])
    have id: "Binary_ID row = Binary_ID b" using row by (rule First_filter_ID)
    from assms run have t: "transaction env s (Preload s row) rel0 = (Nil, s')" by simp
    then have nf: "\<not> db_fails env L356 (Binary_ID (Preload s row))"
        "\<not> db_fails env L365 (Binary_ID (Preload s row))"
        "\<not> db_fails env L371 (Binary_ID (Preload s row))"
        "\<not> db_fails env L377 (Binary_ID (Preload s row))"
      by (auto simp: transaction_def Let_def split: if_splits)
    define rel where "rel = rel0\<lparr>Release_ID := nextID (map Release_ID (tbl_release s))\<rparr>"
    have "s' = (without s {Binary_ID b})\<lparr>tbl_release := tbl_release s @ [rel]\<rparr>"
      using t unfolding transaction_ok [OF nf] rel_def
      by (auto simp: without_def id Preload_partids_image)
    moreover have "rkey rel = bkey b" "Release_ID rel = nextID (map Release_ID (tbl_release s))"
      by (simp_all add: rel_def rel0_def rkey_def bkey_def)
    ultimately show ?thesis using ok True by blast
  qed
qed

lemma dbrel_ID_key:
  assumes "0 \<notin> Release_ID ` set (tbl_release s)"
  shows "dbrel_ID s b \<noteq> 0 \<longleftrightarrow> bkey b \<in> rkey ` set (tbl_release s)"
proof -
  from assms have "0 \<notin> set (map Release_ID (tbl_release s))" by simp
  from dbrel_ID_nonzero [OF this, of b] show ?thesis
    by (force simp: rkey_def bkey_def image_iff)
qed

lemma loop_effect:
  assumes "MakeReleases_loop env s cs = (Nil, s1)"
    and "0 \<notin> Release_ID ` set (tbl_release s)"
    and "distinct (map Binary_ID cs)"
  shows "\<exists>P new. P \<subseteq> Binary_ID ` set cs \<and>
      s1 = (without s P)\<lparr>tbl_release := tbl_release s @ new\<rparr> \<and>
      0 \<notin> Release_ID ` set new \<and> distinct (map rkey new) \<and>
      rkey ` set new \<inter> rkey ` set (tbl_release s) = {} \<and>
      (\<forall>c\<in>set cs. \<not> db_fails env L314 (Binary_ID c) \<and>
          (if Binary_ID c \<in> P then bkey c \<in> rkey ` set new
           else bkey c \<in> rkey ` set (tbl_release s) \<union> rkey ` set new))"
  using assms
proof (induction cs arbitrary: s)
  case Nil
  then have "s1 = (without s {})\<lparr>tbl_release := tbl_release s @ []\<rparr>" by simp
  then show ?case by (intro exI [of _ "{}"] exI [of _ "[]"]) simp
next
  case (Cons c cs)
  obtain r s' where p: "promote env s c = (r, s')" by (cases "promote env s c")
  with Cons.prems(1) have r: "r = Nil" by (cases r) auto
  with p Cons.prems(1) have loop: "MakeReleases_loop env s' cs = (Nil, s1)" by simp
  from Cons.prems(3) have dist: "distinct (map Binary_ID cs)" and cnew: "Binary_ID c \<notin> Binary_ID ` set cs"
    by simp_all
  from promote_Nil_cases [OF p [unfolded r]] have ok: "\<not> db_fails env L314 (Binary_ID c)"
    and cases: "(dbrel_ID s c \<noteq> 0 \<and> s' = s) \<or>
     (dbrel_ID s c = 0 \<and>
      (\<exists>rel. rkey rel = bkey c \<and> Release_ID rel = nextID (map Release_ID (tbl_release s)) \<and>
             s' = (without s {Binary_ID c})\<lparr>tbl_release := tbl_release s @ [rel]\<rparr>))"
    by simp_all
  from cases show ?case
  proof
    assume skip: "dbrel_ID s c \<noteq> 0 \<and> s' = s"
    then have key: "bkey c \<in> rkey ` set (tbl_release s)"
      using dbrel_ID_key [OF Cons.prems(2), of c] by blast
    from Cons.IH [OF loop [unfolded conjunct2 [OF skip]] Cons.prems(2) dist]
    obtain P new where IH: "P \<subseteq> Binary_ID ` set cs"
      "s1 = (without s P)\<lparr>tbl_release := tbl_release s @ new\<rparr>"
      "0 \<notin> Release_ID ` set new" "distinct (map rkey new)"
      "rkey ` set new \<inter> rkey ` set (tbl_release s) = {}"
      "\<forall>c\<in>set cs. \<not> db_fails env L314 (Binary_ID c) \<and>
          (if Binary_ID c \<in> P then bkey c \<in> rkey ` set new
           else bkey c \<in> rkey ` set (tbl_release s) \<union> rkey ` set new)"
      by blast
    from IH(1) cnew have "Binary_ID c \<notin> P" by blast
    with IH ok key have "P \<subseteq> Binary_ID ` set (c # cs) \<and>
      s1 = (without s P)\<lparr>tbl_release := tbl_release s @ new\<rparr> \<and>
      0 \<notin> Release_ID ` set new \<and> distinct (map rkey new) \<and>
      rkey ` set new \<inter> rkey ` set (tbl_release s) = {} \<and>
      (\<forall>c\<in>set (c # cs). \<not> db_fails env L314 (Binary_ID c) \<and>
          (if Binary_ID c \<in> P then bkey c \<in> rkey ` set new
           else bkey c \<in> rkey ` set (tbl_release s) \<union> rkey ` set new))"
      by auto
    then show ?thesis by blast
  next
    assume "dbrel_ID s c = 0 \<and>
      (\<exists>rel. rkey rel = bkey c \<and> Release_ID rel = nextID (map Release_ID (tbl_release s)) \<and>
             s' = (without s {Binary_ID c})\<lparr>tbl_release := tbl_release s @ [rel]\<rparr>)"
    then obtain rel where z: "dbrel_ID s c = 0" and rel: "rkey rel = bkey c"
      "Release_ID rel = nextID (map Release_ID (tbl_release s))"
      and s': "s' = (without s {Binary_ID c})\<lparr>tbl_release := tbl_release s @ [rel]\<rparr>"
      by blast
    from z have fresh: "bkey c \<notin> rkey ` set (tbl_release s)"
      using dbrel_ID_key [OF Cons.prems(2), of c] by blast
    have relid: "Release_ID rel \<noteq> 0" using nextID_pos [of "map Release_ID (tbl_release s)"] rel(2) by simp
    have tr: "tbl_release s' = tbl_release s @ [rel]" by (simp add: s')
    have nz: "0 \<notin> Release_ID ` set (tbl_release s')"
      using Cons.prems(2) relid by (auto simp: tr)
    from Cons.IH [OF loop nz dist]
    obtain P new where IH: "P \<subseteq> Binary_ID ` set cs"
      "s1 = (without s' P)\<lparr>tbl_release := tbl_release s' @ new\<rparr>"
      "0 \<notin> Release_ID ` set new" "distinct (map rkey new)"
      "rkey ` set new \<inter> rkey ` set (tbl_release s') = {}"
      "\<forall>c\<in>set cs. \<not> db_fails env L314 (Binary_ID c) \<and>
          (if Binary_ID c \<in> P then bkey c \<in> rkey ` set new
           else bkey c \<in> rkey ` set (tbl_release s') \<union> rkey ` set new)"
      by blast
    let ?P = "{Binary_ID c} \<union> P" and ?new = "rel # new"
    have 1: "?P \<subseteq> Binary_ID ` set (c # cs)" using IH(1) by auto
    have 2: "s1 = (without s ?P)\<lparr>tbl_release := tbl_release s @ ?new\<rparr>"
      unfolding IH(2) s' by (simp add: without_without)
    have 3: "0 \<notin> Release_ID ` set ?new" using IH(3) relid by auto
    have notin: "rkey rel \<notin> rkey ` set new" using IH(5) by (auto simp: tr)
    have 4: "distinct (map rkey ?new)" using IH(4) notin by simp
    have 5: "rkey ` set ?new \<inter> rkey ` set (tbl_release s) = {}"
      using IH(5) fresh rel(1) by (auto simp: tr)
    have 6: "\<forall>x\<in>set (c # cs). \<not> db_fails env L314 (Binary_ID x) \<and>
          (if Binary_ID x \<in> ?P then bkey x \<in> rkey ` set ?new
           else bkey x \<in> rkey ` set (tbl_release s) \<union> rkey ` set ?new)"
    proof
      fix x assume x: "x \<in> set (c # cs)"
      show "\<not> db_fails env L314 (Binary_ID x) \<and>
          (if Binary_ID x \<in> ?P then bkey x \<in> rkey ` set ?new
           else bkey x \<in> rkey ` set (tbl_release s) \<union> rkey ` set ?new)"
      proof (cases "x = c")
        case True
        with ok rel(1) show ?thesis by simp
      next
        case False
        with x have xs: "x \<in> set cs" by simp
        with cnew have ne: "Binary_ID x \<noteq> Binary_ID c" by (metis imageI)
        from IH(6) xs have "\<not> db_fails env L314 (Binary_ID x)"
          "if Binary_ID x \<in> P then bkey x \<in> rkey ` set new
           else bkey x \<in> rkey ` set (tbl_release s') \<union> rkey ` set new" by auto
        with ne show ?thesis by (auto simp: tr split: if_splits)
      qed
    qed
    from 1 2 3 4 5 6 show ?thesis by blast
  qed
qed

lemma available_without:
  assumes "distinct (map Part_ID (tbl_part s))" "p \<in> set (tbl_part s)"
    "Part_BinaryID p \<notin> Some ` P"
  shows "available_segments ((without s P)\<lparr>tbl_release := X\<rparr>) p = available_segments s p"
proof -
  define PID where "PID = Part_ID ` {q \<in> set (tbl_part s). Part_BinaryID q \<in> Some ` P}"
  have n: "Part_ID p \<notin> PID"
  proof
    assume "Part_ID p \<in> PID"
    then obtain q where q: "q \<in> set (tbl_part s)" "Part_BinaryID q \<in> Some ` P" "Part_ID p = Part_ID q"
      unfolding PID_def by auto
    with assms(1,2) have "p = q" by (meson distinct_map inj_onD)
    with q assms(3) show False by simp
  qed
  have "filter (\<lambda>g. Segment_PartID g = Part_ID p)
        (filter (\<lambda>g. Segment_PartID g \<notin> PID) (tbl_segment s)) =
      filter (\<lambda>g. Segment_PartID g = Part_ID p) (tbl_segment s)"
    unfolding filter_filter using n by (intro filter_cong) auto
  then show ?thesis by (simp add: available_segments_def without_def PID_def)
qed

lemma part_rows_without:
  assumes "distinct (map Part_ID (tbl_part s))" "Binary_ID b \<notin> P"
  shows "part_rows ((without s P)\<lparr>tbl_release := X\<rparr>) b = part_rows s b"
proof -
  let ?s' = "(without s P)\<lparr>tbl_release := X\<rparr>"
  have "filter (\<lambda>p. Part_BinaryID p = Some (Binary_ID b) \<and> 0 < available_segments ?s' p)
          (filter (\<lambda>p. Part_BinaryID p \<notin> Some ` P) (tbl_part s)) =
        filter (\<lambda>p. Part_BinaryID p = Some (Binary_ID b) \<and> 0 < available_segments s p) (tbl_part s)"
    unfolding filter_filter
  proof (intro filter_cong refl)
    fix p assume p: "p \<in> set (tbl_part s)"
    show "(Part_BinaryID p \<notin> Some ` P \<and> Part_BinaryID p = Some (Binary_ID b) \<and> 0 < available_segments ?s' p)
        = (Part_BinaryID p = Some (Binary_ID b) \<and> 0 < available_segments s p)"
    proof (cases "Part_BinaryID p = Some (Binary_ID b)")
      case True
      with assms(2) have n: "Part_BinaryID p \<notin> Some ` P" by auto
      from available_without [OF assms(1) p n] True n show ?thesis by simp
    next
      case False
      then show ?thesis by simp
    qed
  qed
  then show ?thesis by (simp add: part_rows_def without_def)
qed

lemma having_without:
  assumes "distinct (map Part_ID (tbl_part s))" "Binary_ID b \<notin> P"
  shows "having ((without s P)\<lparr>tbl_release := X\<rparr>) b = having s b"
proof -
  let ?s' = "(without s P)\<lparr>tbl_release := X\<rparr>"
  have rows: "part_rows ?s' b = part_rows s b" by (rule part_rows_without [OF assms])
  have m: "map (available_segments ?s') (part_rows s b) = map (available_segments s) (part_rows s b)"
  proof (intro map_cong refl)
    fix p assume "p \<in> set (part_rows s b)"
    then have "p \<in> set (tbl_part s)" "Part_BinaryID p = Some (Binary_ID b)"
      by (simp_all add: part_rows_def)
    with assms(2) show "available_segments ?s' p = available_segments s p"
      by (intro available_without [OF assms(1)]) auto
  qed
  show ?thesis unfolding having_def rows m by (rule refl)
qed

lemma candidates_distinct:
  assumes "distinct (map Binary_ID (tbl_binary s))"
  shows "distinct (map Binary_ID (FindReadyBinaries s))"
proof -
  let ?zs = "map scanned (filter (having s) (tbl_binary s))"
  have e: "map Binary_ID ?zs = map Binary_ID (filter (having s) (tbl_binary s))"
    by (simp add: comp_def)
  have "distinct (map Binary_ID (filter (having s) (tbl_binary s)))"
    using assms by (rule distinct_map_filter)
  then have "distinct (map Binary_ID ?zs)" by (simp only: e)
  then have "distinct ?zs \<and> inj_on Binary_ID (set ?zs)" by (simp only: distinct_map)
  then have "distinct (sort_key (\<lambda>b. - Binary_Posted b) ?zs) \<and>
      inj_on Binary_ID (set (sort_key (\<lambda>b. - Binary_Posted b) ?zs))" by simp
  then show ?thesis unfolding FindReadyBinaries_def by (simp only: distinct_map)
qed

lemma loop_all_skip:
  assumes "\<forall>c\<in>set cs. dbrel_ID s c \<noteq> 0"
  shows "snd (MakeReleases_loop env s cs) = s"
    and "(\<forall>c\<in>set cs. \<not> db_fails env L314 (Binary_ID c)) \<Longrightarrow> MakeReleases_loop env s cs = (Nil, s)"
  using assms by (induction cs) (auto simp: promote_def)

lemma count_distinct_key:
  "distinct (map f xs) \<Longrightarrow> k \<in> f ` set xs \<Longrightarrow> length (filter (\<lambda>x. f x = k) xs) = 1"
proof (induction xs)
  case Nil
  then show ?case by simp
next
  case (Cons x xs)
  show ?case
  proof (cases "f x = k")
    case True
    with Cons.prems(1) have "k \<notin> f ` set xs" by auto
    then have "filter (\<lambda>x. f x = k) xs = []" by (auto simp: filter_empty_conv)
    with True show ?thesis by simp
  next
    case False
    with Cons show ?thesis by auto
  qed
qed

lemma clean_examples:
  "cleanReleaseName ''My.Show'' = ''My Show''" "cleanReleaseName ''Other-Show'' = ''Other Show''"
  by (simp_all add: cleanReleaseName_def removeChars_def spaceChars_def)

lemma with_release_candidates:
  "FindReadyBinaries (with_release two_ready ''Other-Show'' 5) =
     [scanned (example_binary 1 ''My.Show'' 6 1), scanned (example_binary 2 ''Other-Show'' 5 1)]"
  by (simp add: FindReadyBinaries_def with_release_def two_ready_def having_def part_rows_def
      available_segments_def example_part_def example_segment_def example_binary_def
      sql_div_def scanned_def)

lemma first_run:
  "MakeReleases (example_env [] []) (with_release two_ready ''Other-Show'' 5) = (Nil, after_run)"
  unfolding MakeReleases_def with_release_candidates
  by (simp add: promote_defs example_defs with_release_def after_run_def clean_examples)

lemma part_rows_parts_of:
  "part_rows s b = filter (\<lambda>p. 0 < available_segments s p) (parts_of s b)"
  by (simp add: part_rows_def parts_of_def conj_commute)




lemma promoted_subset: "set (promoted ks cs) \<subseteq> set cs"
  by (induction cs arbitrary: ks) auto

lemma promoted_fresh:
  "distinct (map bkey (promoted ks cs)) \<and> bkey ` set (promoted ks cs) \<inter> set ks = {}"
proof (induction cs arbitrary: ks)
  case Nil
  then show ?case by simp
next
  case (Cons c cs)
  show ?case
  proof (cases "bkey c \<in> set ks")
    case True
    with Cons.IH [of ks] show ?thesis by simp
  next
    case False
    from Cons.IH [of "ks @ [bkey c]"]
    have d: "distinct (map bkey (promoted (ks @ [bkey c]) cs))"
      and i: "bkey ` set (promoted (ks @ [bkey c]) cs) \<inter> set (ks @ [bkey c]) = {}" by simp_all
    from i have "bkey c \<notin> bkey ` set (promoted (ks @ [bkey c]) cs)"
      "bkey ` set (promoted (ks @ [bkey c]) cs) \<inter> set ks = {}" by auto
    with d False show ?thesis by auto
  qed
qed

lemma promoted_covers: "c \<in> set cs \<Longrightarrow> bkey c \<in> set ks \<union> bkey ` set (promoted ks cs)"
proof (induction cs arbitrary: ks)
  case Nil
  then show ?case by simp
next
  case (Cons a cs)
  show ?case
  proof (cases "bkey a \<in> set ks")
    case True
    with Cons show ?thesis by auto
  next
    case False
    show ?thesis
    proof (cases "c = a")
      case True
      with False show ?thesis by simp
    next
      case ne: False
      with Cons.prems have "c \<in> set cs" by simp
      from Cons.IH [OF this, of "ks @ [bkey a]"] False show ?thesis by auto
    qed
  qed
qed

lemma loop_exact:
  assumes "MakeReleases_loop env s cs = (Nil, s1)"
    and "0 \<notin> Release_ID ` set (tbl_release s)"
  shows "\<exists>new. s1 = (without s (Binary_ID ` set (promoted (map rkey (tbl_release s)) cs)))
                       \<lparr>tbl_release := tbl_release s @ new\<rparr> \<and>
      map rkey new = map bkey (promoted (map rkey (tbl_release s)) cs)"
  using assms
proof (induction cs arbitrary: s)
  case Nil
  then have "s1 = (without s {})\<lparr>tbl_release := tbl_release s @ []\<rparr>" by simp
  then show ?case by (intro exI [of _ "[]"]) simp
next
  case (Cons c cs)
  obtain r s' where p: "promote env s c = (r, s')" by (cases "promote env s c")
  with Cons.prems(1) have r: "r = Nil" by (cases r) auto
  with p Cons.prems(1) have loop: "MakeReleases_loop env s' cs = (Nil, s1)" by simp
  from promote_Nil_cases [OF p [unfolded r]]
  have cases: "(dbrel_ID s c \<noteq> 0 \<and> s' = s) \<or>
     (dbrel_ID s c = 0 \<and>
      (\<exists>rel. rkey rel = bkey c \<and> Release_ID rel = nextID (map Release_ID (tbl_release s)) \<and>
             s' = (without s {Binary_ID c})\<lparr>tbl_release := tbl_release s @ [rel]\<rparr>))"
    by simp
  from cases show ?case
  proof
    assume skip: "dbrel_ID s c \<noteq> 0 \<and> s' = s"
    then have key: "bkey c \<in> set (map rkey (tbl_release s))"
      using dbrel_ID_key [OF Cons.prems(2), of c] by simp
    from Cons.IH [OF loop [unfolded conjunct2 [OF skip]] Cons.prems(2)] key
    show ?thesis by simp
  next
    assume "dbrel_ID s c = 0 \<and>
      (\<exists>rel. rkey rel = bkey c \<and> Release_ID rel = nextID (map Release_ID (tbl_release s)) \<and>
             s' = (without s {Binary_ID c})\<lparr>tbl_release := tbl_release s @ [rel]\<rparr>)"
    then obtain rel where z: "dbrel_ID s c = 0" and rel: "rkey rel = bkey c"
      "Release_ID rel = nextID (map Release_ID (tbl_release s))"
      and s': "s' = (without s {Binary_ID c})\<lparr>tbl_release := tbl_release s @ [rel]\<rparr>"
      by blast
    from z have fresh: "bkey c \<notin> set (map rkey (tbl_release s))"
      using dbrel_ID_key [OF Cons.prems(2), of c] by simp
    have relid: "Release_ID rel \<noteq> 0"
      using nextID_pos [of "map Release_ID (tbl_release s)"] rel(2) by simp
    have tr: "tbl_release s' = tbl_release s @ [rel]" by (simp add: s')
    have nz: "0 \<notin> Release_ID ` set (tbl_release s')"
      using Cons.prems(2) relid by (auto simp: tr)
    have ks: "map rkey (tbl_release s') = map rkey (tbl_release s) @ [bkey c]"
      by (simp add: tr rel(1))
    define P where "P = promoted (map rkey (tbl_release s) @ [bkey c]) cs"
    from Cons.IH [OF loop nz] obtain new where
      IH: "s1 = (without s' (Binary_ID ` set P))\<lparr>tbl_release := tbl_release s' @ new\<rparr>"
        "map rkey new = map bkey P"
      unfolding ks P_def by blast
    have pr: "promoted (map rkey (tbl_release s)) (c # cs) = c # P"
      using fresh by (simp add: P_def)
    have 1: "s1 = (without s (Binary_ID ` set (c # P)))\<lparr>tbl_release := tbl_release s @ (rel # new)\<rparr>"
      unfolding IH(1) s' by (simp add: without_without)
    have 2: "map rkey (rel # new) = map bkey (c # P)" using IH(2) rel(1) by simp
    from 1 2 show ?thesis unfolding pr by blast
  qed
qed

lemma loop_failure_cases:
  assumes "MakeReleases_loop env s cs = (r, s')" "r \<noteq> Nil"
  shows "\<exists>pre b rest. cs = pre @ b # rest \<and> MakeReleases_loop env s pre = (Nil, s') \<and>
      promote env s' b = (r, s')"
  using assms
proof (induction cs arbitrary: s)
  case Nil
  then show ?case by auto
next
  case (Cons c cs)
  obtain r1 s1 where p: "promote env s c = (r1, s1)" by (cases "promote env s c")
  show ?case
  proof (cases "r1 = Nil")
    case True
    with Cons.prems p have "MakeReleases_loop env s1 cs = (r, s')" by simp
    from Cons.IH [OF this Cons.prems(2)] obtain pre b rest where
      "cs = pre @ b # rest" "MakeReleases_loop env s1 pre = (Nil, s')"
      "promote env s' b = (r, s')" by blast
    with p True have "c # cs = (c # pre) @ b # rest \<and>
        MakeReleases_loop env s (c # pre) = (Nil, s') \<and> promote env s' b = (r, s')"
      by simp
    then show ?thesis by blast
  next
    case False
    with Cons.prems p have r: "r = r1" "s' = s1" by (auto split: status.splits)
    with promote_unchanged [OF p False] have "s' = s" by simp
    with p r have "c # cs = [] @ c # cs \<and> MakeReleases_loop env s [] = (Nil, s') \<and>
        promote env s' c = (r, s')" by simp
    then show ?thesis by blast
  qed
qed

lemma candidates_without:
  assumes "distinct (map Part_ID (tbl_part s))"
  shows "FindReadyBinaries ((without s P)\<lparr>tbl_release := X\<rparr>) =
         filter (\<lambda>c. Binary_ID c \<notin> P) (FindReadyBinaries s)"
proof -
  let ?s1 = "(without s P)\<lparr>tbl_release := X\<rparr>"
  have tb: "tbl_binary ?s1 = filter (\<lambda>x. Binary_ID x \<notin> P) (tbl_binary s)"
    by (simp add: without_def)
  have A: "filter (having ?s1) (tbl_binary ?s1) =
        filter (\<lambda>x. Binary_ID x \<notin> P) (filter (having s) (tbl_binary s))"
    unfolding tb filter_filter
    by (rule filter_cong [OF refl]) (use having_without [OF assms] in auto)
  have B: "map scanned (filter (\<lambda>x. Binary_ID x \<notin> P) ys) =
        filter (\<lambda>c. Binary_ID c \<notin> P) (map scanned ys)" for ys
    by (induction ys) simp_all
  have "FindReadyBinaries ?s1 =
      sort_key (\<lambda>b. - Binary_Posted b) (map scanned (filter (having ?s1) (tbl_binary ?s1)))"
    by (simp only: FindReadyBinaries_def)
  also have "\<dots> = sort_key (\<lambda>b. - Binary_Posted b)
      (filter (\<lambda>c. Binary_ID c \<notin> P) (map scanned (filter (having s) (tbl_binary s))))"
    by (simp only: A B)
  also have "\<dots> = filter (\<lambda>c. Binary_ID c \<notin> P)
      (sort_key (\<lambda>b. - Binary_Posted b) (map scanned (filter (having s) (tbl_binary s))))"
    by (rule filter_sort [symmetric])
  finally show ?thesis by (simp only: FindReadyBinaries_def)
qed

lemma second_run_fails_again:
  assumes wf: "wf_store s" and run: "MakeReleases env s = (r, s1)" and r: "r \<noteq> Nil"
  shows "MakeReleases env s1 = (r, s1)"
proof (cases "db_fails env L307 0")
  case True
  with run show ?thesis by (auto simp: MakeReleases_def)
next
  case False
  from wf have dB: "distinct (map Binary_ID (tbl_binary s))"
    and dP: "distinct (map Part_ID (tbl_part s))"
    and zR: "0 \<notin> Release_ID ` set (tbl_release s)"
    by (simp_all add: wf_store_def)
  from run False have loop: "MakeReleases_loop env s (FindReadyBinaries s) = (r, s1)"
    by (simp add: MakeReleases_def)
  from loop_failure_cases [OF loop r] obtain pre b rest where
    cs: "FindReadyBinaries s = pre @ b # rest"
    and pre: "MakeReleases_loop env s pre = (Nil, s1)"
    and b: "promote env s1 b = (r, s1)" by blast
  have dc: "distinct (map Binary_ID (pre @ b # rest))"
    using candidates_distinct [OF dB] unfolding cs .
  then have dpre: "distinct (map Binary_ID pre)" and bnew: "Binary_ID b \<notin> Binary_ID ` set pre"
    by auto
  from loop_effect [OF pre zR dpre] obtain P new where P: "P \<subseteq> Binary_ID ` set pre"
    and s1: "s1 = (without s P)\<lparr>tbl_release := tbl_release s @ new\<rparr>"
    and zN: "0 \<notin> Release_ID ` set new"
    and pc: "\<forall>c\<in>set pre. \<not> db_fails env L314 (Binary_ID c) \<and>
          (if Binary_ID c \<in> P then bkey c \<in> rkey ` set new
           else bkey c \<in> rkey ` set (tbl_release s) \<union> rkey ` set new)"
    by blast
  from P bnew have nP: "Binary_ID b \<notin> P" by blast
  have tR: "tbl_release s1 = tbl_release s @ new" by (simp add: s1)
  have zR1: "0 \<notin> Release_ID ` set (tbl_release s1)" using zR zN by (auto simp: tR)
  let ?keep = "\<lambda>c. Binary_ID c \<notin> P"
  have cand: "FindReadyBinaries s1 = filter ?keep pre @ b # filter ?keep rest"
    unfolding s1 candidates_without [OF dP] cs using nP by simp
  have skip: "\<forall>c\<in>set (filter ?keep pre). dbrel_ID s1 c \<noteq> 0"
  proof
    fix c assume "c \<in> set (filter ?keep pre)"
    then have "c \<in> set pre" "Binary_ID c \<notin> P" by simp_all
    with pc have "bkey c \<in> rkey ` set (tbl_release s) \<union> rkey ` set new" by auto
    then have "bkey c \<in> rkey ` set (tbl_release s1)" by (simp add: tR image_Un)
    with dbrel_ID_key [OF zR1, of c] show "dbrel_ID s1 c \<noteq> 0" by simp
  qed
  have ok: "\<forall>c\<in>set (filter ?keep pre). \<not> db_fails env L314 (Binary_ID c)"
    using pc by auto
  have "MakeReleases_loop env s1 (filter ?keep pre) = (Nil, s1)"
    using loop_all_skip(2) [OF skip ok] .
  then have "MakeReleases_loop env s1 (FindReadyBinaries s1) = (r, s1)"
    unfolding cand MakeReleases_loop_append using b r by (cases r) simp_all
  with False show ?thesis by (simp add: MakeReleases_def)
qed

lemma regrouped_candidates:
  "FindReadyBinaries regrouped = [scanned (grouped_binary 2 101)]"
  by (simp add: FindReadyBinaries_def regrouped_def having_def part_rows_def
      available_segments_def example_part_def example_segment_def grouped_binary_def
      sql_div_def scanned_def)

section \<open>C9: cleanReleaseName\<close>

lemma Replace_utf8_remove:
  assumes "d < 0x800" "\<forall>r\<in>set rs. r < 0x110000"
  shows "Replace (utf8_string rs) (utf8 d) [] = utf8_string (filter (\<lambda>r. r \<noteq> d) rs)"
proof -
  have "concat (map (\<lambda>r. if r = d then [] else utf8 r) rs) =
        concat (map utf8 (filter (\<lambda>r. r \<noteq> d) rs))"
    by (induction rs) auto
  with Replace_utf8 [OF assms] show ?thesis by (simp add: utf8_string_def)
qed

lemma Replace_utf8_subst:
  assumes "d < 0x800" "\<forall>r\<in>set rs. r < 0x110000"
  shows "Replace (utf8_string rs) (utf8 d) (utf8 e) =
         utf8_string (map (\<lambda>r. if r = d then e else r) rs)"
proof -
  have "concat (map (\<lambda>r. if r = d then utf8 e else utf8 r) rs) =
        concat (map utf8 (map (\<lambda>r. if r = d then e else r) rs))"
    by (induction rs) auto
  with Replace_utf8 [OF assms] show ?thesis by (simp add: utf8_string_def)
qed

lemma removeChars_utf8: "removeChars = map utf8 removeRunes"
  by code_simp

lemma spaceChars_utf8: "spaceChars = map utf8 spaceRunes" "'' '' = utf8 0x20"
  by code_simp+

lemma fold_remove:
  assumes "\<forall>d\<in>set ds. d < 0x800" "\<forall>r\<in>set rs. r < 0x110000"
  shows "fold (\<lambda>c name. Replace name c []) (map utf8 ds) (utf8_string rs) =
         utf8_string (filter (\<lambda>r. r \<notin> set ds) rs)"
  using assms
proof (induction ds arbitrary: rs)
  case Nil
  then show ?case by simp
next
  case (Cons d ds)
  have "filter (\<lambda>r. r \<notin> set ds) (filter (\<lambda>r. r \<noteq> d) rs) =
        filter (\<lambda>r. r \<notin> set (d # ds)) rs"
    by (induction rs) auto
  with Cons.prems Cons.IH [of "filter (\<lambda>r. r \<noteq> d) rs"] Replace_utf8_remove [of d rs]
  show ?case by simp
qed

lemma fold_subst:
  assumes "\<forall>d\<in>set ds. d < 0x800" "\<forall>r\<in>set rs. r < 0x110000" "e < 0x110000" "e \<notin> set ds"
  shows "fold (\<lambda>c name. Replace name c (utf8 e)) (map utf8 ds) (utf8_string rs) =
         utf8_string (map (\<lambda>r. if r \<in> set ds then e else r) rs)"
  using assms
proof (induction ds arbitrary: rs)
  case Nil
  then show ?case by simp
next
  case (Cons d ds)
  let ?rs = "map (\<lambda>r. if r = d then e else r) rs"
  have v: "\<forall>r\<in>set ?rs. r < 0x110000" using Cons.prems by auto
  have m: "map (\<lambda>r. if r \<in> set ds then e else r) ?rs =
           map (\<lambda>r. if r \<in> set (d # ds) then e else r) rs"
    using Cons.prems(4) by (induction rs) auto
  have "fold (\<lambda>c name. Replace name c (utf8 e)) (map utf8 (d # ds)) (utf8_string rs) =
        fold (\<lambda>c name. Replace name c (utf8 e)) (map utf8 ds) (utf8_string ?rs)"
    using Replace_utf8_subst [of d rs e] Cons.prems by simp
  also have "\<dots> = utf8_string (map (\<lambda>r. if r \<in> set ds then e else r) ?rs)"
    using Cons.prems by (intro Cons.IH [OF _ v]) auto
  finally show ?case by (simp only: m)
qed

text \<open>
  Claim C9 as stated fails on a name that is not the UTF-8 encoding of a sequence of
  characters: the entries of the denylist are removed as byte strings, one entry after
  the other. In the bytes \<open>C2 C2 A8 A7\<close> the only encoded character is U+00A8; once its two
  bytes are gone, the bytes left are \<open>C2 A7\<close>, the encoding of U+00A7, whose turn has
  passed: the result is a character of the denylist. In the bytes \<open>C2 # A7\<close> the removal
  of \<open>#\<close> brings \<open>C2\<close> and \<open>A7\<close> together, and the entry U+00A7 removes them: the result is
  empty, though the name held no U+00A7.
\<close>

theorem cleanReleaseName_removes_then_spaces_counterexample:
  "cleanReleaseName [CHR 0xC2, CHR 0xC2, CHR 0xA8, CHR 0xA7] = [CHR 0xC2, CHR 0xA7] \<and>
   [CHR 0xC2, CHR 0xA7] = utf8_string [0xA7] \<and> 0xA7 \<in> set removeRunes \<and>
   cleanReleaseName [CHR 0xC2, CHR ''#'', CHR 0xA7] = []"
  by code_simp

text \<open>
  Claim C9, amended. On a name that is the UTF-8 encoding of a sequence of characters,
  cleanReleaseName first drops every character of the denylist (\<open># @ $ % ^\<close> and U+00A7,
  U+00A8, U+00A9, U+00D6) and then turns every underscore, period and hyphen into a
  space; and \<open>cleanReleaseName "My.Movie_Name-2020#@" = "My Movie Name 2020"\<close>.
\<close>

theorem cleanReleaseName_removes_then_spaces:
  "((\<forall>r\<in>set rs. r < 0x110000) \<longrightarrow>
     cleanReleaseName (utf8_string rs) =
       utf8_string (map (\<lambda>r. if r \<in> set spaceRunes then 0x20 else r)
                     (filter (\<lambda>r. r \<notin> set removeRunes) rs)))
   \<and> cleanReleaseName ''My.Movie_Name-2020#@'' = ''My Movie Name 2020''"
proof
  show "cleanReleaseName ''My.Movie_Name-2020#@'' = ''My Movie Name 2020''"
    by (simp add: cleanReleaseName_def removeChars_def spaceChars_def)
  show "(\<forall>r\<in>set rs. r < 0x110000) \<longrightarrow>
     cleanReleaseName (utf8_string rs) =
       utf8_string (map (\<lambda>r. if r \<in> set spaceRunes then 0x20 else r)
                     (filter (\<lambda>r. r \<notin> set removeRunes) rs))"
  proof
    assume v: "\<forall>r\<in>set rs. r < 0x110000"
    have 1: "fold (\<lambda>c name. Replace name c []) removeChars (utf8_string rs) =
          utf8_string (filter (\<lambda>r. r \<notin> set removeRunes) rs)"
      unfolding removeChars_utf8 by (rule fold_remove) (use v in \<open>auto simp: removeRunes_def\<close>)
    have 2: "\<forall>r\<in>set (filter (\<lambda>r. r \<notin> set removeRunes) rs). r < 0x110000"
      using v by auto
    show "cleanReleaseName (utf8_string rs) =
       utf8_string (map (\<lambda>r. if r \<in> set spaceRunes then 0x20 else r)
                     (filter (\<lambda>r. r \<notin> set removeRunes) rs))"
      unfolding cleanReleaseName_def 1 spaceChars_utf8
      by (rule fold_subst [OF _ 2]) (auto simp: spaceRunes_def)
  qed
qed

text \<open>The name \<open>A\<close>, U+00A7, \<open>_\<close>, \<open>M\<close>, U+00D6 (seven bytes) is cleaned to \<open>A M\<close>.\<close>

theorem cleanReleaseName_removes_then_spaces_witness:
  "cleanReleaseName [CHR ''A'', CHR 0xC2, CHR 0xA7, CHR ''_'', CHR ''M'', CHR 0xC3, CHR 0x96]
     = ''A M''"
proof -
  have e1: "utf8_string [0x41, 0xA7, 0x5F, 0x4D, 0xD6] =
      [CHR ''A'', CHR 0xC2, CHR 0xA7, CHR ''_'', CHR ''M'', CHR 0xC3, CHR 0x96]"
    by code_simp
  have e2: "utf8_string [0x41, 0x20, 0x4D] = ''A M''"
    by code_simp
  show ?thesis
    using cleanReleaseName_removes_then_spaces [of "[0x41, 0xA7, 0x5F, 0x4D, 0xD6]"]
    unfolding e1 by (simp add: removeRunes_def spaceRunes_def e2)
qed

section \<open>C8: the part-count string\<close>

lemma Replace_single: "Replace s [a] [b] = map (\<lambda>c. if c = a then b else c) s"
  by (induction s) auto

lemma Replace_delete: "Replace s [a] [] = filter (\<lambda>c. c \<noteq> a) s"
  by (induction s) auto

lemma Index_single:
  "Index s [c] = (if c \<in> set s then int (length (takeWhile (\<lambda>x. x \<noteq> c) s)) else -1)"
  by (induction s) (auto simp: Let_def)

lemma Index_single_none: "Index s [c] = -1 \<longleftrightarrow> c \<notin> set s"
  by (simp add: Index_single)

lemma SplitN_single:
  assumes c: "c \<in> set s"
  shows "SplitN s [c] 2 = [takeWhile (\<lambda>x. x \<noteq> c) s, tl (dropWhile (\<lambda>x. x \<noteq> c) s)]"
proof -
  have "drop (Suc (length (takeWhile (\<lambda>x. x \<noteq> c) s))) s = tl (dropWhile (\<lambda>x. x \<noteq> c) s)"
    by (induction s) auto
  moreover
  have "take (length (takeWhile (\<lambda>x. x \<noteq> c) s)) s = takeWhile (\<lambda>x. x \<noteq> c) s"
    by (induction s) auto
  ultimately show ?thesis using c by (simp add: Index_single numeral_2_eq_2)
qed

lemma normalizeParts_slash: "CHR ''/'' \<in> set parts \<Longrightarrow> normalizeParts parts = parts"
  by (simp add: normalizeParts_def Index_single)

lemma normalizeParts_no_slash:
  assumes "CHR ''/'' \<notin> set parts"
  shows "normalizeParts parts =
     filter (\<lambda>c. c \<notin> set ''[]()'')
       (Replace (map (\<lambda>c. if c = CHR ''-'' \<or> c = CHR ''~'' then CHR ''/'' else c) parts)
          '' of '' ''/'')"
proof -
  have m: "Replace (Replace parts ''-'' ''/'') ''~'' ''/'' =
      map (\<lambda>c. if c = CHR ''-'' \<or> c = CHR ''~'' then CHR ''/'' else c) parts"
    by (simp add: Replace_single)
  have f: "Replace (Replace (Replace (Replace xs ''['' []) '']'' []) ''('' []) '')'' [] =
      filter (\<lambda>c. c \<notin> set ''[]()'') xs" for xs
    by (simp add: Replace_delete)
  from assms show ?thesis
    unfolding normalizeParts_def Index_single_none m f by simp
qed

lemma partcounts_None:
  "partcounts env p = None \<longleftrightarrow>
     \<not> hasNameAndParts (subjectMap env p) \<or>
     CHR ''/'' \<notin> set (normalizeParts (lookup (subjectMap env p) ''parts''))"
  by (simp add: partcounts_def Let_def Index_single_none)

lemma partcounts_Some:
  assumes "partcounts env p = Some pc"
  shows "\<exists>idx tot. pc = [idx, tot] \<and> CHR ''/'' \<notin> set idx \<and>
           normalizeParts (lookup (subjectMap env p) ''parts'') = idx @ ''/'' @ tot"
proof -
  let ?ps = "normalizeParts (lookup (subjectMap env p) ''parts'')"
  from assms have in_ps: "CHR ''/'' \<in> set ?ps" and pc: "pc = SplitN ?ps ''/'' 2"
    by (auto simp: partcounts_def Let_def Index_single_none split: if_splits)
  let ?idx = "takeWhile (\<lambda>x. x \<noteq> CHR ''/'') ?ps"
  let ?rest = "dropWhile (\<lambda>x. x \<noteq> CHR ''/'') ?ps"
  have "?rest \<noteq> []" using in_ps by simp
  moreover have "hd ?rest = CHR ''/''"
    using in_ps hd_dropWhile [of "\<lambda>x. x \<noteq> CHR ''/''" ?ps] by simp
  ultimately have r: "?rest = ''/'' @ tl ?rest" by (cases ?rest) auto
  have "?ps = ?idx @ ?rest" by simp
  with r have "?ps = ?idx @ ''/'' @ tl ?rest" by metis
  moreover have "CHR ''/'' \<notin> set ?idx" by (auto dest: set_takeWhileD)
  moreover have "pc = [?idx, tl ?rest]" using pc SplitN_single [OF in_ps] by simp
  ultimately show ?thesis by blast
qed

lemma Save_Binary_parts:
  "Save_Binary s b = (b', s') \<Longrightarrow> length (Binary_Parts b') = length (Binary_Parts b)"
  by (auto simp: Save_Binary_def Let_def)

text \<open>
  A turn of the loop leaves the map of Binaries and the store as they were, and goes on,
  exactly when the parser has said \<open>continue\<close>.
\<close>

lemma groupPart_skip_iff:
  "groupPart env p (binaries, s) = (Nil, binaries, s) \<longleftrightarrow> partcounts env p = None"
proof (cases "partcounts env p")
  case None
  then show ?thesis by (simp add: groupPart_def)
next
  case (Some pc)
  from partcounts_Some [OF Some] obtain idx tot where pc: "pc = [idx, tot]" by blast
  define name where "name = lookup (subjectMap env p) ''name''"
  define h where "h = makeBinaryHash name (Part_Group p) (Part_From p) tot"
  define bin where "bin = binaryFor binaries h name tot p"
  obtain bin' s' where sv: "Save_Binary s bin = (bin', s')" by (cases "Save_Binary s bin")
  have ne: "binaries(h \<mapsto> bin') \<noteq> binaries"
  proof
    assume eq: "binaries(h \<mapsto> bin') = binaries"
    then have "binaries h = Some bin'" by (metis fun_upd_same)
    then have "Binary_Parts bin = Binary_Parts bin' @ [p]" by (simp add: bin_def binaryFor_def)
    with Save_Binary_parts [OF sv] show False by simp
  qed
  have "groupPart env p (binaries, s) \<noteq> (Nil, binaries, s)"
    using ne sv Some pc
    by (auto simp: groupPart_def Let_def name_def [symmetric] h_def [symmetric]
        bin_def [symmetric])
  with Some show ?thesis by simp
qed

text \<open>
  Claim C8. A part-count string that holds a \<open>/\<close> is left as it is; in one that holds
  none, \<open>-\<close> and \<open>~\<close> and then the literal \<open>" of "\<close> are replaced by \<open>/\<close>, and then the
  characters \<open>[ ] ( )\<close> are removed. The part is skipped (the turn of the loop changes
  nothing and the loop goes on) exactly when the captures do not hold both a name and
  the parts, or the normalized string holds no \<open>/\<close>; otherwise the string is split at its
  first \<open>/\<close> into index and total.
\<close>

theorem partcount_normalization:
  "(CHR ''/'' \<in> set parts \<longrightarrow> normalizeParts parts = parts) \<and>
   (CHR ''/'' \<notin> set parts \<longrightarrow>
      normalizeParts parts =
        filter (\<lambda>c. c \<notin> set ''[]()'')
          (Replace (map (\<lambda>c. if c = CHR ''-'' \<or> c = CHR ''~'' then CHR ''/'' else c) parts)
             '' of '' ''/'')) \<and>
   (groupPart env p (binaries, s) = (Nil, binaries, s) \<longleftrightarrow>
      \<not> hasNameAndParts (subjectMap env p) \<or>
      CHR ''/'' \<notin> set (normalizeParts (lookup (subjectMap env p) ''parts''))) \<and>
   (\<forall>pc. partcounts env p = Some pc \<longrightarrow>
      (\<exists>idx tot. pc = [idx, tot] \<and> CHR ''/'' \<notin> set idx \<and>
         normalizeParts (lookup (subjectMap env p) ''parts'') = idx @ ''/'' @ tot))"
proof (intro conjI impI allI)
  show "normalizeParts parts = parts" if "CHR ''/'' \<in> set parts"
    using that by (rule normalizeParts_slash)
  show "normalizeParts parts =
      filter (\<lambda>c. c \<notin> set ''[]()'')
        (Replace (map (\<lambda>c. if c = CHR ''-'' \<or> c = CHR ''~'' then CHR ''/'' else c) parts)
           '' of '' ''/'')" if "CHR ''/'' \<notin> set parts"
    using that by (rule normalizeParts_no_slash)
  show "groupPart env p (binaries, s) = (Nil, binaries, s) \<longleftrightarrow>
      \<not> hasNameAndParts (subjectMap env p) \<or>
      CHR ''/'' \<notin> set (normalizeParts (lookup (subjectMap env p) ''parts''))"
    by (simp only: groupPart_skip_iff partcounts_None)
  show "\<exists>idx tot. pc = [idx, tot] \<and> CHR ''/'' \<notin> set idx \<and>
         normalizeParts (lookup (subjectMap env p) ''parts'') = idx @ ''/'' @ tot"
    if "partcounts env p = Some pc" for pc
    using that by (rule partcounts_Some)
qed

text \<open>
  The subject \<open>file (1 of 34) yEnc\<close> matches only the pattern of line 173, with
  \<open>1 of 34\<close> as its first submatch: the string becomes \<open>1/34\<close> and is split into \<open>1\<close> and
  \<open>34\<close>. The subject \<open>hello\<close> matches nothing and is skipped.
\<close>

theorem partcount_normalization_witness:
  "normalizeParts ''1/34'' = ''1/34'' \<and>
   normalizeParts ''(1 of 34)'' = ''1/34'' \<and>
   partcounts (example_env [] [(''file (1 of 34) yEnc'', ''1 of 34'')])
     (example_part 1 ''file (1 of 34) yEnc'' ''g'' ''f'' 0) = Some [''1'', ''34''] \<and>
   groupPart (example_env [] [(''file (1 of 34) yEnc'', ''1 of 34'')])
     (example_part 2 ''hello'' ''g'' ''f'' 0) (Map.empty, empty_store)
     = (Nil, Map.empty, empty_store)"
proof -
  let ?env = "example_env [] [(''file (1 of 34) yEnc'', ''1 of 34'')]"
  let ?p = "example_part 1 ''file (1 of 34) yEnc'' ''g'' ''f'' 0"
  let ?q = "example_part 2 ''hello'' ''g'' ''f'' 0"
  have mp: "subjectMap ?env ?p = [(''name'', []), (''parts'', ''1 of 34'')]"
    by (simp add: subjectMap_def example_env_def example_part_def)
  have mq: "subjectMap ?env ?q = [(''name'', [])]"
    by (simp add: subjectMap_def example_env_def example_part_def)
  have 1: "normalizeParts ''1/34'' = ''1/34''"
    using partcount_normalization [of "''1/34''"] by simp
  have 2: "normalizeParts ''(1 of 34)'' = ''1/34''"
    using partcount_normalization [of "''(1 of 34)''"] by simp
  have n: "normalizeParts ''1 of 34'' = ''1/34''"
    using partcount_normalization [of "''1 of 34''"] by simp
  have 3: "partcounts ?env ?p = Some [''1'', ''34'']"
  proof -
    have "partcounts ?env ?p \<noteq> None"
      using partcount_normalization [of "[]" ?env ?p Map.empty empty_store]
      by (simp add: groupPart_skip_iff mp hasNameAndParts_def lookup_def n)
    then obtain pc where pc: "partcounts ?env ?p = Some pc" by blast
    with partcount_normalization [of "[]" ?env ?p Map.empty empty_store]
    obtain idx tot where "pc = [idx, tot]" "CHR ''/'' \<notin> set idx" "''1/34'' = idx @ ''/'' @ tot"
      by (auto simp: mp lookup_def n)
    moreover from this have "idx = ''1'' \<and> tot = ''34''"
      by (cases idx; cases "tl idx") auto
    ultimately show ?thesis using pc by simp
  qed
  have 4: "groupPart ?env ?q (Map.empty, empty_store) = (Nil, Map.empty, empty_store)"
    using partcount_normalization [of "[]" ?env ?q Map.empty empty_store]
    by (simp add: mq hasNameAndParts_def)
  from 1 2 3 4 show ?thesis by blast
qed

section \<open>C10: the hash is taken over the text of the total\<close>

text \<open>
  Claim C10. Two ungrouped parts with the same parsed name, group and poster, whose totals
  are equal as numbers and differ as text, and whose hashes differ, end in two distinct
  Binaries with different hashes and the same \<open>total_parts\<close>.
\<close>

theorem raw_total_splits_binaries:
  assumes ung: "filter (\<lambda>p. Part_BinaryID p = None) (tbl_part s) = [p1, p2]"
    and pc1: "partcounts env p1 = Some [i1, t1]" and pc2: "partcounts env p2 = Some [i2, t2]"
    and nm: "lookup (subjectMap env p1) ''name'' = name" "lookup (subjectMap env p2) ''name'' = name"
    and grp: "Part_Group p1 = g" "Part_Group p2 = g"
    and frm: "Part_From p1 = f" "Part_From p2 = f"
    and num: "fst (Atoi t1) = fst (Atoi t2)" and differ: "t1 \<noteq> t2"
    and hash: "makeBinaryHash name g f t1 \<noteq> makeBinaryHash name g f t2"
    and ok: "\<not> db_fails env L192 0" "\<not> db_fails env L269 (Part_ID p1)"
      "\<not> db_fails env L269 (Part_ID p2)"
    and ids: "Part_ID p1 \<noteq> Part_ID p2"
  shows "\<exists>b1 b2 s'. MakeBinaries env s = (Nil, s') \<and>
           tbl_binary s' = tbl_binary s @ [b1, b2] \<and>
           Binary_Hash b1 = makeBinaryHash name g f t1 \<and>
           Binary_Hash b2 = makeBinaryHash name g f t2 \<and>
           Binary_Hash b1 \<noteq> Binary_Hash b2 \<and> Binary_ID b1 \<noteq> Binary_ID b2 \<and>
           Binary_Name b1 = Binary_Name b2 \<and> Binary_Group b1 = Binary_Group b2 \<and>
           Binary_From b1 = Binary_From b2 \<and>
           Binary_TotalParts b1 = Binary_TotalParts b2 \<and> Binary_TotalParts b1 = fst (Atoi t1) \<and>
           (\<forall>p\<in>set (tbl_part s').
              (Part_ID p = Part_ID p1 \<longrightarrow> Part_BinaryID p = Some (Binary_ID b1)) \<and>
              (Part_ID p = Part_ID p2 \<longrightarrow> Part_BinaryID p = Some (Binary_ID b2)))"
proof -
  have "set [p1, p2] \<subseteq> set (tbl_part s)"
    unfolding ung [symmetric] by (rule filter_is_subset)
  then have mem: "p1 \<in> set (tbl_part s)" "p2 \<in> set (tbl_part s)" by simp_all
  define h1 where "h1 = makeBinaryHash name g f t1"
  define h2 where "h2 = makeBinaryHash name g f t2"
  define n1 where "n1 = nextID (map Binary_ID (tbl_binary s))"
  define b1 where "b1 = \<lparr>Binary_ID = n1, Binary_Hash = h1, Binary_Name = name,
           Binary_Posted = Part_Posted p1, Binary_From = f,
           Binary_Group = g, Binary_TotalParts = fst (Atoi t1), Binary_Parts = []\<rparr>"
  define s1 where "s1 = s\<lparr>tbl_binary := tbl_binary s @ [b1],
        tbl_part := map (\<lambda>r. if Part_ID r = Part_ID p1 then p1\<lparr>Part_BinaryID := Some n1\<rparr> else r)
                     (tbl_part s)\<rparr>"
  define bins1 where "bins1 = [h1 \<mapsto> b1\<lparr>Binary_Parts := [p1\<lparr>Part_BinaryID := Some n1\<rparr>]\<rparr>]"
  have step1: "groupPart env p1 (Map.empty, s) = (Nil, bins1, s1)"
    using groupPart_new [where env = env and p = p1 and idx = i1 and tot = t1 and h = h1
        and binaries = Map.empty and s = s and n = n1 and b = b1] pc1 ok(2) mem(1)
    by (simp add: bins1_def s1_def h1_def b1_def nm grp frm n1_def)
  define n2 where "n2 = nextID (map Binary_ID (tbl_binary s1))"
  define b2 where "b2 = \<lparr>Binary_ID = n2, Binary_Hash = h2, Binary_Name = name,
           Binary_Posted = Part_Posted p2, Binary_From = f,
           Binary_Group = g, Binary_TotalParts = fst (Atoi t2), Binary_Parts = []\<rparr>"
  define s2 where "s2 = s1\<lparr>tbl_binary := tbl_binary s1 @ [b2],
        tbl_part := map (\<lambda>r. if Part_ID r = Part_ID p2 then p2\<lparr>Part_BinaryID := Some n2\<rparr> else r)
                     (tbl_part s1)\<rparr>"
  have mem2: "p2 \<in> set (tbl_part s1)"
    using mem(2) ids by (force simp: s1_def)
  have new2: "bins1 h2 = None" using hash by (simp add: bins1_def h1_def h2_def)
  have step2: "groupPart env p2 (bins1, s1) =
      (Nil, bins1(h2 \<mapsto> b2\<lparr>Binary_Parts := [p2\<lparr>Part_BinaryID := Some n2\<rparr>]\<rparr>), s2)"
    using groupPart_new [where env = env and p = p2 and idx = i2 and tot = t2 and h = h2
        and binaries = bins1 and s = s1 and n = n2 and b = b2] pc2 ok(3) mem2 new2
    by (simp add: s2_def h2_def b2_def nm grp frm n2_def)
  have run: "MakeBinaries env s = (Nil, s2)"
    using ok(1) by (simp add: MakeBinaries_def ung step1 step2)
  have n12: "n1 \<noteq> n2"
  proof -
    have "n1 \<in> set (map Binary_ID (tbl_binary s1))" by (simp add: s1_def b1_def)
    with nextID_fresh [of "map Binary_ID (tbl_binary s1)"] show ?thesis
      unfolding n2_def by metis
  qed
  have tb: "tbl_binary s2 = tbl_binary s @ [b1, b2]" by (simp add: s2_def s1_def)
  have parts: "\<forall>p\<in>set (tbl_part s2).
              (Part_ID p = Part_ID p1 \<longrightarrow> Part_BinaryID p = Some (Binary_ID b1)) \<and>
              (Part_ID p = Part_ID p2 \<longrightarrow> Part_BinaryID p = Some (Binary_ID b2))"
    using ids by (auto simp: s2_def s1_def b1_def b2_def)
  show ?thesis
    apply (rule exI [of _ b1], rule exI [of _ b2], rule exI [of _ s2])
    using run tb parts hash n12 num by (simp add: b1_def b2_def h1_def h2_def)
qed

text \<open>
  The totals \<open>34\<close> and \<open>034\<close>: the digests of \<open>agf34\<close> and \<open>agf034\<close> differ, and
  MakeBinaries creates two Binaries, both with \<open>total_parts = 34\<close>.
\<close>

lemma hash34: "makeBinaryHash ''a'' ''g'' ''f'' ''34'' = ''3fb5e2d9c06a3a93''"
  by code_simp

lemma hash034: "makeBinaryHash ''a'' ''g'' ''f'' ''034'' = ''c83620c080c11247''"
  by code_simp

theorem raw_total_splits_binaries_witness:
  "fst (MakeBinaries env34 store34) = Nil \<and>
   map (\<lambda>b. (Binary_Hash b, Binary_TotalParts b)) (tbl_binary (snd (MakeBinaries env34 store34))) =
     [(''3fb5e2d9c06a3a93'', 34), (''c83620c080c11247'', 34)]"
proof -
  let ?p1 = "example_part 1 (example_subject ''1/34'' ''a.mkv'') ''g'' ''f'' 100"
  let ?p2 = "example_part 2 (example_subject ''2/034'' ''a.mkv'') ''g'' ''f'' 101"
  have m1: "subjectMap env34 ?p1 = [(''parts'', ''1/34''), (''name'', ''a'')]"
    by (simp add: subjectMap_def env34_def example_env_def example_part_def example_subject_def
        trim_ascii_def is_space_def)
  have m2: "subjectMap env34 ?p2 = [(''parts'', ''2/034''), (''name'', ''a'')]"
    by (simp add: subjectMap_def env34_def example_env_def example_part_def example_subject_def
        trim_ascii_def is_space_def)
  have pc1: "partcounts env34 ?p1 = Some [''1'', ''34'']"
    by (simp add: partcounts_def m1 hasNameAndParts_def lookup_def normalizeParts_def
        numeral_2_eq_2)
  have pc2: "partcounts env34 ?p2 = Some [''2'', ''034'']"
    by (simp add: partcounts_def m2 hasNameAndParts_def lookup_def normalizeParts_def
        numeral_2_eq_2)
  have a: "fst (Atoi ''34'') = 34" "fst (Atoi ''034'') = 34"
    by (simp_all add: Atoi_def is_digit_def digit_val_def)
  have ung: "filter (\<lambda>p. Part_BinaryID p = None) (tbl_part store34) = [?p1, ?p2]"
    by (simp add: store34_def example_part_def)
  have ok: "\<not> db_fails env34 L192 0" "\<not> db_fails env34 L269 (Part_ID ?p1)"
      "\<not> db_fails env34 L269 (Part_ID ?p2)"
    by (simp_all add: env34_def example_env_def)
  have nm: "lookup (subjectMap env34 ?p1) ''name'' = ''a''"
      "lookup (subjectMap env34 ?p2) ''name'' = ''a''"
    by (simp_all add: m1 m2 lookup_def)
  have gf: "Part_Group ?p1 = ''g''" "Part_Group ?p2 = ''g''" "Part_From ?p1 = ''f''"
      "Part_From ?p2 = ''f''" "Part_ID ?p1 \<noteq> Part_ID ?p2"
    by (simp_all add: example_part_def)
  have h: "makeBinaryHash ''a'' ''g'' ''f'' ''34'' \<noteq> makeBinaryHash ''a'' ''g'' ''f'' ''034''"
    by (simp add: hash34 hash034)
  have num: "fst (Atoi ''34'') = fst (Atoi ''034'')" "''34'' \<noteq> ''034''"
    by (simp_all add: a)
  from raw_total_splits_binaries
    [OF ung pc1 pc2 nm gf(1) gf(2) gf(3) gf(4) num h ok gf(5)]
  obtain b1 b2 s' where "MakeBinaries env34 store34 = (Nil, s')"
    "tbl_binary s' = tbl_binary store34 @ [b1, b2]"
    "Binary_Hash b1 = makeBinaryHash ''a'' ''g'' ''f'' ''34''"
    "Binary_Hash b2 = makeBinaryHash ''a'' ''g'' ''f'' ''034''"
    "Binary_TotalParts b1 = Binary_TotalParts b2" "Binary_TotalParts b1 = fst (Atoi ''34'')"
    by blast
  then show ?thesis
    by (simp add: hash34 hash034 a store34_def empty_store_def)
qed

section \<open>C5: a duplicate is skipped\<close>

text \<open>
  Claim C5. A candidate whose name and date are those of a Release in the store (found by
  the lookup of line 314, the keys of Releases being non-zero) is skipped: the turn
  returns no error and leaves the whole store as it was, so no second Release is
  inserted and the rows of the Binary, its Parts and their Segments stay; the loop goes
  on with the next candidate.
\<close>

theorem duplicate_release_skipped:
  assumes "r \<in> set (tbl_release s)"
    and "Release_Name r = Binary_Name b" and "Release_Posted r = Binary_Posted b"
    and "0 \<notin> set (map Release_ID (tbl_release s))"
    and "\<not> db_fails env L314 (Binary_ID b)"
  shows "promote env s b = (Nil, s) \<and>
         MakeReleases_loop env s (b # bs) = MakeReleases_loop env s bs"
proof -
  from assms(1-3) dbrel_ID_nonzero [OF assms(4), of b] have "dbrel_ID s b \<noteq> 0" by blast
  with assms(5) have "promote env s b = (Nil, s)" by (simp add: promote_def)
  then show ?thesis by simp
qed

text \<open>
  Binary 1 of the example, in a store that already holds a Release \<open>My.Show\<close> of date 6.
\<close>

theorem duplicate_release_skipped_witness:
  "promote (example_env [] []) (with_release two_ready ''My.Show'' 6)
     (scanned (example_binary 1 ''My.Show'' 6 1)) = (Nil, with_release two_ready ''My.Show'' 6)"
proof -
  let ?s = "with_release two_ready ''My.Show'' 6"
  let ?r = "\<lparr>Release_ID = 1, Release_Name = ''My.Show'',
          Release_OriginalName = ''My.Show'', Release_SearchName = cleanReleaseName ''My.Show'',
          Release_Posted = 6, Release_From = [],
          Release_Group = \<lparr>Group_ID = 1, Group_Name = ''g'', Group_Active = True\<rparr>,
          Release_Size = 10, Release_NZB = ''nzb''\<rparr>"
  have rel: "tbl_release ?s = [?r]"
    by (simp add: with_release_def two_ready_def nextID_def)
  have 1: "?r \<in> set (tbl_release ?s)" by (simp add: rel)
  have 4: "0 \<notin> set (map Release_ID (tbl_release ?s))" by (simp add: rel)
  have 5: "\<not> db_fails (example_env [] []) L314 (Binary_ID (scanned (example_binary 1 ''My.Show'' 6 1)))"
    by (simp add: example_env_def)
  from duplicate_release_skipped [OF 1 _ _ 4 5] show ?thesis
    by (simp add: scanned_def example_binary_def)
qed

section \<open>C2: the transaction of a promotion\<close>

text \<open>
  Claim C2. For a candidate that reaches the transaction (no Release of its name and date,
  its Binary loaded, the manifest built, its group found): if the insertion of the
  Release or one of the three deletions fails, the turn returns the error and the store
  is the store before the transaction, so MakeReleases returns with every row of the
  Binary in place; if none fails, the Release is inserted and the Parts of the Binary,
  their Segments and the Binary are deleted together.
\<close>

theorem promotion_is_atomic:
  assumes "\<not> db_fails env L314 (Binary_ID b)" and "dbrel_ID s b = 0"
    and "\<not> db_fails env L325 (Binary_ID b)"
    and "First Binary_ID (filter (\<lambda>x. Binary_ID x = Binary_ID b) (tbl_binary s)) = Some row"
    and "WriteNZB env (Preload s row) = Inr nzbstr"
    and "FindGroupByName env s (Binary_Group b) = Inr g"
  shows "if db_fails env L356 (Binary_ID b) \<or> db_fails env L365 (Binary_ID b) \<or>
            db_fails env L371 (Binary_ID b) \<or> db_fails env L377 (Binary_ID b)
         then promote env s b = (Err DBFailure, s) \<and>
              MakeReleases_loop env s (b # bs) = (Err DBFailure, s)
         else promote env s b =
           (Nil,
            s\<lparr>tbl_release := tbl_release s @
                 [\<lparr>Release_ID = nextID (map Release_ID (tbl_release s)),
                   Release_Name = Binary_Name b, Release_OriginalName = Binary_Name b,
                   Release_SearchName = cleanReleaseName (Binary_Name b),
                   Release_Posted = Binary_Posted b, Release_From = Binary_From b,
                   Release_Group = g, Release_Size = Size (Preload s row),
                   Release_NZB = nzbstr\<rparr>],
              tbl_part := filter (\<lambda>p. Part_BinaryID p \<noteq> Some (Binary_ID b)) (tbl_part s),
              tbl_segment :=
                filter (\<lambda>x. Segment_PartID x \<notin>
                              Part_ID ` {p \<in> set (tbl_part s). Part_BinaryID p = Some (Binary_ID b)})
                  (tbl_segment s),
              tbl_binary := filter (\<lambda>x. Binary_ID x \<noteq> Binary_ID b) (tbl_binary s)\<rparr>)"
proof -
  have id: "Binary_ID row = Binary_ID b" using assms(4) by (rule First_filter_ID)
  note run = promote_reaches_transaction [OF assms]
  show ?thesis
  proof (cases "db_fails env L356 (Binary_ID b) \<or> db_fails env L365 (Binary_ID b) \<or>
            db_fails env L371 (Binary_ID b) \<or> db_fails env L377 (Binary_ID b)")
    case True
    then have "promote env s b = (Err DBFailure, s)"
      unfolding run by (intro transaction_fails) (simp add: id)
    with True show ?thesis by simp
  next
    case False
    then show ?thesis
      unfolding run using Preload_partids [of s row]
      by (simp add: transaction_ok id)
  qed
qed

text \<open>
  In the example the deletion of the Segments of Binary 1 fails (line 371), after the
  Release was saved and the Parts deleted inside the transaction: the store is unchanged.
\<close>

theorem promotion_is_atomic_witness:
  "promote (failing_at L371 1) two_ready (scanned (example_binary 1 ''My.Show'' 6 1))
     = (Err DBFailure, two_ready) \<and>
   MakeReleases (failing_at L371 1) two_ready = (Err DBFailure, two_ready)"
proof -
  let ?env = "failing_at L371 1"
  let ?b = "scanned (example_binary 1 ''My.Show'' 6 1)"
  have id: "Binary_ID ?b = 1" by (simp add: scanned_def example_binary_def)
  have 1: "\<not> db_fails ?env L314 (Binary_ID ?b)" "\<not> db_fails ?env L325 (Binary_ID ?b)"
    by (simp_all add: env_defs example_defs)
  have 2: "dbrel_ID two_ready ?b = 0"
    by (simp add: dbrel_ID_def First_def two_ready_def)
  have 3: "First Binary_ID (filter (\<lambda>x. Binary_ID x = Binary_ID ?b) (tbl_binary two_ready))
      = Some (example_binary 1 ''My.Show'' 6 1)"
    by (simp add: First_def example_defs)
  have 4: "WriteNZB ?env (Preload two_ready (example_binary 1 ''My.Show'' 6 1)) = Inr ''nzb''"
    by (simp add: env_defs example_defs)
  have 5: "FindGroupByName ?env two_ready (Binary_Group ?b)
      = Inr \<lparr>Group_ID = 1, Group_Name = ''g'', Group_Active = True\<rparr>"
    by (simp add: FindGroupByName_def First_def env_defs example_defs)
  have f: "db_fails ?env L371 (Binary_ID ?b)" "\<not> db_fails ?env L307 0"
    by (simp_all add: env_defs example_defs)
  from promotion_is_atomic [OF 1(1) 2 1(2) 3 4 5, of "[scanned (example_binary 2 ''Other-Show'' 5 1)]"] f
  show ?thesis
    by (simp add: MakeReleases_def two_ready_candidates)
qed

section \<open>C3: a failing candidate ends the run\<close>




section \<open>C4: a group that cannot be resolved\<close>

text \<open>
  Claim C4, on the code: when FindGroupByName returns an error for a candidate that has
  been loaded, the turn does not produce a Release. It returns the manifest builder's
  error if that fails, and otherwise panics at line 346, where the \<open>nil\<close> group is
  dereferenced; the loop ends there and the Releases are as before.
\<close>

theorem unresolved_group_panics:
  assumes "\<not> db_fails env L314 (Binary_ID b)" and "dbrel_ID s b = 0"
    and "\<not> db_fails env L325 (Binary_ID b)"
    and "First Binary_ID (filter (\<lambda>x. Binary_ID x = Binary_ID b) (tbl_binary s)) = Some row"
    and "FindGroupByName env s (Binary_Group b) = Inl e"
  shows "promote env s b =
           (case WriteNZB env (Preload s row) of Inl e' \<Rightarrow> (Err e', s) | Inr nzbstr \<Rightarrow> (Panic, s)) \<and>
         MakeReleases_loop env s (b # bs) = promote env s b \<and>
         tbl_release (snd (promote env s b)) = tbl_release s"
proof -
  have p: "promote env s b =
      (case WriteNZB env (Preload s row) of Inl e' \<Rightarrow> (Err e', s) | Inr nzbstr \<Rightarrow> (Panic, s))"
    using assms by (simp add: promote_def Let_def split: sum.splits)
  then have "fst (promote env s b) \<noteq> Nil" "snd (promote env s b) = s"
    by (simp_all split: sum.splits)
  then have "MakeReleases_loop env s (b # bs) = promote env s b"
      "tbl_release (snd (promote env s b)) = tbl_release s"
    by (cases "promote env s b"; cases "fst (promote env s b)"; simp)+
  with p show ?thesis by simp
qed

text \<open>
  The example store without its group: MakeReleases panics at the first candidate and
  the store is unchanged.
\<close>

theorem unresolved_group_panics_witness:
  "FindGroupByName (example_env [] []) no_groups ''g'' = Inl RecordNotFound \<and>
   MakeReleases (example_env [] []) no_groups = (Panic, no_groups)"
proof -
  let ?env = "example_env [] []"
  let ?b = "scanned (example_binary 1 ''My.Show'' 6 1)"
  have c: "FindReadyBinaries no_groups =
     [?b, scanned (example_binary 2 ''Other-Show'' 5 1)]"
    by (simp add: FindReadyBinaries_def no_groups_def two_ready_def having_def part_rows_def
      available_segments_def example_part_def example_segment_def example_binary_def
      sql_div_def scanned_def)
  have 1: "\<not> db_fails ?env L314 (Binary_ID ?b)" "\<not> db_fails ?env L325 (Binary_ID ?b)"
      "\<not> db_fails ?env L307 0"
    by (simp_all add: example_env_def)
  have 2: "dbrel_ID no_groups ?b = 0"
    by (simp add: dbrel_ID_def First_def no_groups_def two_ready_def)
  have 3: "First Binary_ID (filter (\<lambda>x. Binary_ID x = Binary_ID ?b) (tbl_binary no_groups))
      = Some (example_binary 1 ''My.Show'' 6 1)"
    by (simp add: First_def no_groups_def example_defs)
  have 4: "FindGroupByName ?env no_groups ''g'' = Inl RecordNotFound"
    by (simp add: FindGroupByName_def First_def no_groups_def example_defs)
  have 5: "Binary_Group ?b = ''g''" by (simp add: example_defs)
  have 6: "WriteNZB ?env (Preload no_groups (example_binary 1 ''My.Show'' 6 1)) = Inr ''nzb''"
    by (simp add: example_env_def)
  from unresolved_group_panics [OF 1(1) 2 1(2) 3, of RecordNotFound
      "[scanned (example_binary 2 ''Other-Show'' 5 1)]"] 4 5 6 1(3)
  show ?thesis by (simp add: MakeReleases_def c)
qed

section \<open>C1: the completeness query\<close>

text \<open>
  Claim C1 as stated fails, in three ways. Availability is summed over the Parts: in the
  first store the three Segments of Part 2 make up for the missing Segment of Part 1, and
  the Binary is returned with a Part under 100%. The query joins the Parts to their
  Segments, so a Part without a Segment is neither counted nor summed: in the second
  store the Binary, with \<open>total_parts = 2\<close>, has two complete Parts and a third Part with none
  of its two Segments, and it is returned; in the third store the Binary,
  with \<open>total_parts = 3\<close>, has exactly three Parts, each with \<open>available_segments\<close> equal to
  \<open>total_segments\<close>, namely 0, and it is not returned.
\<close>

theorem completeness_evaluator_counterexample:
  "example_binary 1 ''My.Show'' 6 2 \<in> set (tbl_binary surplus_store) \<and>
   map (\<lambda>p. (Part_ID p, available_segments surplus_store p, Part_TotalSegments p))
     (parts_of surplus_store (example_binary 1 ''My.Show'' 6 2)) = [(1, 1, 2), (2, 3, 2)] \<and>
   scanned (example_binary 1 ''My.Show'' 6 2) \<in> set (FindReadyBinaries surplus_store) \<and>
   example_binary 1 ''My.Show'' 6 2 \<in> set (tbl_binary empty_part_store) \<and>
   map (\<lambda>p. (Part_ID p, available_segments empty_part_store p, Part_TotalSegments p))
     (parts_of empty_part_store (example_binary 1 ''My.Show'' 6 2))
       = [(1, 2, 2), (2, 2, 2), (3, 0, 2)] \<and>
   scanned (example_binary 1 ''My.Show'' 6 2) \<in> set (FindReadyBinaries empty_part_store) \<and>
   example_binary 1 ''My.Show'' 6 3 \<in> set (tbl_binary no_segment_store) \<and>
   map (\<lambda>p. (Part_ID p, available_segments no_segment_store p, Part_TotalSegments p))
     (parts_of no_segment_store (example_binary 1 ''My.Show'' 6 3))
       = [(1, 0, 0), (2, 0, 0), (3, 0, 0)] \<and>
   scanned (example_binary 1 ''My.Show'' 6 3) \<notin> set (FindReadyBinaries no_segment_store)"
  by (simp add: FindReadyBinaries_def surplus_store_def empty_part_store_def no_segment_store_def
      having_def part_rows_def parts_of_def
      available_segments_def example_part_def example_segment_def example_binary_def
      sql_div_def scanned_def)

text \<open>
  Claim C1, amended. In a store whose Binaries have distinct keys, a Binary is returned
  by the query exactly when the number of its Parts that have a Segment is at least
  \<open>total_parts\<close> and the sum of the available segments of these Parts reaches the sum of
  their \<open>total_segments\<close>, which is positive. So a Binary with \<open>total_parts = 3\<close> and
  exactly three Parts that have a Segment, each with as many Segments as
  \<open>total_segments\<close>, is returned (in particular one with exactly three Parts, each with
  \<open>total_segments > 0\<close> and all its Segments); a Binary with fewer Parts than
  \<open>total_parts\<close>, or fewer Parts that have a Segment, is not; a Binary with a Part that
  has some and not all of its Segments is not returned when none of its Parts has more
  Segments than \<open>total_segments\<close>; and a Binary with a Part that has no Segment is not
  returned when it has at most \<open>total_parts\<close> Parts.
\<close>

theorem completeness_evaluator:
  assumes "distinct (map Binary_ID (tbl_binary s))" and "b \<in> set (tbl_binary s)"
  shows
    "(scanned b \<in> set (FindReadyBinaries s) \<longleftrightarrow>
        Binary_TotalParts b \<le> int (length (part_rows s b)) \<and>
        0 < sum_list (map Part_TotalSegments (part_rows s b)) \<and>
        sum_list (map Part_TotalSegments (part_rows s b))
          \<le> sum_list (map (available_segments s) (part_rows s b))) \<and>
     part_rows s b = filter (\<lambda>p. 0 < available_segments s p) (parts_of s b) \<and>
     (Binary_TotalParts b = 3 \<and> length (part_rows s b) = 3 \<and>
        (\<forall>p\<in>set (part_rows s b). available_segments s p = Part_TotalSegments p)
        \<longrightarrow> scanned b \<in> set (FindReadyBinaries s)) \<and>
     (Binary_TotalParts b = 3 \<and> length (parts_of s b) = 3 \<and>
        (\<forall>p\<in>set (parts_of s b). 0 < Part_TotalSegments p \<and>
            available_segments s p = Part_TotalSegments p)
        \<longrightarrow> scanned b \<in> set (FindReadyBinaries s)) \<and>
     (int (length (part_rows s b)) < Binary_TotalParts b
        \<longrightarrow> scanned b \<notin> set (FindReadyBinaries s)) \<and>
     (int (length (parts_of s b)) < Binary_TotalParts b
        \<longrightarrow> scanned b \<notin> set (FindReadyBinaries s)) \<and>
     ((\<exists>p\<in>set (parts_of s b). 0 < available_segments s p \<and>
                               available_segments s p < Part_TotalSegments p) \<and>
      (\<forall>p\<in>set (parts_of s b). available_segments s p \<le> Part_TotalSegments p)
        \<longrightarrow> scanned b \<notin> set (FindReadyBinaries s)) \<and>
     ((\<exists>p\<in>set (parts_of s b). available_segments s p = 0) \<and>
      int (length (parts_of s b)) \<le> Binary_TotalParts b
        \<longrightarrow> scanned b \<notin> set (FindReadyBinaries s))"
proof (intro conjI impI)
  note iff = returned_iff [OF assms]
  note rows = part_rows_parts_of [of s b]
  have le: "length (part_rows s b) \<le> length (parts_of s b)"
    unfolding rows by (rule length_filter_le)
  show "scanned b \<in> set (FindReadyBinaries s) \<longleftrightarrow>
        Binary_TotalParts b \<le> int (length (part_rows s b)) \<and>
        0 < sum_list (map Part_TotalSegments (part_rows s b)) \<and>
        sum_list (map Part_TotalSegments (part_rows s b))
          \<le> sum_list (map (available_segments s) (part_rows s b))"
    unfolding iff by (rule having_iff)
  show "part_rows s b = filter (\<lambda>p. 0 < available_segments s p) (parts_of s b)"
    by (rule rows)
  have three: "scanned b \<in> set (FindReadyBinaries s)"
    if h: "Binary_TotalParts b = 3" "length (part_rows s b) = 3"
        "\<forall>p\<in>set (part_rows s b). available_segments s p = Part_TotalSegments p"
  proof -
    from h have "map (available_segments s) (part_rows s b) = map Part_TotalSegments (part_rows s b)"
      by simp
    then have eq: "sum_list (map (available_segments s) (part_rows s b)) =
        sum_list (map Part_TotalSegments (part_rows s b))"
      by (simp only:)
    from h obtain p ps where ps: "part_rows s b = p # ps" by (cases "part_rows s b") auto
    then have "p \<in> set (part_rows s b)" by simp
    then have "0 < available_segments s p" by (simp add: part_rows_def)
    moreover have "0 \<le> sum_list (map (available_segments s) ps)" by (rule available_nonneg)
    ultimately have "0 < sum_list (map (available_segments s) (part_rows s b))"
      by (simp add: ps)
    with h eq show ?thesis unfolding iff having_iff by simp
  qed
  show "scanned b \<in> set (FindReadyBinaries s)"
    if "Binary_TotalParts b = 3 \<and> length (part_rows s b) = 3 \<and>
        (\<forall>p\<in>set (part_rows s b). available_segments s p = Part_TotalSegments p)"
    using that three by blast
  show "scanned b \<in> set (FindReadyBinaries s)"
    if h: "Binary_TotalParts b = 3 \<and> length (parts_of s b) = 3 \<and>
        (\<forall>p\<in>set (parts_of s b). 0 < Part_TotalSegments p \<and>
            available_segments s p = Part_TotalSegments p)"
  proof -
    from h have "\<forall>p\<in>set (parts_of s b). 0 < available_segments s p" by simp
    then have "part_rows s b = parts_of s b" unfolding rows by simp
    with h three show ?thesis by simp
  qed
  show "scanned b \<notin> set (FindReadyBinaries s)"
    if "int (length (part_rows s b)) < Binary_TotalParts b"
    using that unfolding iff having_iff by simp
  show "scanned b \<notin> set (FindReadyBinaries s)"
    if "int (length (parts_of s b)) < Binary_TotalParts b"
    using that le unfolding iff having_iff by simp
  show "scanned b \<notin> set (FindReadyBinaries s)"
    if h: "(\<exists>p\<in>set (parts_of s b). 0 < available_segments s p \<and>
                               available_segments s p < Part_TotalSegments p) \<and>
      (\<forall>p\<in>set (parts_of s b). available_segments s p \<le> Part_TotalSegments p)"
  proof -
    from h have "sum_list (map (available_segments s) (part_rows s b))
        < sum_list (map Part_TotalSegments (part_rows s b))"
      unfolding rows by (intro sum_list_strict) auto
    then show ?thesis unfolding iff having_iff by simp
  qed
  show "scanned b \<notin> set (FindReadyBinaries s)"
    if h: "(\<exists>p\<in>set (parts_of s b). available_segments s p = 0) \<and>
      int (length (parts_of s b)) \<le> Binary_TotalParts b"
  proof -
    from h obtain p where p: "p \<in> set (parts_of s b)" "available_segments s p = 0" by blast
    then have "p \<notin> set (filter (\<lambda>p. 0 < available_segments s p) (parts_of s b))" by simp
    with p(1) have "filter (\<lambda>p. 0 < available_segments s p) (parts_of s b) \<noteq> parts_of s b"
      by metis
    then have "length (filter (\<lambda>p. 0 < available_segments s p) (parts_of s b)) < length (parts_of s b)"
      using length_filter_le [of "\<lambda>p. 0 < available_segments s p" "parts_of s b"]
      by (metis filter_True le_neq_implies_less length_filter_less linorder_not_less)
    then have "length (part_rows s b) < length (parts_of s b)" unfolding rows .
    with h show ?thesis unfolding iff having_iff by simp
  qed
qed

text \<open>
  Binary 1 of the example is returned; without the Segment of its Part it is not.
\<close>

theorem completeness_evaluator_witness:
  "scanned (example_binary 1 ''My.Show'' 6 1) \<in> set (FindReadyBinaries two_ready) \<and>
   scanned (example_binary 1 ''My.Show'' 6 1)
     \<notin> set (FindReadyBinaries (two_ready\<lparr>tbl_segment := [example_segment 2 2]\<rparr>))"
proof -
  let ?b = "example_binary 1 ''My.Show'' 6 1"
  let ?s = "two_ready\<lparr>tbl_segment := [example_segment 2 2]\<rparr>"
  have d: "distinct (map Binary_ID (tbl_binary two_ready))" "?b \<in> set (tbl_binary two_ready)"
    "distinct (map Binary_ID (tbl_binary ?s))" "?b \<in> set (tbl_binary ?s)"
    by (simp_all add: two_ready_def example_binary_def)
  have r: "part_rows two_ready ?b = [(example_part 1 ''s1'' ''g'' ''f'' 6)\<lparr>Part_BinaryID := Some 1\<rparr>]"
    "available_segments two_ready ((example_part 1 ''s1'' ''g'' ''f'' 6)\<lparr>Part_BinaryID := Some 1\<rparr>) = 1"
    "part_rows ?s ?b = []"
    by (simp_all add: part_rows_def available_segments_def two_ready_def example_part_def
        example_segment_def example_binary_def)
  have t: "Binary_TotalParts ?b = 1"
    "Part_TotalSegments ((example_part 1 ''s1'' ''g'' ''f'' 6)\<lparr>Part_BinaryID := Some 1\<rparr>) = 1"
    by (simp_all add: example_binary_def example_part_def)
  from completeness_evaluator [OF d(1,2)] completeness_evaluator [OF d(3,4)]
  show ?thesis by (simp add: r t)
qed

section \<open>C6: a second run changes nothing\<close>

text \<open>
  Claim C6 as stated fails: the rows of a promoted Binary are deleted by its key, not by
  its hash. In the store that two runs of MakeBinaries leave (\<open>regrouped\<close>), Binaries 1
  and 2 have the same hash; Binary 2 is complete and is promoted; Binary 1, its Part and
  its Segment, of the same hash, remain.
\<close>

theorem MakeReleases_idempotent_counterexample:
  "wf_store regrouped \<and>
   map (\<lambda>b. (Binary_ID b, Binary_Hash b)) (tbl_binary regrouped) =
     [(1, ''9c06e4292f5b5ed6''), (2, ''9c06e4292f5b5ed6'')] \<and>
   FindReadyBinaries regrouped = [scanned (grouped_binary 2 101)] \<and>
   fst (MakeReleases (example_env [] []) regrouped) = Nil \<and>
   map (\<lambda>r. (Release_Name r, Release_Posted r))
     (tbl_release (snd (MakeReleases (example_env [] []) regrouped))) = [(''a'', 101)] \<and>
   map (\<lambda>b. (Binary_ID b, Binary_Hash b))
     (tbl_binary (snd (MakeReleases (example_env [] []) regrouped))) =
     [(1, ''9c06e4292f5b5ed6'')] \<and>
   map (\<lambda>p. (Part_ID p, Part_BinaryID p))
     (tbl_part (snd (MakeReleases (example_env [] []) regrouped))) = [(1, Some 1)] \<and>
   map (\<lambda>g. (Segment_ID g, Segment_PartID g))
     (tbl_segment (snd (MakeReleases (example_env [] []) regrouped))) = [(1, 1)]"
proof -
  have wf: "wf_store regrouped"
    by (simp add: wf_store_def regrouped_def example_part_def grouped_binary_def)
  have rows: "map (\<lambda>b. (Binary_ID b, Binary_Hash b)) (tbl_binary regrouped) =
     [(1, ''9c06e4292f5b5ed6''), (2, ''9c06e4292f5b5ed6'')]"
    by (simp add: regrouped_def grouped_binary_def)
  have run: "fst (MakeReleases (example_env [] []) regrouped) = Nil \<and>
   map (\<lambda>r. (Release_Name r, Release_Posted r))
     (tbl_release (snd (MakeReleases (example_env [] []) regrouped))) = [(''a'', 101)] \<and>
   map (\<lambda>b. (Binary_ID b, Binary_Hash b))
     (tbl_binary (snd (MakeReleases (example_env [] []) regrouped))) =
     [(1, ''9c06e4292f5b5ed6'')] \<and>
   map (\<lambda>p. (Part_ID p, Part_BinaryID p))
     (tbl_part (snd (MakeReleases (example_env [] []) regrouped))) = [(1, Some 1)] \<and>
   map (\<lambda>g. (Segment_ID g, Segment_PartID g))
     (tbl_segment (snd (MakeReleases (example_env [] []) regrouped))) = [(1, 1)]"
    unfolding MakeReleases_def regrouped_candidates
    by (simp add: promote_defs example_env_def scanned_def regrouped_def grouped_binary_def
        example_part_def example_segment_def)
  from wf rows regrouped_candidates run show ?thesis by blast
qed

text \<open>
  Claim C6, amended. In a store with unique keys, a second run of MakeReleases in the same
  environment ends as the first did and leaves the store as the first left it. After a
  run that returns \<open>nil\<close>: the promoted Binaries are candidates, one for each name and date
  of a candidate for which the store held no Release; the store has got one Release for
  each of them, in their order; the Binaries, Parts and Segments left are those of the
  Binaries not promoted (rows are deleted by the key of the Binary, whatever its hash),
  and the groups are unchanged; so each promoted Binary has exactly one Release of its
  name and date, no Binary row of its key, no Part that refers to it and no Segment of
  its Parts; and a further run leaves the store as it is, whatever fails in it.
\<close>

theorem MakeReleases_idempotent:
  assumes wf: "wf_store s" and run: "MakeReleases env s = (r, s1)"
  shows
    "MakeReleases env s1 = (r, s1) \<and>
     (r = Nil \<longrightarrow>
     set (promoted_by s) \<subseteq> set (FindReadyBinaries s) \<and>
     distinct (map bkey (promoted_by s)) \<and>
     (\<forall>c\<in>set (promoted_by s). bkey c \<notin> rkey ` set (tbl_release s)) \<and>
     (\<forall>c\<in>set (FindReadyBinaries s).
         bkey c \<in> rkey ` set (tbl_release s) \<or> bkey c \<in> bkey ` set (promoted_by s)) \<and>
     (\<exists>new. tbl_release s1 = tbl_release s @ new \<and> map rkey new = map bkey (promoted_by s)) \<and>
     tbl_binary s1 =
       filter (\<lambda>x. Binary_ID x \<notin> Binary_ID ` set (promoted_by s)) (tbl_binary s) \<and>
     tbl_part s1 =
       filter (\<lambda>p. Part_BinaryID p \<notin> Some ` Binary_ID ` set (promoted_by s)) (tbl_part s) \<and>
     tbl_segment s1 =
       filter (\<lambda>g. Segment_PartID g \<notin>
                 Part_ID ` {p \<in> set (tbl_part s).
                             Part_BinaryID p \<in> Some ` Binary_ID ` set (promoted_by s)})
         (tbl_segment s) \<and>
     tbl_group s1 = tbl_group s \<and>
     (\<forall>c\<in>set (promoted_by s).
        length (filter (\<lambda>x. Release_Name x = Binary_Name c \<and> Release_Posted x = Binary_Posted c)
                  (tbl_release s1)) = 1 \<and>
        Binary_ID c \<notin> Binary_ID ` set (tbl_binary s1) \<and>
        (\<forall>p\<in>set (tbl_part s1). Part_BinaryID p \<noteq> Some (Binary_ID c)) \<and>
        (\<forall>g\<in>set (tbl_segment s1).
            Segment_PartID g \<notin>
              Part_ID ` {p \<in> set (tbl_part s). Part_BinaryID p = Some (Binary_ID c)})) \<and>
     (\<forall>env'. snd (MakeReleases env' s1) = s1))"
proof (cases "r = Nil")
  case False
  with second_run_fails_again [OF wf run] show ?thesis by simp
next
  case True
  note run = run [unfolded True]
  from wf have dB: "distinct (map Binary_ID (tbl_binary s))"
    and dP: "distinct (map Part_ID (tbl_part s))"
    and zR: "0 \<notin> Release_ID ` set (tbl_release s)"
    by (simp_all add: wf_store_def)
  from run have l307: "\<not> db_fails env L307 0"
    and loop: "MakeReleases_loop env s (FindReadyBinaries s) = (Nil, s1)"
    by (auto simp: MakeReleases_def split: if_splits)
  define Q where "Q = promoted_by s"
  have Q: "Q = promoted (map rkey (tbl_release s)) (FindReadyBinaries s)"
    by (simp add: Q_def promoted_by_def)
  from loop_exact [OF loop zR] obtain new' where
    e1: "s1 = (without s (Binary_ID ` set Q))\<lparr>tbl_release := tbl_release s @ new'\<rparr>"
    and e2: "map rkey new' = map bkey Q"
    unfolding Q [symmetric] by blast
  have c1: "set Q \<subseteq> set (FindReadyBinaries s)" unfolding Q by (rule promoted_subset)
  have c2: "distinct (map bkey Q)" and c3': "bkey ` set Q \<inter> set (map rkey (tbl_release s)) = {}"
    unfolding Q using promoted_fresh [of "map rkey (tbl_release s)" "FindReadyBinaries s"]
    by simp_all
  have c3: "\<forall>c\<in>set Q. bkey c \<notin> rkey ` set (tbl_release s)" using c3' by auto
  have c4: "\<forall>c\<in>set (FindReadyBinaries s).
         bkey c \<in> rkey ` set (tbl_release s) \<or> bkey c \<in> bkey ` set Q"
    unfolding Q using promoted_covers [of _ "FindReadyBinaries s" "map rkey (tbl_release s)"]
    by auto
  have c5: "\<exists>new. tbl_release s1 = tbl_release s @ new \<and> map rkey new = map bkey Q"
    using e2 by (intro exI [of _ new']) (simp add: e1)
  have c6: "tbl_binary s1 = filter (\<lambda>x. Binary_ID x \<notin> Binary_ID ` set Q) (tbl_binary s)"
    and c7: "tbl_part s1 = filter (\<lambda>p. Part_BinaryID p \<notin> Some ` Binary_ID ` set Q) (tbl_part s)"
    and c8: "tbl_segment s1 =
       filter (\<lambda>g. Segment_PartID g \<notin>
                 Part_ID ` {p \<in> set (tbl_part s). Part_BinaryID p \<in> Some ` Binary_ID ` set Q})
         (tbl_segment s)"
    and c9: "tbl_group s1 = tbl_group s"
    and tR': "tbl_release s1 = tbl_release s @ new'"
    by (simp_all add: e1 without_def)
  have c10: "\<forall>c\<in>set Q.
        length (filter (\<lambda>x. Release_Name x = Binary_Name c \<and> Release_Posted x = Binary_Posted c)
                  (tbl_release s1)) = 1 \<and>
        Binary_ID c \<notin> Binary_ID ` set (tbl_binary s1) \<and>
        (\<forall>p\<in>set (tbl_part s1). Part_BinaryID p \<noteq> Some (Binary_ID c)) \<and>
        (\<forall>g\<in>set (tbl_segment s1).
            Segment_PartID g \<notin>
              Part_ID ` {p \<in> set (tbl_part s). Part_BinaryID p = Some (Binary_ID c)})"
  proof
    fix c assume c: "c \<in> set Q"
    with c3 have "bkey c \<notin> rkey ` set (tbl_release s)" by blast
    then have "filter (\<lambda>r. rkey r = bkey c) (tbl_release s) = []"
      unfolding filter_empty_conv by (metis imageI)
    moreover have "distinct (map rkey new')" "bkey c \<in> rkey ` set new'"
      using c2 c e2 by (simp_all, metis image_eqI list.set_map)
    then have "length (filter (\<lambda>r. rkey r = bkey c) new') = 1" by (rule count_distinct_key)
    ultimately have "length (filter (\<lambda>r. rkey r = bkey c) (tbl_release s1)) = 1"
      by (simp add: tR')
    then have 1: "length (filter (\<lambda>x. Release_Name x = Binary_Name c \<and> Release_Posted x = Binary_Posted c)
                  (tbl_release s1)) = 1"
      by (simp add: rkey_def bkey_def)
    have inQ: "Binary_ID c \<in> Binary_ID ` set Q" using c by (rule imageI)
    then have inS: "Some (Binary_ID c) \<in> Some ` Binary_ID ` set Q" by (rule imageI)
    have 2: "Binary_ID c \<notin> Binary_ID ` set (tbl_binary s1)"
    proof
      assume "Binary_ID c \<in> Binary_ID ` set (tbl_binary s1)"
      then obtain x where "x \<in> set (tbl_binary s1)" "Binary_ID c = Binary_ID x" by blast
      then have "Binary_ID c \<notin> Binary_ID ` set Q" by (simp add: c6)
      with inQ show False by simp
    qed
    have 3: "\<forall>p\<in>set (tbl_part s1). Part_BinaryID p \<noteq> Some (Binary_ID c)"
    proof
      fix p assume "p \<in> set (tbl_part s1)"
      then have "Part_BinaryID p \<notin> Some ` Binary_ID ` set Q" by (simp add: c7)
      with inS show "Part_BinaryID p \<noteq> Some (Binary_ID c)" by metis
    qed
    have 4: "\<forall>g\<in>set (tbl_segment s1).
            Segment_PartID g \<notin>
              Part_ID ` {p \<in> set (tbl_part s). Part_BinaryID p = Some (Binary_ID c)}"
    proof
      fix g assume "g \<in> set (tbl_segment s1)"
      then have g: "Segment_PartID g \<notin>
          Part_ID ` {p \<in> set (tbl_part s). Part_BinaryID p \<in> Some ` Binary_ID ` set Q}"
        by (simp add: c8)
      have "{p \<in> set (tbl_part s). Part_BinaryID p = Some (Binary_ID c)} \<subseteq>
            {p \<in> set (tbl_part s). Part_BinaryID p \<in> Some ` Binary_ID ` set Q}"
        using inS by auto
      then have "Part_ID ` {p \<in> set (tbl_part s). Part_BinaryID p = Some (Binary_ID c)} \<subseteq>
            Part_ID ` {p \<in> set (tbl_part s). Part_BinaryID p \<in> Some ` Binary_ID ` set Q}"
        by (rule image_mono)
      with g show "Segment_PartID g \<notin>
              Part_ID ` {p \<in> set (tbl_part s). Part_BinaryID p = Some (Binary_ID c)}"
        by blast
    qed
    from 1 2 3 4 show "length (filter (\<lambda>x. Release_Name x = Binary_Name c \<and> Release_Posted x = Binary_Posted c)
                  (tbl_release s1)) = 1 \<and>
        Binary_ID c \<notin> Binary_ID ` set (tbl_binary s1) \<and>
        (\<forall>p\<in>set (tbl_part s1). Part_BinaryID p \<noteq> Some (Binary_ID c)) \<and>
        (\<forall>g\<in>set (tbl_segment s1).
            Segment_PartID g \<notin>
              Part_ID ` {p \<in> set (tbl_part s). Part_BinaryID p = Some (Binary_ID c)})"
      by blast
  qed
  from loop_effect [OF loop zR candidates_distinct [OF dB]]
  obtain P new where P: "P \<subseteq> Binary_ID ` set (FindReadyBinaries s)"
    and s1: "s1 = (without s P)\<lparr>tbl_release := tbl_release s @ new\<rparr>"
    and zN: "0 \<notin> Release_ID ` set new"
    and cs: "\<forall>c\<in>set (FindReadyBinaries s). \<not> db_fails env L314 (Binary_ID c) \<and>
          (if Binary_ID c \<in> P then bkey c \<in> rkey ` set new
           else bkey c \<in> rkey ` set (tbl_release s) \<union> rkey ` set new)"
    by blast
  have tB: "tbl_binary s1 = filter (\<lambda>x. Binary_ID x \<notin> P) (tbl_binary s)"
    and tR: "tbl_release s1 = tbl_release s @ new"
    by (simp_all add: s1 without_def)
  have zR1: "0 \<notin> Release_ID ` set (tbl_release s1)"
    using zR zN by (auto simp: tR)
  have skip: "dbrel_ID s1 c \<noteq> 0 \<and> \<not> db_fails env L314 (Binary_ID c)"
    if c: "c \<in> set (FindReadyBinaries s1)" for c
  proof -
    from c obtain b where b: "b \<in> set (tbl_binary s1)" "having s1 b" "c = scanned b"
      by (auto simp: set_FindReadyBinaries)
    from b(1) have bs: "b \<in> set (tbl_binary s)" and nP: "Binary_ID b \<notin> P" by (simp_all add: tB)
    from b(2) have "having s b" unfolding s1 having_without [OF dP nP] .
    with bs b(3) have cand: "c \<in> set (FindReadyBinaries s)" by (auto simp: set_FindReadyBinaries)
    from nP b(3) have "Binary_ID c \<notin> P" by simp
    with cs cand have "\<not> db_fails env L314 (Binary_ID c)"
      "bkey c \<in> rkey ` set (tbl_release s) \<union> rkey ` set new" by auto
    then have "\<not> db_fails env L314 (Binary_ID c)"
      "bkey c \<in> rkey ` set (tbl_release s1)" by (simp_all add: tR image_Un)
    with dbrel_ID_key [OF zR1, of c] show ?thesis by simp
  qed
  have B1: "MakeReleases env s1 = (Nil, s1)"
    using l307 loop_all_skip(2) [of "FindReadyBinaries s1" s1 env] skip
    by (simp add: MakeReleases_def)
  have B2: "\<forall>env'. snd (MakeReleases env' s1) = s1"
  proof
    fix env'
    show "snd (MakeReleases env' s1) = s1"
      using loop_all_skip(1) [of "FindReadyBinaries s1" s1 env'] skip
      by (simp add: MakeReleases_def)
  qed
  from c1 c2 c3 c4 c5 c6 c7 c8 c9 c10 B2
  have effect: "set (promoted_by s) \<subseteq> set (FindReadyBinaries s) \<and>
     distinct (map bkey (promoted_by s)) \<and>
     (\<forall>c\<in>set (promoted_by s). bkey c \<notin> rkey ` set (tbl_release s)) \<and>
     (\<forall>c\<in>set (FindReadyBinaries s).
         bkey c \<in> rkey ` set (tbl_release s) \<or> bkey c \<in> bkey ` set (promoted_by s)) \<and>
     (\<exists>new. tbl_release s1 = tbl_release s @ new \<and> map rkey new = map bkey (promoted_by s)) \<and>
     tbl_binary s1 =
       filter (\<lambda>x. Binary_ID x \<notin> Binary_ID ` set (promoted_by s)) (tbl_binary s) \<and>
     tbl_part s1 =
       filter (\<lambda>p. Part_BinaryID p \<notin> Some ` Binary_ID ` set (promoted_by s)) (tbl_part s) \<and>
     tbl_segment s1 =
       filter (\<lambda>g. Segment_PartID g \<notin>
                 Part_ID ` {p \<in> set (tbl_part s).
                             Part_BinaryID p \<in> Some ` Binary_ID ` set (promoted_by s)})
         (tbl_segment s) \<and>
     tbl_group s1 = tbl_group s \<and>
     (\<forall>c\<in>set (promoted_by s).
        length (filter (\<lambda>x. Release_Name x = Binary_Name c \<and> Release_Posted x = Binary_Posted c)
                  (tbl_release s1)) = 1 \<and>
        Binary_ID c \<notin> Binary_ID ` set (tbl_binary s1) \<and>
        (\<forall>p\<in>set (tbl_part s1). Part_BinaryID p \<noteq> Some (Binary_ID c)) \<and>
        (\<forall>g\<in>set (tbl_segment s1).
            Segment_PartID g \<notin>
              Part_ID ` {p \<in> set (tbl_part s). Part_BinaryID p = Some (Binary_ID c)})) \<and>
     (\<forall>env'. snd (MakeReleases env' s1) = s1)"
    unfolding Q_def by (intro conjI)
  from B1 True have again: "MakeReleases env s1 = (r, s1)" by simp
  show ?thesis by (rule conjI [OF again]) (rule impI, rule effect)
qed

text \<open>
  The example: the first run promotes Binary 1 and skips Binary 2; the second run changes
  nothing.
\<close>

theorem MakeReleases_idempotent_witness:
  "wf_store (with_release two_ready ''Other-Show'' 5) \<and>
   MakeReleases (example_env [] []) (with_release two_ready ''Other-Show'' 5) = (Nil, after_run) \<and>
   promoted_by (with_release two_ready ''Other-Show'' 5) =
     [scanned (example_binary 1 ''My.Show'' 6 1)] \<and>
   MakeReleases (example_env [] []) after_run = (Nil, after_run) \<and>
   length (filter (\<lambda>r. Release_Name r = ''My.Show'' \<and> Release_Posted r = 6) (tbl_release after_run)) = 1 \<and>
   map Binary_ID (tbl_binary after_run) = [2]"
proof -
  have wf: "wf_store (with_release two_ready ''Other-Show'' 5)"
    by (simp add: wf_store_def with_release_def two_ready_def example_part_def
        example_binary_def nextID_def)
  have pr: "promoted_by (with_release two_ready ''Other-Show'' 5) =
     [scanned (example_binary 1 ''My.Show'' 6 1)]"
    unfolding promoted_by_def with_release_candidates
    by (simp add: with_release_def two_ready_def rkey_def bkey_def scanned_def example_binary_def)
  from MakeReleases_idempotent [OF wf first_run]
  have "MakeReleases (example_env [] []) after_run = (Nil, after_run)" by blast
  with wf pr first_run show ?thesis by (simp add: after_run_def example_binary_def)
qed

section \<open>Facts about MakeBinaries\<close>

lemma binhashOf_Some:
  "binhashOf env p = Some h \<longleftrightarrow>
     partcounts env p \<noteq> None \<and>
     h = makeBinaryHash (nameOf env p) (Part_Group p) (Part_From p) (totalOf env p)"
proof (cases "partcounts env p")
  case None
  then show ?thesis by (simp add: binhashOf_def)
next
  case (Some pc)
  from partcounts_Some [OF Some] obtain idx tot where "pc = [idx, tot]" by blast
  with Some show ?thesis by (auto simp: binhashOf_def nameOf_def totalOf_def)
qed

lemma binhashOf_None: "binhashOf env p = None \<longleftrightarrow> partcounts env p = None"
  using binhashOf_Some [of env p] by (cases "binhashOf env p") auto

lemma groupPart_skip: "binhashOf env p = None \<Longrightarrow> groupPart env p (bins, sc) = (Nil, bins, sc)"
  by (simp add: binhashOf_None groupPart_def)

lemma groupPart_accept:
  assumes "binhashOf env p = Some h"
  shows "groupPart env p (bins, sc) =
     (if db_fails env L269 (Part_ID p) then (Err DBFailure, bins, sc)
      else (Nil, bins(h \<mapsto> fst (Save_Binary sc (binaryFor bins h (nameOf env p) (totalOf env p) p))),
            snd (Save_Binary sc (binaryFor bins h (nameOf env p) (totalOf env p) p))))"
proof -
  from assms obtain pc where pc: "partcounts env p = Some pc"
    by (auto simp: binhashOf_Some)
  from partcounts_Some [OF pc] obtain idx tot where l: "pc = [idx, tot]" by blast
  with pc have t: "totalOf env p = tot" by (simp add: totalOf_def)
  from assms pc l have h: "h = makeBinaryHash (nameOf env p) (Part_Group p) (Part_From p) tot"
    by (simp add: binhashOf_def nameOf_def)
  show ?thesis
    using pc l by (simp add: groupPart_def Let_def t h nameOf_def split: prod.splits)
qed

lemma upsert_same:
  assumes "distinct (map key rows)" "row \<in> set rows"
  shows "upsert key row rows = rows"
proof -
  have "map (\<lambda>r. if key r = key row then row else r) rows = rows"
  proof (rule map_idI)
    fix r assume "r \<in> set rows"
    with assms show "(if key r = key row then row else r) = r"
      by (auto dest: inj_onD simp: distinct_map)
  qed
  with assms(2) show ?thesis by (simp add: upsert_def)
qed

lemma fold_upsert_same:
  "distinct (map key rows) \<Longrightarrow> \<forall>q\<in>set qs. q \<in> set rows \<Longrightarrow> fold (upsert key) qs rows = rows"
  by (induction qs) (simp_all add: upsert_same)

lemma upsert_at:
  assumes "distinct (map key rows)" "r0 \<in> set rows" "key row = key r0"
  shows "upsert key row rows = map (\<lambda>r. if r = r0 then row else r) rows"
proof -
  have "map (\<lambda>r. if key r = key row then row else r) rows = map (\<lambda>r. if r = r0 then row else r) rows"
  proof (rule map_cong [OF refl])
    fix r assume "r \<in> set rows"
    with assms show "(if key r = key row then row else r) = (if r = r0 then row else r)"
      by (auto dest: inj_onD simp: distinct_map)
  qed
  moreover have "key row \<in> key ` set rows" using assms(2,3) by auto
  ultimately show ?thesis by (simp add: upsert_def)
qed

lemma save_new:
  assumes "bins h = None" and n: "n = nextID (map Binary_ID (tbl_binary sc))"
  shows "Save_Binary sc (binaryFor bins h (nameOf env p) (totalOf env p) p) =
     (binaryOf env h [p] n,
      sc\<lparr>tbl_binary := tbl_binary sc @ [(binaryOf env h [p] n)\<lparr>Binary_Parts := []\<rparr>],
         tbl_part := upsert Part_ID (p\<lparr>Part_BinaryID := Some n\<rparr>) (tbl_part sc)\<rparr>)"
proof -
  have "n \<notin> Binary_ID ` set (tbl_binary sc)"
    using nextID_fresh [of "map Binary_ID (tbl_binary sc)"] by (simp add: n)
  then have "upsert Binary_ID ((binaryOf env h [p] n)\<lparr>Binary_Parts := []\<rparr>) (tbl_binary sc) =
      tbl_binary sc @ [(binaryOf env h [p] n)\<lparr>Binary_Parts := []\<rparr>]"
    by (simp add: upsert_def binaryOf_def)
  then show ?thesis
    using assms(1) by (simp add: Save_Binary_def binaryFor_def binaryOf_def Let_def n)
qed

lemma binaryOf_row:
  "ps \<noteq> [] \<Longrightarrow>
   (binaryOf env h (ps @ [p]) i)\<lparr>Binary_Parts := []\<rparr> = (binaryOf env h ps i)\<lparr>Binary_Parts := []\<rparr>"
  by (simp add: binaryOf_def)

lemma save_old:
  assumes "bins h = Some (binaryOf env h ps i)" "i \<noteq> 0" "ps \<noteq> []"
  shows "Save_Binary sc (binaryFor bins h (nameOf env p) (totalOf env p) p) =
     (binaryOf env h (ps @ [p]) i,
      sc\<lparr>tbl_binary := upsert Binary_ID ((binaryOf env h ps i)\<lparr>Binary_Parts := []\<rparr>) (tbl_binary sc),
         tbl_part := fold (upsert Part_ID)
                       (map (\<lambda>q. q\<lparr>Part_BinaryID := Some i\<rparr>) (ps @ [p])) (tbl_part sc)\<rparr>)"
  using assms by (simp add: Save_Binary_def binaryFor_def binaryOf_def Let_def comp_def)

lemma regroup_ID [simp]: "Part_ID (regroup env pre bins q) = Part_ID q"
  by (simp add: regroup_def split: option.splits)

lemma hits_append: "hits env (pre @ [p]) h =
    (if binhashOf env p = Some h then hits env pre h @ [p] else hits env pre h)"
  by (simp add: hits_def)

lemma grouped_skip:
  assumes "grouped env s pre bins sc" "binhashOf env p = None"
  shows "grouped env s (pre @ [p]) bins sc"
proof -
  have h: "hits env (pre @ [p]) h = hits env pre h" for h
    using assms(2) by (simp add: hits_append)
  have r: "regroup env (pre @ [p]) bins = regroup env pre bins"
    using assms(2) by (auto simp: regroup_def fun_eq_iff)
  from assms(1) show ?thesis
    unfolding grouped_def h r using assms(2) by auto
qed

lemma upsert_same_key:
  assumes "row \<in> set rows" "\<forall>r\<in>set rows. key r = key row \<longrightarrow> r = row"
  shows "upsert key row rows = rows"
proof -
  have "map (\<lambda>r. if key r = key row then row else r) rows = rows"
    by (rule map_idI) (use assms(2) in auto)
  with assms(1) show ?thesis by (simp add: upsert_def)
qed

lemma grouped_accept:
  assumes inv: "grouped env s pre bins sc"
    and dP: "distinct (map Part_ID (tbl_part s))"
    and sub: "set pre \<subseteq> set (tbl_part s)" and pin: "p \<in> set (tbl_part s)" and pnew: "p \<notin> set pre"
    and h: "binhashOf env p = Some h"
    and sv: "Save_Binary sc (binaryFor bins h (nameOf env p) (totalOf env p) p) = (b', sc')"
  shows "grouped env s (pre @ [p]) (bins(h \<mapsto> b')) sc'"
proof -
  from inv obtain hs where
    frame: "tbl_group sc = tbl_group s" "tbl_segment sc = tbl_segment s" "tbl_release sc = tbl_release s"
    and hs: "distinct hs" "set hs = dom bins"
    and tb: "tbl_binary sc = tbl_binary s @ map (\<lambda>h. (the (bins h))\<lparr>Binary_Parts := []\<rparr>) hs"
    and inj: "inj_on (\<lambda>h. Binary_ID (the (bins h))) (set hs)"
    and fresh: "\<forall>h\<in>set hs. Binary_ID (the (bins h)) \<notin> Binary_ID ` set (tbl_binary s)"
    and c: "\<forall>h b. bins h = Some b \<longrightarrow>
        hits env pre h \<noteq> [] \<and> Binary_ID b \<noteq> 0 \<and> b = binaryOf env h (hits env pre h) (Binary_ID b)"
    and c': "\<forall>p\<in>set pre. \<forall>h. binhashOf env p = Some h \<longrightarrow> bins h \<noteq> None"
    and tp: "tbl_part sc = map (regroup env pre bins) (tbl_part s)"
    unfolding grouped_def by blast
  let ?T = "tbl_part sc"
  have dT: "distinct (map Part_ID ?T)" using dP by (simp add: tp comp_def)
  have pT: "p \<in> set ?T"
  proof -
    have "regroup env pre bins p = p" using pnew by (simp add: regroup_def)
    with pin show ?thesis unfolding tp by (metis image_eqI list.set_map)
  qed
  have hits_other: "hits env (pre @ [p]) k = hits env pre k" if "k \<noteq> h" for k
    using that h by (simp add: hits_append)
  have hits_h: "hits env (pre @ [p]) h = hits env pre h @ [p]"
    using h by (simp add: hits_append)
  text \<open>The key of the Binary and the effect on the two tables, in both cases.\<close>
  have main: "\<exists>i. i \<noteq> 0 \<and> b' = binaryOf env h (hits env pre h @ [p]) i \<and>
      (case bins h of Some b0 \<Rightarrow> i = Binary_ID b0 \<and> tbl_binary sc' = tbl_binary sc
       | None \<Rightarrow> i \<notin> Binary_ID ` set (tbl_binary sc) \<and>
           tbl_binary sc' = tbl_binary sc @ [b'\<lparr>Binary_Parts := []\<rparr>]) \<and>
      tbl_part sc' = upsert Part_ID (p\<lparr>Part_BinaryID := Some i\<rparr>) ?T \<and>
      tbl_group sc' = tbl_group sc \<and> tbl_segment sc' = tbl_segment sc \<and>
      tbl_release sc' = tbl_release sc"
  proof (cases "bins h")
    case None
    define n where "n = nextID (map Binary_ID (tbl_binary sc))"
    have e: "hits env pre h = []"
    proof (rule ccontr)
      assume "hits env pre h \<noteq> []"
      then obtain q where "q \<in> set (hits env pre h)"
        by (cases "hits env pre h") auto
      then have "q \<in> set pre" "binhashOf env q = Some h" by (simp_all add: hits_def)
      with c' None show False by blast
    qed
    have "n \<noteq> 0" using nextID_pos [of "map Binary_ID (tbl_binary sc)"] by (simp add: n_def)
    moreover have "n \<notin> Binary_ID ` set (tbl_binary sc)"
      using nextID_fresh [of "map Binary_ID (tbl_binary sc)"] by (simp add: n_def)
    ultimately show ?thesis
      using sv None
      unfolding save_new [where bins = bins and h = h and n = n and sc = sc and env = env and p = p,
          OF None n_def]
      by (intro exI [of _ n]) (auto simp: e)
  next
    case (Some b0)
    with c have b0: "hits env pre h \<noteq> []" "Binary_ID b0 \<noteq> 0"
      "b0 = binaryOf env h (hits env pre h) (Binary_ID b0)" by blast+
    let ?i = "Binary_ID b0"
    from Some b0(3) have bh: "bins h = Some (binaryOf env h (hits env pre h) ?i)" by simp
    note s = save_old [where bins = bins and h = h and env = env and ps = "hits env pre h"
        and i = "?i" and sc = sc and p = p, OF bh b0(2) b0(1)]
    have hin: "h \<in> set hs" using hs(2) Some by auto
    have row: "b0\<lparr>Binary_Parts := []\<rparr> \<in> set (tbl_binary sc)"
      using hin Some unfolding tb by force
    have uniq: "\<forall>r\<in>set (tbl_binary sc). Binary_ID r = ?i \<longrightarrow> r = b0\<lparr>Binary_Parts := []\<rparr>"
    proof (intro ballI impI)
      fix r assume r: "r \<in> set (tbl_binary sc)" "Binary_ID r = ?i"
      from fresh hin Some have "?i \<notin> Binary_ID ` set (tbl_binary s)" by force
      with r(2) have "r \<notin> set (tbl_binary s)" by (metis imageI)
      with r(1) have "r \<in> set (map (\<lambda>h. (the (bins h))\<lparr>Binary_Parts := []\<rparr>) hs)"
        unfolding tb by auto
      then obtain k where k: "k \<in> set hs" "r = (the (bins k))\<lparr>Binary_Parts := []\<rparr>" by auto
      with r(2) Some have "Binary_ID (the (bins k)) = Binary_ID (the (bins h))" by simp
      with inj k(1) hin have "k = h" by (auto dest: inj_onD)
      with k(2) Some show "r = b0\<lparr>Binary_Parts := []\<rparr>" by simp
    qed
    have tbin: "upsert Binary_ID (b0\<lparr>Binary_Parts := []\<rparr>) (tbl_binary sc) = tbl_binary sc"
      by (rule upsert_same_key [OF row]) (use uniq in auto)
    have old: "\<forall>q\<in>set (map (\<lambda>q. q\<lparr>Part_BinaryID := Some ?i\<rparr>) (hits env pre h)). q \<in> set ?T"
    proof
      fix q' assume "q' \<in> set (map (\<lambda>q. q\<lparr>Part_BinaryID := Some ?i\<rparr>) (hits env pre h))"
      then obtain q where q: "q \<in> set pre" "binhashOf env q = Some h" "q' = q\<lparr>Part_BinaryID := Some ?i\<rparr>"
        by (auto simp: hits_def)
      then have "regroup env pre bins q = q'" using Some by (simp add: regroup_def)
      moreover have "q \<in> set (tbl_part s)" using q(1) sub by auto
      ultimately show "q' \<in> set ?T" unfolding tp by (metis image_eqI list.set_map)
    qed
    have tpart: "fold (upsert Part_ID) (map (\<lambda>q. q\<lparr>Part_BinaryID := Some ?i\<rparr>) (hits env pre h @ [p])) ?T
        = upsert Part_ID (p\<lparr>Part_BinaryID := Some ?i\<rparr>) ?T"
      using fold_upsert_same [OF dT old] by simp
    from sv [unfolded s] b0(3) have "b' = binaryOf env h (hits env pre h @ [p]) ?i"
      "sc' = sc\<lparr>tbl_binary := tbl_binary sc, tbl_part := upsert Part_ID (p\<lparr>Part_BinaryID := Some ?i\<rparr>) ?T\<rparr>"
      using tbin tpart by (simp_all add: b0(3) [symmetric])
    with b0(2) Some show ?thesis by (intro exI [of _ ?i]) simp
  qed
  then obtain i where i: "i \<noteq> 0" and b': "b' = binaryOf env h (hits env pre h @ [p]) i"
    and bcase: "case bins h of Some b0 \<Rightarrow> i = Binary_ID b0 \<and> tbl_binary sc' = tbl_binary sc
       | None \<Rightarrow> i \<notin> Binary_ID ` set (tbl_binary sc) \<and>
           tbl_binary sc' = tbl_binary sc @ [b'\<lparr>Binary_Parts := []\<rparr>]"
    and tp': "tbl_part sc' = upsert Part_ID (p\<lparr>Part_BinaryID := Some i\<rparr>) ?T"
    and frame': "tbl_group sc' = tbl_group sc" "tbl_segment sc' = tbl_segment sc"
      "tbl_release sc' = tbl_release sc"
    by blast
  have idb': "Binary_ID b' = i" by (simp add: b' binaryOf_def)
  let ?bins = "bins(h \<mapsto> b')"
  let ?hs = "if bins h = None then hs @ [h] else hs"
  text \<open>The Binary table.\<close>
  have B: "distinct ?hs \<and> set ?hs = dom ?bins \<and>
        tbl_binary sc' = tbl_binary s @ map (\<lambda>h. (the (?bins h))\<lparr>Binary_Parts := []\<rparr>) ?hs \<and>
        inj_on (\<lambda>h. Binary_ID (the (?bins h))) (set ?hs) \<and>
        (\<forall>h\<in>set ?hs. Binary_ID (the (?bins h)) \<notin> Binary_ID ` set (tbl_binary s))"
  proof (cases "bins h")
    case None
    then have hn: "h \<notin> set hs" using hs(2) by auto
    from None bcase have inew: "i \<notin> Binary_ID ` set (tbl_binary sc)"
      and t': "tbl_binary sc' = tbl_binary sc @ [b'\<lparr>Binary_Parts := []\<rparr>]" by simp_all
    have m: "map (\<lambda>k. (the (?bins k))\<lparr>Binary_Parts := []\<rparr>) hs =
        map (\<lambda>k. (the (bins k))\<lparr>Binary_Parts := []\<rparr>) hs"
      by (rule map_cong [OF refl]) (use hn in auto)
    have 1: "distinct (hs @ [h])" using hs(1) hn by simp
    have 2: "set (hs @ [h]) = dom ?bins" using hs(2) by auto
    have 3: "tbl_binary sc' = tbl_binary s @ map (\<lambda>k. (the (?bins k))\<lparr>Binary_Parts := []\<rparr>) (hs @ [h])"
      using hn by (simp add: t' tb)
    have ids: "\<forall>k\<in>set hs. Binary_ID (the (bins k)) \<in> Binary_ID ` set (tbl_binary sc)"
    proof
      fix k assume "k \<in> set hs"
      then have "(the (bins k))\<lparr>Binary_Parts := []\<rparr> \<in> set (tbl_binary sc)"
        unfolding tb by simp
      then have "Binary_ID ((the (bins k))\<lparr>Binary_Parts := []\<rparr>) \<in> Binary_ID ` set (tbl_binary sc)"
        by (rule imageI)
      then show "Binary_ID (the (bins k)) \<in> Binary_ID ` set (tbl_binary sc)" by simp
    qed
    have 4: "inj_on (\<lambda>k. Binary_ID (the (?bins k))) (set (hs @ [h]))"
    proof (rule inj_onI)
      fix x y assume xy: "x \<in> set (hs @ [h])" "y \<in> set (hs @ [h])"
        "Binary_ID (the (?bins x)) = Binary_ID (the (?bins y))"
      show "x = y"
      proof (cases "x = h"; cases "y = h")
        assume "x = h" "y \<noteq> h"
        with xy ids inew idb' show ?thesis by auto
      next
        assume "x \<noteq> h" "y = h"
        with xy ids inew idb' show ?thesis by auto
      next
        assume "x \<noteq> h" "y \<noteq> h"
        with xy inj show ?thesis by (auto dest: inj_onD)
      qed simp
    qed
    have 5: "\<forall>k\<in>set (hs @ [h]). Binary_ID (the (?bins k)) \<notin> Binary_ID ` set (tbl_binary s)"
    proof
      fix k assume k: "k \<in> set (hs @ [h])"
      show "Binary_ID (the (?bins k)) \<notin> Binary_ID ` set (tbl_binary s)"
      proof (cases "k = h")
        case True
        with inew idb' show ?thesis unfolding tb by auto
      next
        case False
        with k fresh show ?thesis by auto
      qed
    qed
    from None 1 2 3 4 5 show ?thesis by simp
  next
    case (Some b0)
    then have hin: "h \<in> set hs" using hs(2) by auto
    from Some bcase have ii: "i = Binary_ID b0" and t': "tbl_binary sc' = tbl_binary sc" by simp_all
    from Some c have b0: "hits env pre h \<noteq> []" "b0 = binaryOf env h (hits env pre h) (Binary_ID b0)"
      by blast+
    have rowe: "b'\<lparr>Binary_Parts := []\<rparr> = b0\<lparr>Binary_Parts := []\<rparr>"
      unfolding b' ii using binaryOf_row [OF b0(1)] b0(2) by metis
    have m: "map (\<lambda>k. (the (?bins k))\<lparr>Binary_Parts := []\<rparr>) hs =
        map (\<lambda>k. (the (bins k))\<lparr>Binary_Parts := []\<rparr>) hs"
    proof (rule map_cong [OF refl])
      fix k assume "k \<in> set hs"
      show "(the (?bins k))\<lparr>Binary_Parts := []\<rparr> = (the (bins k))\<lparr>Binary_Parts := []\<rparr>"
      proof (cases "k = h")
        case True
        then have "the (?bins k) = b'" "the (bins k) = b0" using Some by simp_all
        with rowe show ?thesis by (simp only:)
      next
        case False
        then show ?thesis by simp
      qed
    qed
    have ide: "Binary_ID (the (?bins k)) = Binary_ID (the (bins k))" for k
      using Some idb' ii by simp
    have 2: "set hs = dom ?bins" using hs(2) Some by auto
    from Some hs(1) 2 t' tb m inj fresh show ?thesis
      by (simp add: ide del: fun_upd_apply)
  qed
  text \<open>The Binaries of the map.\<close>
  have C: "\<forall>k b. ?bins k = Some b \<longrightarrow>
        hits env (pre @ [p]) k \<noteq> [] \<and> Binary_ID b \<noteq> 0 \<and>
        b = binaryOf env k (hits env (pre @ [p]) k) (Binary_ID b)"
  proof (intro allI impI)
    fix k b assume kb: "?bins k = Some b"
    show "hits env (pre @ [p]) k \<noteq> [] \<and> Binary_ID b \<noteq> 0 \<and>
        b = binaryOf env k (hits env (pre @ [p]) k) (Binary_ID b)"
    proof (cases "k = h")
      case True
      with kb have "b = b'" by simp
      with True i idb' b' show ?thesis by (simp add: hits_h)
    next
      case False
      with kb have "bins k = Some b" by simp
      with c hits_other [OF False] show ?thesis by simp
    qed
  qed
  have C': "\<forall>q\<in>set (pre @ [p]). \<forall>k. binhashOf env q = Some k \<longrightarrow> ?bins k \<noteq> None"
    using c' h by auto
  text \<open>The Part table.\<close>
  have D: "tbl_part sc' = map (regroup env (pre @ [p]) ?bins) (tbl_part s)"
  proof -
    have "tbl_part sc' = map (\<lambda>r. if r = p then p\<lparr>Part_BinaryID := Some i\<rparr> else r) ?T"
      unfolding tp' by (rule upsert_at [OF dT pT]) simp
    also have "\<dots> = map (regroup env (pre @ [p]) ?bins) (tbl_part s)"
      unfolding tp map_map
    proof (rule map_cong [OF refl])
      fix q assume q: "q \<in> set (tbl_part s)"
      show "((\<lambda>r. if r = p then p\<lparr>Part_BinaryID := Some i\<rparr> else r) \<circ> regroup env pre bins) q =
          regroup env (pre @ [p]) ?bins q"
      proof (cases "q = p")
        case True
        with pnew h idb' show ?thesis by (simp add: regroup_def)
      next
        case False
        with q pin dP have "Part_ID q \<noteq> Part_ID p" by (auto simp: distinct_map dest: inj_onD)
        then have ne: "regroup env pre bins q \<noteq> p" by (metis regroup_ID)
        have "regroup env (pre @ [p]) ?bins q = regroup env pre bins q"
        proof (cases "q \<in> set pre")
          case True
          show ?thesis
          proof (cases "binhashOf env q")
            case None
            with True show ?thesis by (simp add: regroup_def)
          next
            case (Some k)
            show ?thesis
            proof (cases "k = h")
              case True
              with Some \<open>q \<in> set pre\<close> c' obtain b0 where b0: "bins h = Some b0" by blast
              with bcase have "i = Binary_ID b0" by simp
              with Some True b0 \<open>q \<in> set pre\<close> idb' show ?thesis by (simp add: regroup_def)
            next
              case False
              with Some \<open>q \<in> set pre\<close> show ?thesis by (simp add: regroup_def)
            qed
          qed
        next
          case False
          with \<open>q \<noteq> p\<close> show ?thesis by (simp add: regroup_def)
        qed
        with ne show ?thesis by simp
      qed
    qed
    finally show ?thesis .
  qed
  have E: "\<exists>hs. distinct hs \<and> set hs = dom ?bins \<and>
        tbl_binary sc' = tbl_binary s @ map (\<lambda>h. (the (?bins h))\<lparr>Binary_Parts := []\<rparr>) hs \<and>
        inj_on (\<lambda>h. Binary_ID (the (?bins h))) (set hs) \<and>
        (\<forall>h\<in>set hs. Binary_ID (the (?bins h)) \<notin> Binary_ID ` set (tbl_binary s))"
    by (rule exI [where x = ?hs]) (rule B)
  have F: "tbl_group sc' = tbl_group s" "tbl_segment sc' = tbl_segment s"
    "tbl_release sc' = tbl_release s"
    using frame frame' by simp_all
  show ?thesis
    unfolding grouped_def by (intro conjI F E C C' D)
qed

lemma grouped_init: "grouped env s [] Map.empty s"
proof -
  have "regroup env [] Map.empty = (\<lambda>q. q)" by (simp add: regroup_def fun_eq_iff)
  then show ?thesis by (simp add: grouped_def)
qed

lemma loop_grouped:
  assumes "grouped env s pre bins sc"
    and "distinct (map Part_ID (tbl_part s))"
    and "set (pre @ rest) \<subseteq> set (tbl_part s)" and "distinct (pre @ rest)"
    and "MakeBinaries_loop env (bins, sc) rest = (Nil, bins', s')"
  shows "grouped env s (pre @ rest) bins' s'"
  using assms
proof (induction rest arbitrary: pre bins sc)
  case Nil
  then show ?case by simp
next
  case (Cons p rest)
  have pin: "p \<in> set (tbl_part s)" "set pre \<subseteq> set (tbl_part s)" "p \<notin> set pre"
    using Cons.prems(3,4) by auto
  obtain r bins1 sc1 where g: "groupPart env p (bins, sc) = (r, bins1, sc1)"
    by (cases "groupPart env p (bins, sc)")
  with Cons.prems(5) have r: "r = Nil" by (cases r) auto
  with g Cons.prems(5) have loop: "MakeBinaries_loop env (bins1, sc1) rest = (Nil, bins', s')"
    by simp
  have inv1: "grouped env s (pre @ [p]) bins1 sc1"
  proof (cases "binhashOf env p")
    case None
    with g have "bins1 = bins" "sc1 = sc" by (simp_all add: groupPart_skip)
    with grouped_skip [OF Cons.prems(1) None] show ?thesis by simp
  next
    case (Some h)
    let ?bin = "binaryFor bins h (nameOf env p) (totalOf env p) p"
    from g r have nf: "\<not> db_fails env L269 (Part_ID p)"
      unfolding groupPart_accept [OF Some] by (auto split: if_splits)
    with g have b1: "bins1 = bins(h \<mapsto> fst (Save_Binary sc ?bin))" "sc1 = snd (Save_Binary sc ?bin)"
      unfolding groupPart_accept [OF Some] by simp_all
    have "Save_Binary sc ?bin = (fst (Save_Binary sc ?bin), snd (Save_Binary sc ?bin))" by simp
    from grouped_accept [OF Cons.prems(1,2) pin(2,1,3) Some this] show ?thesis
      by (simp add: b1)
  qed
  have "grouped env s ((pre @ [p]) @ rest) bins' s'"
    by (rule Cons.IH [OF inv1 Cons.prems(2) _ _ loop]) (use Cons.prems(3,4) in auto)
  then show ?case by simp
qed

lemma groupPart_first:
  assumes "binhashOf env p = Some h" "bins h = None" "\<not> db_fails env L269 (Part_ID p)"
    and "n = nextID (map Binary_ID (tbl_binary sc))"
  shows "groupPart env p (bins, sc) =
     (Nil, bins(h \<mapsto> binaryOf env h [p] n),
      sc\<lparr>tbl_binary := tbl_binary sc @ [(binaryOf env h [p] n)\<lparr>Binary_Parts := []\<rparr>],
         tbl_part := upsert Part_ID (p\<lparr>Part_BinaryID := Some n\<rparr>) (tbl_part sc)\<rparr>)"
  unfolding groupPart_accept [OF assms(1)]
    save_new [where bins = bins and h = h and n = n and sc = sc and env = env and p = p,
      OF assms(2) assms(4)]
  using assms(3) by simp

lemma groupPart_next:
  assumes "binhashOf env p = Some h" "bins h = Some (binaryOf env h ps i)" "i \<noteq> 0" "ps \<noteq> []"
    "\<not> db_fails env L269 (Part_ID p)"
  shows "groupPart env p (bins, sc) =
     (Nil, bins(h \<mapsto> binaryOf env h (ps @ [p]) i),
      sc\<lparr>tbl_binary := upsert Binary_ID ((binaryOf env h ps i)\<lparr>Binary_Parts := []\<rparr>) (tbl_binary sc),
         tbl_part := fold (upsert Part_ID)
                       (map (\<lambda>q. q\<lparr>Part_BinaryID := Some i\<rparr>) (ps @ [p])) (tbl_part sc)\<rparr>)"
  unfolding groupPart_accept [OF assms(1)]
    save_old [where bins = bins and h = h and ps = ps and i = i and sc = sc and env = env and p = p,
      OF assms(2) assms(3) assms(4)]
  using assms(5) by simp

lemma hash2: "makeBinaryHash ''a'' ''g'' ''f'' ''2'' = ''9c06e4292f5b5ed6''"
  by code_simp

lemma example_part_sel:
  "Part_ID (example_part i subject grp from posted) = i"
  "Part_Subject (example_part i subject grp from posted) = subject"
  "Part_Group (example_part i subject grp from posted) = grp"
  "Part_From (example_part i subject grp from posted) = from"
  "Part_Posted (example_part i subject grp from posted) = posted"
  "Part_BinaryID (example_part i subject grp from posted) = None"
  by (simp_all add: example_part_def)

lemma env2_parts:
  assumes "pc \<in> {''1/2'', ''2/2''}"
  shows "binhashOf env2 (example_part i (example_subject pc ''a.mkv'') ''g'' ''f'' t)
           = Some ''9c06e4292f5b5ed6''"
    and "nameOf env2 (example_part i (example_subject pc ''a.mkv'') ''g'' ''f'' t) = ''a''"
    and "totalOf env2 (example_part i (example_subject pc ''a.mkv'') ''g'' ''f'' t) = ''2''"
proof -
  let ?p = "example_part i (example_subject pc ''a.mkv'') ''g'' ''f'' t"
  have m: "subjectMap env2 ?p = [(''parts'', pc), (''name'', ''a'')]"
    using assms
    by (auto simp: subjectMap_def env2_def example_env_def example_part_def
        example_subject_def trim_ascii_def is_space_def)
  have pc: "partcounts env2 ?p = Some [take 1 pc, ''2'']"
    using assms
    by (auto simp: partcounts_def m hasNameAndParts_def lookup_def normalizeParts_def
        numeral_2_eq_2)
  show n: "nameOf env2 ?p = ''a''" by (simp add: nameOf_def m lookup_def)
  show t: "totalOf env2 ?p = ''2''" by (simp add: totalOf_def pc)
  show "binhashOf env2 ?p = Some ''9c06e4292f5b5ed6''"
    by (simp add: binhashOf_Some pc n t hash2 example_part_sel)
qed

lemma env2_binaryOf:
  assumes "pc \<in> {''1/2'', ''2/2''}"
  shows "(binaryOf env2 ''9c06e4292f5b5ed6''
            (example_part i (example_subject pc ''a.mkv'') ''g'' ''f'' t # ps) n)
              \<lparr>Binary_Parts := []\<rparr> = grouped_binary n t"
  by (simp add: binaryOf_def env2_parts [OF assms] grouped_binary_def example_part_sel
      Atoi_def is_digit_def digit_val_def)

lemma first_post_run: "MakeBinaries env2 first_post = (Nil, first_grouped)"
proof -
  define p1 where "p1 = example_part 1 (example_subject ''1/2'' ''a.mkv'') ''g'' ''f'' 100"
  let ?H = "''9c06e4292f5b5ed6''"
  have h1: "binhashOf env2 p1 = Some ?H" unfolding p1_def by (rule env2_parts) simp
  have ok: "\<not> db_fails env2 site k" for site k by (simp add: env2_def example_env_def)
  have f: "Part_ID p1 = 1" "Part_BinaryID p1 = None" by (simp_all add: p1_def example_part_def)
  have st: "tbl_part first_post = [p1]" "tbl_binary first_post = []"
    by (simp_all add: first_post_def p1_def)
  define s1 where "s1 = first_post\<lparr>tbl_binary := tbl_binary first_post @ [(binaryOf env2 ?H [p1] 1)\<lparr>Binary_Parts := []\<rparr>],
         tbl_part := upsert Part_ID (p1\<lparr>Part_BinaryID := Some 1\<rparr>) (tbl_part first_post)\<rparr>"
  have step1: "groupPart env2 p1 (Map.empty, first_post) = (Nil, [?H \<mapsto> binaryOf env2 ?H [p1] 1], s1)"
    unfolding s1_def
    by (rule groupPart_first [OF h1 _ ok]) (simp_all add: st nextID_def)
  have run: "MakeBinaries env2 first_post = (Nil, s1)"
    by (simp add: MakeBinaries_def ok st f step1)
  have b: "(binaryOf env2 ?H [p1] 1)\<lparr>Binary_Parts := []\<rparr> = grouped_binary 1 100"
    unfolding p1_def by (rule env2_binaryOf) simp
  have "s1 = first_grouped"
    unfolding s1_def b by (simp add: first_post_def first_grouped_def upsert_def p1_def example_part_def)
  with run show ?thesis by simp
qed

lemma second_post_run: "MakeBinaries env2 second_post = (Nil, regrouped)"
proof -
  define p1 where "p1 = (example_part 1 (example_subject ''1/2'' ''a.mkv'') ''g'' ''f'' 100)\<lparr>Part_BinaryID := Some 1\<rparr>"
  define p2 where "p2 = example_part 2 (example_subject ''2/2'' ''a.mkv'') ''g'' ''f'' 101"
  define p3 where "p3 = example_part 3 (example_subject ''1/2'' ''a.mkv'') ''g'' ''f'' 102"
  let ?H = "''9c06e4292f5b5ed6''"
  have h2: "binhashOf env2 p2 = Some ?H" unfolding p2_def by (rule env2_parts) simp
  have h3: "binhashOf env2 p3 = Some ?H" unfolding p3_def by (rule env2_parts) simp
  have ok: "\<not> db_fails env2 site k" for site k by (simp add: env2_def example_env_def)
  have f: "Part_ID p1 = 1" "Part_ID p2 = 2" "Part_ID p3 = 3" "Part_BinaryID p1 = Some 1"
    "Part_BinaryID p2 = None" "Part_BinaryID p3 = None"
    by (simp_all add: p1_def p2_def p3_def example_part_def)
  have st: "tbl_part second_post = [p1, p2, p3]" "tbl_binary second_post = [grouped_binary 1 100]"
    by (simp_all add: second_post_def first_grouped_def p1_def p2_def p3_def)
  have b2: "(binaryOf env2 ?H [p2] 2)\<lparr>Binary_Parts := []\<rparr> = grouped_binary 2 101"
    unfolding p2_def by (rule env2_binaryOf) simp
  define s1 where "s1 = second_post\<lparr>tbl_binary := tbl_binary second_post @ [(binaryOf env2 ?H [p2] 2)\<lparr>Binary_Parts := []\<rparr>],
         tbl_part := upsert Part_ID (p2\<lparr>Part_BinaryID := Some 2\<rparr>) (tbl_part second_post)\<rparr>"
  have step1: "groupPart env2 p2 (Map.empty, second_post) = (Nil, [?H \<mapsto> binaryOf env2 ?H [p2] 2], s1)"
    unfolding s1_def
    by (rule groupPart_first [OF h2 _ ok]) (simp_all add: st nextID_def grouped_binary_def)
  define s2 where "s2 = s1\<lparr>tbl_binary := upsert Binary_ID ((binaryOf env2 ?H [p2] 2)\<lparr>Binary_Parts := []\<rparr>) (tbl_binary s1),
         tbl_part := fold (upsert Part_ID)
                       (map (\<lambda>q. q\<lparr>Part_BinaryID := Some 2\<rparr>) ([p2] @ [p3])) (tbl_part s1)\<rparr>"
  have step2: "groupPart env2 p3 ([?H \<mapsto> binaryOf env2 ?H [p2] 2], s1) =
      (Nil, [?H \<mapsto> binaryOf env2 ?H [p2] 2](?H \<mapsto> binaryOf env2 ?H ([p2] @ [p3]) 2), s2)"
    unfolding s2_def
    by (rule groupPart_next [OF h3 _ _ _ ok]) simp_all
  have run: "MakeBinaries env2 second_post = (Nil, s2)"
    by (simp add: MakeBinaries_def ok st f step1 step2)
  have "s2 = regrouped"
    unfolding s2_def s1_def b2
    by (simp add: second_post_def first_grouped_def regrouped_def upsert_def grouped_binary_def
        p2_def p3_def example_part_def)
  with run show ?thesis by simp
qed

lemma collision_run:
  "fst (MakeBinaries env_bob store_bob) = Nil \<and>
   map (\<lambda>p. (Part_ID p, nameOf env_bob p, Part_Group p, Part_From p, fst (Atoi (totalOf env_bob p))))
     (tbl_part store_bob) = [(1, ''a'', ''g'', ''bob1'', 34), (2, ''a'', ''g'', ''bob'', 134)] \<and>
   map (\<lambda>b. (Binary_ID b, Binary_From b, Binary_TotalParts b))
     (tbl_binary (snd (MakeBinaries env_bob store_bob))) = [(1, ''bob1'', 34)] \<and>
   map (\<lambda>p. (Part_ID p, Part_BinaryID p)) (tbl_part (snd (MakeBinaries env_bob store_bob))) =
     [(1, Some 1), (2, Some 1)]"
proof -
  define p1 where "p1 = example_part 1 (example_subject ''1/34'' ''a.mkv'') ''g'' ''bob1'' 100"
  define p2 where "p2 = example_part 2 (example_subject ''1/134'' ''a.mkv'') ''g'' ''bob'' 101"
  define H where "H = makeBinaryHash ''a'' ''g'' ''bob1'' ''34''"
  have H2: "makeBinaryHash ''a'' ''g'' ''bob'' ''134'' = H"
    by (simp add: H_def makeBinaryHash_def)
  have m1: "subjectMap env_bob p1 = [(''parts'', ''1/34''), (''name'', ''a'')]"
    by (simp add: p1_def subjectMap_def env_bob_def example_env_def example_part_def
        example_subject_def trim_ascii_def is_space_def)
  have m2: "subjectMap env_bob p2 = [(''parts'', ''1/134''), (''name'', ''a'')]"
    by (simp add: p2_def subjectMap_def env_bob_def example_env_def example_part_def
        example_subject_def trim_ascii_def is_space_def)
  have pc1: "partcounts env_bob p1 = Some [''1'', ''34'']"
    by (simp add: partcounts_def m1 hasNameAndParts_def lookup_def normalizeParts_def
        numeral_2_eq_2)
  have pc2: "partcounts env_bob p2 = Some [''1'', ''134'']"
    by (simp add: partcounts_def m2 hasNameAndParts_def lookup_def normalizeParts_def
        numeral_2_eq_2)
  have nt: "nameOf env_bob p1 = ''a''" "nameOf env_bob p2 = ''a''"
    "totalOf env_bob p1 = ''34''" "totalOf env_bob p2 = ''134''"
    by (simp_all add: nameOf_def totalOf_def m1 m2 pc1 pc2 lookup_def)
  have a: "fst (Atoi ''34'') = 34" "fst (Atoi ''134'') = 134"
    by (simp_all add: Atoi_def is_digit_def digit_val_def)
  have f: "Part_ID p1 = 1" "Part_ID p2 = 2" "Part_Group p1 = ''g''" "Part_Group p2 = ''g''"
    "Part_From p1 = ''bob1''" "Part_From p2 = ''bob''" "Part_BinaryID p1 = None"
    "Part_BinaryID p2 = None" "Part_Posted p1 = 100"
    by (simp_all add: p1_def p2_def example_part_def)
  have h1: "binhashOf env_bob p1 = Some H"
    by (simp add: binhashOf_Some pc1 nt f H_def)
  have h2: "binhashOf env_bob p2 = Some H"
    by (simp add: binhashOf_Some pc2 nt f H2)
  have ok: "\<not> db_fails env_bob site k" for site k
    by (simp add: env_bob_def example_env_def)
  have st: "tbl_part store_bob = [p1, p2]" "tbl_binary store_bob = []"
    by (simp_all add: store_bob_def empty_store_def p1_def p2_def)
  define s1 where "s1 = store_bob\<lparr>tbl_binary := tbl_binary store_bob @ [(binaryOf env_bob H [p1] 1)\<lparr>Binary_Parts := []\<rparr>],
         tbl_part := upsert Part_ID (p1\<lparr>Part_BinaryID := Some 1\<rparr>) (tbl_part store_bob)\<rparr>"
  have step1: "groupPart env_bob p1 (Map.empty, store_bob) = (Nil, [H \<mapsto> binaryOf env_bob H [p1] 1], s1)"
    unfolding s1_def
    by (rule groupPart_first [OF h1 _ ok]) (simp_all add: st nextID_def)
  define s2 where "s2 = s1\<lparr>tbl_binary := upsert Binary_ID ((binaryOf env_bob H [p1] 1)\<lparr>Binary_Parts := []\<rparr>) (tbl_binary s1),
         tbl_part := fold (upsert Part_ID)
                       (map (\<lambda>q. q\<lparr>Part_BinaryID := Some 1\<rparr>) ([p1] @ [p2])) (tbl_part s1)\<rparr>"
  have step2: "groupPart env_bob p2 ([H \<mapsto> binaryOf env_bob H [p1] 1], s1) =
      (Nil, [H \<mapsto> binaryOf env_bob H [p1] 1](H \<mapsto> binaryOf env_bob H ([p1] @ [p2]) 1), s2)"
    unfolding s2_def
    by (rule groupPart_next [OF h2 _ _ _ ok]) simp_all
  have run: "MakeBinaries env_bob store_bob = (Nil, s2)"
    by (simp add: MakeBinaries_def ok st f step1 step2)
  have tb: "tbl_binary s2 = [(binaryOf env_bob H [p1] 1)\<lparr>Binary_Parts := []\<rparr>]"
    by (simp add: s2_def s1_def st upsert_def binaryOf_def)
  have tp: "tbl_part s2 = [p1\<lparr>Part_BinaryID := Some 1\<rparr>, p2\<lparr>Part_BinaryID := Some 1\<rparr>]"
    by (simp add: s2_def s1_def st upsert_def f)
  show ?thesis
    by (simp add: run tb tp st nt f a binaryOf_def)
qed

section \<open>C7: one Binary per hash\<close>

text \<open>
  Claim C7 as stated fails, in two ways. The hash of line 254 is taken over the
  concatenation of the name, the group, the poster and the total, with nothing between
  them: the part of the poster \<open>bob1\<close> with the total \<open>34\<close> and the part of the poster
  \<open>bob\<close> with the total \<open>134\<close> differ as tuples and give the same text \<open>agbob134\<close>;
  MakeBinaries leaves one Binary for the two, with the poster and the total of the first.
  And the map of line 197 is new in every run, so a Binary of an earlier run is never
  found: after the first Part of a file has been grouped into Binary 1, a run over two
  more Parts of the same name, group, poster and total creates Binary 2, and the store
  holds two Binaries of one tuple and one hash.
\<close>

theorem MakeBinaries_one_binary_per_tuple_counterexample:
  "fst (MakeBinaries env_bob store_bob) = Nil \<and>
   map (\<lambda>p. (Part_ID p, nameOf env_bob p, Part_Group p, Part_From p, fst (Atoi (totalOf env_bob p))))
     (tbl_part store_bob) = [(1, ''a'', ''g'', ''bob1'', 34), (2, ''a'', ''g'', ''bob'', 134)] \<and>
   map (\<lambda>b. (Binary_ID b, Binary_From b, Binary_TotalParts b))
     (tbl_binary (snd (MakeBinaries env_bob store_bob))) = [(1, ''bob1'', 34)] \<and>
   map (\<lambda>p. (Part_ID p, Part_BinaryID p)) (tbl_part (snd (MakeBinaries env_bob store_bob))) =
     [(1, Some 1), (2, Some 1)] \<and>
   MakeBinaries env2 first_post = (Nil, first_grouped) \<and>
   MakeBinaries env2 second_post = (Nil, regrouped) \<and>
   map (\<lambda>p. (Part_ID p, nameOf env2 p, Part_Group p, Part_From p, totalOf env2 p, Part_BinaryID p))
     (tbl_part regrouped) =
     [(1, ''a'', ''g'', ''f'', ''2'', Some 1), (2, ''a'', ''g'', ''f'', ''2'', Some 2),
      (3, ''a'', ''g'', ''f'', ''2'', Some 2)] \<and>
   map (\<lambda>b. (Binary_ID b, Binary_Hash b, Binary_Name b, Binary_Group b, Binary_From b,
              Binary_TotalParts b)) (tbl_binary regrouped) =
     [(1, ''9c06e4292f5b5ed6'', ''a'', ''g'', ''f'', 2),
      (2, ''9c06e4292f5b5ed6'', ''a'', ''g'', ''f'', 2)]"
proof -
  have n: "nameOf env2 (p\<lparr>Part_BinaryID := x\<rparr>) = nameOf env2 p"
    "totalOf env2 (p\<lparr>Part_BinaryID := x\<rparr>) = totalOf env2 p" for p x
    by (simp_all add: nameOf_def totalOf_def partcounts_def subjectMap_def Let_def)
  have parts: "map (\<lambda>p. (Part_ID p, nameOf env2 p, Part_Group p, Part_From p, totalOf env2 p, Part_BinaryID p))
     (tbl_part regrouped) =
     [(1, ''a'', ''g'', ''f'', ''2'', Some 1), (2, ''a'', ''g'', ''f'', ''2'', Some 2),
      (3, ''a'', ''g'', ''f'', ''2'', Some 2)]"
    by (simp add: regrouped_def n env2_parts example_part_sel)
  have bins: "map (\<lambda>b. (Binary_ID b, Binary_Hash b, Binary_Name b, Binary_Group b, Binary_From b,
              Binary_TotalParts b)) (tbl_binary regrouped) =
     [(1, ''9c06e4292f5b5ed6'', ''a'', ''g'', ''f'', 2),
      (2, ''9c06e4292f5b5ed6'', ''a'', ''g'', ''f'', 2)]"
    by (simp add: regrouped_def grouped_binary_def)
  from collision_run first_post_run second_post_run parts bins show ?thesis by blast
qed

text \<open>
  Claim C7, amended. In a store whose Parts have distinct keys, a run of MakeBinaries that
  returns no error adds exactly one Binary per distinct hash of the ungrouped Parts that
  the parser accepts, the hash being that of the text of the name, the group, the poster
  and the total put together, and leaves the Binaries that the store held as they were:
  the new Binaries have distinct hashes and distinct keys, the number of Binaries of
  such a hash has grown by one (so exactly one Binary of the hash is left when the store
  held none), and every accepted ungrouped Part refers to the new Binary of its hash.
  Each new Binary has the name, the group, the poster and the posted time of the first
  Part with its hash, \<open>total_parts\<close> is the integer parsed from the total of that Part,
  and the Binary held by the run has the Parts with that hash, in their order, the first
  of them first. Parts with the same name, group, poster and text of the total have the
  same hash.
\<close>

theorem MakeBinaries_one_binary_per_hash:
  assumes dP: "distinct (map Part_ID (tbl_part s))" and run: "MakeBinaries env s = (Nil, s')"
  shows "\<exists>news binaries.
     MakeBinaries_loop env (Map.empty, s) (filter (\<lambda>p. Part_BinaryID p = None) (tbl_part s))
       = (Nil, binaries, s') \<and>
     tbl_binary s' = tbl_binary s @ news \<and>
     distinct (map Binary_Hash news) \<and> distinct (map Binary_ID news) \<and>
     (\<forall>p\<in>set (tbl_part s). \<forall>h. Part_BinaryID p = None \<and> binhashOf env p = Some h \<longrightarrow>
        (\<exists>b\<in>set news. Binary_Hash b = h \<and>
                       p\<lparr>Part_BinaryID := Some (Binary_ID b)\<rparr> \<in> set (tbl_part s')) \<and>
        length (filter (\<lambda>b. Binary_Hash b = h) (tbl_binary s')) =
          1 + length (filter (\<lambda>b. Binary_Hash b = h) (tbl_binary s))) \<and>
     (\<forall>b\<in>set news. \<exists>p ps.
        hits env (filter (\<lambda>p. Part_BinaryID p = None) (tbl_part s)) (Binary_Hash b) = p # ps \<and>
        Binary_Name b = nameOf env p \<and> Binary_Group b = Part_Group p \<and>
        Binary_From b = Part_From p \<and> Binary_Posted b = Part_Posted p \<and>
        Binary_TotalParts b = fst (Atoi (totalOf env p)) \<and>
        (\<exists>b'. binaries (Binary_Hash b) = Some b' \<and> Binary_ID b' = Binary_ID b \<and>
              Binary_Parts b' = map (\<lambda>q. q\<lparr>Part_BinaryID := Some (Binary_ID b)\<rparr>) (p # ps))) \<and>
     (\<forall>p q. partcounts env p \<noteq> None \<and> partcounts env q \<noteq> None \<and>
        nameOf env p = nameOf env q \<and> Part_Group p = Part_Group q \<and>
        Part_From p = Part_From q \<and> totalOf env p = totalOf env q
        \<longrightarrow> binhashOf env p = binhashOf env q)"
proof -
  let ?ps = "filter (\<lambda>p. Part_BinaryID p = None) (tbl_part s)"
  from run obtain binaries where loop: "MakeBinaries_loop env (Map.empty, s) ?ps = (Nil, binaries, s')"
    by (auto simp: MakeBinaries_def split: if_splits prod.splits)
  have "distinct (tbl_part s)" using dP by (rule distinct_map [THEN iffD1, THEN conjunct1])
  then have dps: "distinct ([] @ ?ps)" by simp
  have sub: "set ([] @ ?ps) \<subseteq> set (tbl_part s)" by auto
  from loop_grouped [OF grouped_init dP sub dps loop]
  have inv: "grouped env s ?ps binaries s'" by simp
  then obtain hs where hs: "distinct hs" "set hs = dom binaries"
    and tb: "tbl_binary s' = tbl_binary s @ map (\<lambda>h. (the (binaries h))\<lparr>Binary_Parts := []\<rparr>) hs"
    and inj: "inj_on (\<lambda>h. Binary_ID (the (binaries h))) (set hs)"
    and c: "\<forall>h b. binaries h = Some b \<longrightarrow>
        hits env ?ps h \<noteq> [] \<and> Binary_ID b \<noteq> 0 \<and> b = binaryOf env h (hits env ?ps h) (Binary_ID b)"
    and c': "\<forall>p\<in>set ?ps. \<forall>h. binhashOf env p = Some h \<longrightarrow> binaries h \<noteq> None"
    and tp: "tbl_part s' = map (regroup env ?ps binaries) (tbl_part s)"
    unfolding grouped_def by blast
  define news where "news = map (\<lambda>h. (the (binaries h))\<lparr>Binary_Parts := []\<rparr>) hs"
  have hash: "Binary_Hash (the (binaries h)) = h" if "h \<in> set hs" for h
  proof -
    from that hs(2) obtain b where b: "binaries h = Some b" by auto
    with c have "b = binaryOf env h (hits env ?ps h) (Binary_ID b)" by blast
    then have "Binary_Hash b = h" by (metis Binary.select_convs(2) binaryOf_def)
    with b show ?thesis by simp
  qed
  have "map Binary_Hash news = map (\<lambda>h. h) hs"
    unfolding news_def map_map by (rule map_cong [OF refl]) (simp add: hash)
  then have 1: "distinct (map Binary_Hash news)" using hs(1) by simp
  have "map Binary_ID news = map (\<lambda>h. Binary_ID (the (binaries h))) hs"
    by (simp add: news_def comp_def)
  then have 2: "distinct (map Binary_ID news)" using hs(1) inj by (simp add: distinct_map)
  have 3: "\<forall>p\<in>set (tbl_part s). \<forall>h. Part_BinaryID p = None \<and> binhashOf env p = Some h \<longrightarrow>
        (\<exists>b\<in>set news. Binary_Hash b = h \<and>
                       p\<lparr>Part_BinaryID := Some (Binary_ID b)\<rparr> \<in> set (tbl_part s'))"
  proof (intro ballI allI impI)
    fix p h assume p: "p \<in> set (tbl_part s)" and ph: "Part_BinaryID p = None \<and> binhashOf env p = Some h"
    then have pps: "p \<in> set ?ps" by simp
    with c' ph obtain b0 where b0: "binaries h = Some b0" by blast
    then have hin: "h \<in> set hs" using hs(2) by auto
    let ?b = "b0\<lparr>Binary_Parts := []\<rparr>"
    have "?b \<in> set news" using hin b0 unfolding news_def by force
    moreover have "Binary_Hash ?b = h" using hash [OF hin] b0 by simp
    moreover have "regroup env ?ps binaries p = p\<lparr>Part_BinaryID := Some (Binary_ID ?b)\<rparr>"
      using pps ph b0 by (simp add: regroup_def)
    then have "p\<lparr>Part_BinaryID := Some (Binary_ID ?b)\<rparr> \<in> set (tbl_part s')"
      unfolding tp using p by (metis image_eqI list.set_map)
    ultimately show "\<exists>b\<in>set news. Binary_Hash b = h \<and>
                       p\<lparr>Part_BinaryID := Some (Binary_ID b)\<rparr> \<in> set (tbl_part s')"
      by blast
  qed
  have 4: "\<forall>b\<in>set news. \<exists>p ps.
        hits env ?ps (Binary_Hash b) = p # ps \<and>
        Binary_Name b = nameOf env p \<and> Binary_Group b = Part_Group p \<and>
        Binary_From b = Part_From p \<and> Binary_Posted b = Part_Posted p \<and>
        Binary_TotalParts b = fst (Atoi (totalOf env p)) \<and>
        (\<exists>b'. binaries (Binary_Hash b) = Some b' \<and> Binary_ID b' = Binary_ID b \<and>
              Binary_Parts b' = map (\<lambda>q. q\<lparr>Part_BinaryID := Some (Binary_ID b)\<rparr>) (p # ps))"
  proof
    fix b assume "b \<in> set news"
    then obtain h where h: "h \<in> set hs" "b = (the (binaries h))\<lparr>Binary_Parts := []\<rparr>"
      unfolding news_def by auto
    from h(1) hs(2) obtain b0 where b0: "binaries h = Some b0" by auto
    with c have ne: "hits env ?ps h \<noteq> []" and eq: "b0 = binaryOf env h (hits env ?ps h) (Binary_ID b0)"
      by blast+
    from ne obtain p ps where pps: "hits env ?ps h = p # ps" by (cases "hits env ?ps h") auto
    have bh: "Binary_Hash b = h" using hash [OF h(1)] h(2) by simp
    have fields: "Binary_Name b0 = nameOf env p" "Binary_Group b0 = Part_Group p"
      "Binary_From b0 = Part_From p" "Binary_Posted b0 = Part_Posted p"
      "Binary_TotalParts b0 = fst (Atoi (totalOf env p))"
      "Binary_Parts b0 = map (\<lambda>q. q\<lparr>Part_BinaryID := Some (Binary_ID b0)\<rparr>) (p # ps)"
      by (subst eq, simp add: binaryOf_def pps)+
    show "\<exists>p ps.
        hits env ?ps (Binary_Hash b) = p # ps \<and>
        Binary_Name b = nameOf env p \<and> Binary_Group b = Part_Group p \<and>
        Binary_From b = Part_From p \<and> Binary_Posted b = Part_Posted p \<and>
        Binary_TotalParts b = fst (Atoi (totalOf env p)) \<and>
        (\<exists>b'. binaries (Binary_Hash b) = Some b' \<and> Binary_ID b' = Binary_ID b \<and>
              Binary_Parts b' = map (\<lambda>q. q\<lparr>Part_BinaryID := Some (Binary_ID b)\<rparr>) (p # ps))"
      unfolding bh using pps b0 fields h(2) by (intro exI [of _ p] exI [of _ ps]) simp
  qed
  have 5: "\<forall>p q. partcounts env p \<noteq> None \<and> partcounts env q \<noteq> None \<and>
        nameOf env p = nameOf env q \<and> Part_Group p = Part_Group q \<and>
        Part_From p = Part_From q \<and> totalOf env p = totalOf env q
        \<longrightarrow> binhashOf env p = binhashOf env q"
  proof (intro allI impI)
    fix p q assume a: "partcounts env p \<noteq> None \<and> partcounts env q \<noteq> None \<and>
        nameOf env p = nameOf env q \<and> Part_Group p = Part_Group q \<and>
        Part_From p = Part_From q \<and> totalOf env p = totalOf env q"
    then have "binhashOf env p = Some (makeBinaryHash (nameOf env p) (Part_Group p) (Part_From p) (totalOf env p))"
      "binhashOf env q = Some (makeBinaryHash (nameOf env p) (Part_Group p) (Part_From p) (totalOf env p))"
      by (simp_all add: binhashOf_Some)
    then show "binhashOf env p = binhashOf env q" by simp
  qed
  have both: "\<forall>p\<in>set (tbl_part s). \<forall>h. Part_BinaryID p = None \<and> binhashOf env p = Some h \<longrightarrow>
        (\<exists>b\<in>set news. Binary_Hash b = h \<and>
                       p\<lparr>Part_BinaryID := Some (Binary_ID b)\<rparr> \<in> set (tbl_part s')) \<and>
        length (filter (\<lambda>b. Binary_Hash b = h) (tbl_binary s')) =
          1 + length (filter (\<lambda>b. Binary_Hash b = h) (tbl_binary s))"
  proof (intro ballI allI impI conjI)
    fix p h assume p: "p \<in> set (tbl_part s)"
      and ph: "Part_BinaryID p = None \<and> binhashOf env p = Some h"
    with 3 show ex: "\<exists>b\<in>set news. Binary_Hash b = h \<and>
                       p\<lparr>Part_BinaryID := Some (Binary_ID b)\<rparr> \<in> set (tbl_part s')"
      by blast
    then have "h \<in> Binary_Hash ` set news" by blast
    with 1 have "length (filter (\<lambda>b. Binary_Hash b = h) news) = 1"
      by (rule count_distinct_key)
    then show "length (filter (\<lambda>b. Binary_Hash b = h) (tbl_binary s')) =
          1 + length (filter (\<lambda>b. Binary_Hash b = h) (tbl_binary s))"
      unfolding tb news_def [symmetric] by simp
  qed
  from loop tb 1 2 both 4 5 show ?thesis
    unfolding news_def [symmetric] by (intro exI [of _ news] exI [of _ binaries] conjI)
qed

text \<open>
  Three parts with the totals \<open>34\<close>, \<open>034\<close> and \<open>34\<close>: two Binaries, the third part
  appended to the Binary of the first.
\<close>

theorem MakeBinaries_one_binary_per_hash_witness:
  "distinct (map Part_ID (tbl_part store3)) \<and>
   fst (MakeBinaries env3 store3) = Nil \<and>
   distinct (map Binary_Hash (tbl_binary (snd (MakeBinaries env3 store3)))) \<and>
   map (\<lambda>b. (Binary_ID b, Binary_Hash b, Binary_Posted b, Binary_TotalParts b))
     (tbl_binary (snd (MakeBinaries env3 store3))) =
     [(1, ''3fb5e2d9c06a3a93'', 100, 34), (2, ''c83620c080c11247'', 101, 34)] \<and>
   map (\<lambda>p. (Part_ID p, Part_BinaryID p)) (tbl_part (snd (MakeBinaries env3 store3))) =
     [(1, Some 1), (2, Some 2), (3, Some 1)]"
proof -
  define p1 where "p1 = example_part 1 (example_subject ''1/34'' ''a.mkv'') ''g'' ''f'' 100"
  define p2 where "p2 = example_part 2 (example_subject ''2/034'' ''a.mkv'') ''g'' ''f'' 101"
  define p3 where "p3 = example_part 3 (example_subject ''3/34'' ''a.mkv'') ''g'' ''f'' 102"
  define H where "H = makeBinaryHash ''a'' ''g'' ''f'' ''34''"
  define K where "K = makeBinaryHash ''a'' ''g'' ''f'' ''034''"
  have HK: "H \<noteq> K" "K \<noteq> H" by (simp_all add: H_def K_def hash34 hash034)
  have m1: "subjectMap env3 p1 = [(''parts'', ''1/34''), (''name'', ''a'')]"
    by (simp add: p1_def subjectMap_def env3_def example_env_def example_part_def
        example_subject_def trim_ascii_def is_space_def)
  have m2: "subjectMap env3 p2 = [(''parts'', ''2/034''), (''name'', ''a'')]"
    by (simp add: p2_def subjectMap_def env3_def example_env_def example_part_def
        example_subject_def trim_ascii_def is_space_def)
  have m3: "subjectMap env3 p3 = [(''parts'', ''3/34''), (''name'', ''a'')]"
    by (simp add: p3_def subjectMap_def env3_def example_env_def example_part_def
        example_subject_def trim_ascii_def is_space_def)
  have pc1: "partcounts env3 p1 = Some [''1'', ''34'']"
    by (simp add: partcounts_def m1 hasNameAndParts_def lookup_def normalizeParts_def
        numeral_2_eq_2)
  have pc2: "partcounts env3 p2 = Some [''2'', ''034'']"
    by (simp add: partcounts_def m2 hasNameAndParts_def lookup_def normalizeParts_def
        numeral_2_eq_2)
  have pc3: "partcounts env3 p3 = Some [''3'', ''34'']"
    by (simp add: partcounts_def m3 hasNameAndParts_def lookup_def normalizeParts_def
        numeral_2_eq_2)
  have nt: "nameOf env3 p1 = ''a''" "nameOf env3 p2 = ''a''" "nameOf env3 p3 = ''a''"
    "totalOf env3 p1 = ''34''" "totalOf env3 p2 = ''034''" "totalOf env3 p3 = ''34''"
    by (simp_all add: nameOf_def totalOf_def m1 m2 m3 pc1 pc2 pc3 lookup_def)
  have a: "fst (Atoi ''34'') = 34" "fst (Atoi ''034'') = 34"
    by (simp_all add: Atoi_def is_digit_def digit_val_def)
  have f: "Part_ID p1 = 1" "Part_ID p2 = 2" "Part_ID p3 = 3"
    "Part_Group p1 = ''g''" "Part_Group p2 = ''g''" "Part_Group p3 = ''g''"
    "Part_From p1 = ''f''" "Part_From p2 = ''f''" "Part_From p3 = ''f''"
    "Part_BinaryID p1 = None" "Part_BinaryID p2 = None" "Part_BinaryID p3 = None"
    "Part_Posted p1 = 100" "Part_Posted p2 = 101"
    by (simp_all add: p1_def p2_def p3_def example_part_def)
  have h1: "binhashOf env3 p1 = Some H" by (simp add: binhashOf_Some pc1 nt f H_def)
  have h2: "binhashOf env3 p2 = Some K" by (simp add: binhashOf_Some pc2 nt f K_def)
  have h3: "binhashOf env3 p3 = Some H" by (simp add: binhashOf_Some pc3 nt f H_def)
  have ok: "\<not> db_fails env3 site k" for site k
    by (simp add: env3_def example_env_def)
  have st: "tbl_part store3 = [p1, p2, p3]" "tbl_binary store3 = []"
    by (simp_all add: store3_def empty_store_def p1_def p2_def p3_def)
  define B1 where "B1 = binaryOf env3 H [p1] 1"
  define B2 where "B2 = binaryOf env3 K [p2] 2"
  have ids: "Binary_ID B1 = 1" "Binary_ID B2 = 2" by (simp_all add: B1_def B2_def binaryOf_def)
  define s1 where "s1 = store3\<lparr>tbl_binary := tbl_binary store3 @ [B1\<lparr>Binary_Parts := []\<rparr>],
         tbl_part := upsert Part_ID (p1\<lparr>Part_BinaryID := Some 1\<rparr>) (tbl_part store3)\<rparr>"
  have step1: "groupPart env3 p1 (Map.empty, store3) = (Nil, [H \<mapsto> B1], s1)"
    unfolding s1_def B1_def
    by (rule groupPart_first [OF h1 _ ok]) (simp_all add: st nextID_def)
  have tb1: "tbl_binary s1 = [B1\<lparr>Binary_Parts := []\<rparr>]" by (simp add: s1_def st)
  define s2 where "s2 = s1\<lparr>tbl_binary := tbl_binary s1 @ [B2\<lparr>Binary_Parts := []\<rparr>],
         tbl_part := upsert Part_ID (p2\<lparr>Part_BinaryID := Some 2\<rparr>) (tbl_part s1)\<rparr>"
  have step2: "groupPart env3 p2 ([H \<mapsto> B1], s1) = (Nil, [H \<mapsto> B1, K \<mapsto> B2], s2)"
    unfolding s2_def B2_def
    by (rule groupPart_first [OF h2 _ ok]) (simp_all add: HK tb1 ids nextID_def)
  define s3 where "s3 = s2\<lparr>tbl_binary := upsert Binary_ID (B1\<lparr>Binary_Parts := []\<rparr>) (tbl_binary s2),
         tbl_part := fold (upsert Part_ID)
                       (map (\<lambda>q. q\<lparr>Part_BinaryID := Some 1\<rparr>) ([p1] @ [p3])) (tbl_part s2)\<rparr>"
  have step3: "groupPart env3 p3 ([H \<mapsto> B1, K \<mapsto> B2], s2) =
      (Nil, [H \<mapsto> B1, K \<mapsto> B2](H \<mapsto> binaryOf env3 H ([p1] @ [p3]) 1), s3)"
    unfolding s3_def B1_def
    by (rule groupPart_next [OF h3 _ _ _ ok]) (simp_all add: HK B1_def)
  have run: "MakeBinaries env3 store3 = (Nil, s3)"
    by (simp add: MakeBinaries_def ok st f step1 step2 step3)
  have tb: "tbl_binary s3 = [B1\<lparr>Binary_Parts := []\<rparr>, B2\<lparr>Binary_Parts := []\<rparr>]"
    by (simp add: s3_def s2_def tb1 upsert_def ids)
  have tp: "tbl_part s3 = [p1\<lparr>Part_BinaryID := Some 1\<rparr>, p2\<lparr>Part_BinaryID := Some 2\<rparr>,
      p3\<lparr>Part_BinaryID := Some 1\<rparr>]"
    by (simp add: s3_def s2_def s1_def st upsert_def f)
  have d: "distinct (map Part_ID (tbl_part store3))" by (simp add: st f)
  from MakeBinaries_one_binary_per_hash [OF d run]
  obtain news where "tbl_binary s3 = tbl_binary store3 @ news" "distinct (map Binary_Hash news)"
    by blast
  then have dh: "distinct (map Binary_Hash (tbl_binary s3))" by (simp add: st)
  have hk: "H = ''3fb5e2d9c06a3a93''" "K = ''c83620c080c11247''"
    by (simp_all add: H_def K_def hash34 hash034)
  have rows: "map (\<lambda>b. (Binary_ID b, Binary_Hash b, Binary_Posted b, Binary_TotalParts b))
     (tbl_binary s3) = [(1, ''3fb5e2d9c06a3a93'', 100, 34), (2, ''c83620c080c11247'', 101, 34)]"
    by (simp add: tb B1_def B2_def binaryOf_def nt f a hk)
  have refs: "map (\<lambda>p. (Part_ID p, Part_BinaryID p)) (tbl_part s3) =
     [(1, Some 1), (2, Some 2), (3, Some 1)]"
    by (simp add: tp f)
  from d dh rows refs show ?thesis unfolding run by simp
qed

end
